theory Spec2Isabelle
  imports Complex_Main "HOL-Library.Sublist"
begin

section \<open>JavaScript numbers\<close>

text \<open>
  Every number of the front end is an IEEE double. The model keeps the three special
  values apart from the finite ones: \<open>NaN\<close>, \<open>NInf\<close> (\<open>-Infinity\<close>), \<open>PInf\<close>
  (\<open>Infinity\<close>) and \<open>Fin x\<close> for a finite value \<open>x\<close>. The operations \<open>+\<close>, \<open>-\<close>,
  \<open>*\<close> and \<open>/\<close> on finite values are the exact real ones; the special values follow
  IEEE 754, so the guards of the source against \<open>NaN\<close> and \<open>Infinity\<close> are branches of the
  model. The sign of zero is not modelled (a zero divisor counts as \<open>+0\<close>).

  The rounding of every result to the nearest double is the separate function \<open>rnd\<close>
  below. Each function of the source that computes with fractions is given twice: once
  with the exact operations alone (\<open>zoomLimits\<close>, \<open>calculateHexCoords\<close>, \<open>handleZoom\<close>),
  which describes the arithmetic the source intends, and once with \<open>rnd\<close> around every
  operation and every literal that is not a double (\<open>zoomLimits64\<close>,
  \<open>calculateHexCoords64\<close>, \<open>handleZoom64\<close>), which is what the source computes.
  Statements about comparisons, counts and finiteness are made about both; an equality or
  a bound that holds in exact arithmetic only is marked as such where it is stated.
\<close>

datatype jsnum = NaN | NInf | Fin real | PInf

fun isNaN :: "jsnum \<Rightarrow> bool" where
  "isNaN NaN = True"
| "isNaN _ = False"

fun isFinite :: "jsnum \<Rightarrow> bool" where
  "isFinite (Fin _) = True"
| "isFinite _ = False"

instantiation jsnum :: "{plus, uminus, minus, times, inverse, ord}"
begin

fun plus_jsnum :: "jsnum \<Rightarrow> jsnum \<Rightarrow> jsnum" where
  "plus_jsnum NaN _ = NaN"
| "plus_jsnum _ NaN = NaN"
| "plus_jsnum PInf NInf = NaN"
| "plus_jsnum NInf PInf = NaN"
| "plus_jsnum PInf _ = PInf"
| "plus_jsnum _ PInf = PInf"
| "plus_jsnum NInf _ = NInf"
| "plus_jsnum _ NInf = NInf"
| "plus_jsnum (Fin a) (Fin b) = Fin (a + b)"

fun uminus_jsnum :: "jsnum \<Rightarrow> jsnum" where
  "uminus_jsnum NaN = NaN"
| "uminus_jsnum NInf = PInf"
| "uminus_jsnum PInf = NInf"
| "uminus_jsnum (Fin a) = Fin (- a)"

definition minus_jsnum :: "jsnum \<Rightarrow> jsnum \<Rightarrow> jsnum" where
  "minus_jsnum a b = a + (- b)"

fun times_jsnum :: "jsnum \<Rightarrow> jsnum \<Rightarrow> jsnum" where
  "times_jsnum NaN _ = NaN"
| "times_jsnum _ NaN = NaN"
| "times_jsnum (Fin a) (Fin b) = Fin (a * b)"
| "times_jsnum (Fin a) PInf = (if a = 0 then NaN else if 0 < a then PInf else NInf)"
| "times_jsnum (Fin a) NInf = (if a = 0 then NaN else if 0 < a then NInf else PInf)"
| "times_jsnum PInf (Fin b) = (if b = 0 then NaN else if 0 < b then PInf else NInf)"
| "times_jsnum NInf (Fin b) = (if b = 0 then NaN else if 0 < b then NInf else PInf)"
| "times_jsnum PInf PInf = PInf"
| "times_jsnum NInf NInf = PInf"
| "times_jsnum PInf NInf = NInf"
| "times_jsnum NInf PInf = NInf"

fun divide_jsnum :: "jsnum \<Rightarrow> jsnum \<Rightarrow> jsnum" where
  "divide_jsnum NaN _ = NaN"
| "divide_jsnum _ NaN = NaN"
| "divide_jsnum (Fin a) (Fin b) =
     (if b = 0 then (if a = 0 then NaN else if 0 < a then PInf else NInf) else Fin (a / b))"
| "divide_jsnum (Fin a) PInf = Fin 0"
| "divide_jsnum (Fin a) NInf = Fin 0"
| "divide_jsnum PInf (Fin b) = (if 0 \<le> b then PInf else NInf)"
| "divide_jsnum NInf (Fin b) = (if 0 \<le> b then NInf else PInf)"
| "divide_jsnum PInf PInf = NaN"
| "divide_jsnum PInf NInf = NaN"
| "divide_jsnum NInf PInf = NaN"
| "divide_jsnum NInf NInf = NaN"

definition inverse_jsnum :: "jsnum \<Rightarrow> jsnum" where
  "inverse_jsnum a = divide (Fin 1) a"

fun less_jsnum :: "jsnum \<Rightarrow> jsnum \<Rightarrow> bool" where
  "less_jsnum NaN _ = False"
| "less_jsnum _ NaN = False"
| "less_jsnum (Fin a) (Fin b) = (a < b)"
| "less_jsnum _ NInf = False"
| "less_jsnum NInf _ = True"
| "less_jsnum PInf _ = False"
| "less_jsnum _ PInf = True"

fun less_eq_jsnum :: "jsnum \<Rightarrow> jsnum \<Rightarrow> bool" where
  "less_eq_jsnum NaN _ = False"
| "less_eq_jsnum _ NaN = False"
| "less_eq_jsnum (Fin a) (Fin b) = (a \<le> b)"
| "less_eq_jsnum NInf _ = True"
| "less_eq_jsnum _ NInf = False"
| "less_eq_jsnum _ PInf = True"
| "less_eq_jsnum PInf _ = False"

instance ..

end

text \<open>
  \<open>Math.min\<close> and \<open>Math.max\<close> of two numbers return \<open>NaN\<close> as soon as one argument
  is \<open>NaN\<close>; the spread forms \<open>Math.min(...xs)\<close> and \<open>Math.max(...xs)\<close> start from
  \<open>Infinity\<close> and \<open>-Infinity\<close>.
\<close>

definition Math_min :: "jsnum \<Rightarrow> jsnum \<Rightarrow> jsnum" where
  "Math_min a b = (if isNaN a \<or> isNaN b then NaN else if a \<le> b then a else b)"

definition Math_max :: "jsnum \<Rightarrow> jsnum \<Rightarrow> jsnum" where
  "Math_max a b = (if isNaN a \<or> isNaN b then NaN else if a \<le> b then b else a)"

definition Math_min_list :: "jsnum list \<Rightarrow> jsnum" where
  "Math_min_list xs = foldr Math_min xs PInf"

definition Math_max_list :: "jsnum list \<Rightarrow> jsnum" where
  "Math_max_list xs = foldr Math_max xs NInf"

fun Math_sqrt :: "jsnum \<Rightarrow> jsnum" where
  "Math_sqrt (Fin a) = (if a < 0 then NaN else Fin (sqrt a))"
| "Math_sqrt PInf = PInf"
| "Math_sqrt _ = NaN"

fun Math_ceil :: "jsnum \<Rightarrow> jsnum" where
  "Math_ceil (Fin a) = Fin (of_int \<lceil>a\<rceil>)"
| "Math_ceil a = a"

fun Math_floor :: "jsnum \<Rightarrow> jsnum" where
  "Math_floor (Fin a) = Fin (of_int \<lfloor>a\<rfloor>)"
| "Math_floor a = a"

fun Math_abs :: "jsnum \<Rightarrow> jsnum" where
  "Math_abs (Fin a) = Fin \<bar>a\<bar>"
| "Math_abs NaN = NaN"
| "Math_abs _ = PInf"

text \<open>
  The remainder \<open>a % b\<close> has the sign of the dividend: \<open>a - b * trunc (a / b)\<close>.
\<close>

definition trunc :: "real \<Rightarrow> int" where
  "trunc a = (if 0 \<le> a then \<lfloor>a\<rfloor> else \<lceil>a\<rceil>)"

fun js_mod :: "jsnum \<Rightarrow> jsnum \<Rightarrow> jsnum" where
  "js_mod (Fin a) (Fin b) = (if b = 0 then NaN else Fin (a - b * of_int (trunc (a / b))))"
| "js_mod (Fin a) PInf = Fin a"
| "js_mod (Fin a) NInf = Fin a"
| "js_mod _ _ = NaN"

text \<open>
  \<open>s || d\<close> on an optional string: \<open>undefined\<close> and the empty string are falsy.
\<close>

definition str_or :: "string option \<Rightarrow> string \<Rightarrow> string" where
  "str_or s d = (case s of None \<Rightarrow> d | Some v \<Rightarrow> if v = [] then d else v)"

section \<open>Rounding to IEEE doubles\<close>

text \<open>
  A double is a real \<open>m * 2 ^ (e - 52)\<close> with an integer \<open>m\<close>, \<open>\<bar>m\<bar> < 2 ^ 53\<close>, and
  \<open>-1022 \<le> e \<le> 1023\<close>. \<open>binary64 x\<close> is the double nearest to the real \<open>x\<close>, ties
  going to the even \<open>m\<close> (the rounding of IEEE 754 that JavaScript prescribes for its
  arithmetic): \<open>binade x\<close> is the exponent \<open>e\<close> of \<open>x\<close>, held at \<open>-1022\<close> in the subnormal
  range, and a result of magnitude \<open>2 ^ 1024\<close> or more is an infinity. \<open>rnd\<close> applies it
  to a JavaScript number. \<open>Math.sqrt\<close> is taken as correctly rounded, as IEEE 754
  requires of the square root; \<open>Math.ceil\<close>, \<open>Math.floor\<close>, \<open>Math.min\<close>, \<open>Math.max\<close>,
  \<open>%\<close> and the comparisons are exact on doubles.
\<close>

definition roundEven :: "real \<Rightarrow> int" where
  "roundEven y =
     (let f = \<lfloor>y\<rfloor>; d = y - of_int f
      in if d < 1 / 2 then f else if 1 / 2 < d then f + 1 else if even f then f else f + 1)"

definition binade :: "real \<Rightarrow> int" where
  "binade x = max (- 1022) \<lfloor>log 2 \<bar>x\<bar>\<rfloor>"

definition binary64 :: "real \<Rightarrow> jsnum" where
  "binary64 x =
     (if x = 0 then Fin 0
      else
       (let ulp = 2 powi (binade x - 52);
            y = of_int (roundEven (x / ulp)) * ulp
        in if 2 powi 1024 \<le> y then PInf
           else if y \<le> - (2 powi 1024) then NInf
           else Fin y))"

fun rnd :: "jsnum \<Rightarrow> jsnum" where
  "rnd (Fin x) = binary64 x"
| "rnd a = a"

section \<open>Zoom limits (HexGrid.tsx, \<open>zoomLimits\<close>)\<close>

text \<open>
  \<open>typeof d === 'number' && !isNaN(d) && d > 0 ? d : dflt\<close>: the validation of a
  container dimension that opens \<open>zoomLimits\<close> and \<open>calculateHexCoords\<close>.
\<close>

definition validDimension :: "jsnum \<Rightarrow> jsnum \<Rightarrow> jsnum" where
  "validDimension d dflt = (if \<not> isNaN d \<and> Fin 0 < d then d else dflt)"

record ZoomLimits =
  zl_min :: jsnum
  zl_max :: jsnum
  zl_initial :: jsnum

definition zoomLimits :: "jsnum \<Rightarrow> jsnum \<Rightarrow> jsnum \<Rightarrow> ZoomLimits" where
  "zoomLimits hexSizeValue width height =
     (let validWidth = validDimension width (Fin 800);
          validHeight = validDimension height (Fin 600);
          hexagonScreenSize = hexSizeValue;
          minVisibleHexRadius = Fin 6;
          minZoom = minVisibleHexRadius / hexagonScreenSize;
          maxHexRadiusScreen = Math_min validWidth validHeight * Fin 0.4;
          maxZoom = maxHexRadiusScreen / hexagonScreenSize;
          safeMinZoom = Math_max (Fin 0.01) (Math_min minZoom (Fin 1));
          safeMaxZoom = Math_max (safeMinZoom * Fin 2) (Math_min maxZoom (Fin 50))
      in \<lparr>zl_min = safeMinZoom,
          zl_max = safeMaxZoom,
          zl_initial = Math_min (Fin 1) (safeMaxZoom * Fin 0.3)\<rparr>)"

text \<open>
  The same lines on doubles: every quotient and product is rounded, and so are the
  literals \<open>0.4\<close>, \<open>0.01\<close> and \<open>0.3\<close>, which are not doubles.
\<close>

definition zoomLimits64 :: "jsnum \<Rightarrow> jsnum \<Rightarrow> jsnum \<Rightarrow> ZoomLimits" where
  "zoomLimits64 hexSizeValue width height =
     (let validWidth = validDimension width (Fin 800);
          validHeight = validDimension height (Fin 600);
          hexagonScreenSize = hexSizeValue;
          minVisibleHexRadius = Fin 6;
          minZoom = rnd (minVisibleHexRadius / hexagonScreenSize);
          maxHexRadiusScreen = rnd (Math_min validWidth validHeight * rnd (Fin 0.4));
          maxZoom = rnd (maxHexRadiusScreen / hexagonScreenSize);
          safeMinZoom = Math_max (rnd (Fin 0.01)) (Math_min minZoom (Fin 1));
          safeMaxZoom = Math_max (rnd (safeMinZoom * Fin 2)) (Math_min maxZoom (Fin 50))
      in \<lparr>zl_min = safeMinZoom,
          zl_max = safeMaxZoom,
          zl_initial = Math_min (Fin 1) (rnd (safeMaxZoom * rnd (Fin 0.3)))\<rparr>)"

section \<open>Honeycomb layout (HexGrid.tsx, \<open>calculateHexCoords\<close>)\<close>

text \<open>
  A positioned cell, \<open>HexCoord\<close>. The fields are \<open>q\<close>, \<open>r\<close>, \<open>x\<close>, \<open>y\<close> and
  \<open>data\<close> in the source and carry the prefix \<open>hc_\<close> here; \<open>q\<close> is the column and \<open>r\<close>
  the row. The parameter \<open>size\<close> of the source is \<open>size'\<close> here. The array index of \<open>map\<close> is a natural number, read as a number
  where the source computes with it. For an empty list \<open>cols\<close> is 0 and \<open>rows\<close> is
  \<open>NaN\<close> (\<open>0 / 0\<close>), as in the source; no cell is computed from them.
\<close>

record 'a HexCoord =
  hc_q :: jsnum
  hc_r :: jsnum
  hc_x :: jsnum
  hc_y :: jsnum
  hc_data :: 'a

definition calculateHexCoords ::
    "'a list \<Rightarrow> jsnum \<Rightarrow> jsnum \<Rightarrow> jsnum \<Rightarrow> 'a HexCoord list" where
  "calculateHexCoords sortedData containerWidth containerHeight size' =
     (let validWidth = validDimension containerWidth (Fin 800);
          validHeight = validDimension containerHeight (Fin 600);
          maxDimension = Fin 5000
      in if maxDimension < validWidth \<or> maxDimension < validHeight then []
         else
          (let count = Fin (real (length sortedData));
               hexWidth = size' * Math_sqrt (Fin 3);
               hexHeight = size' * Fin 2;
               aspectRatio = validWidth / validHeight;
               cols = Math_ceil (Math_sqrt (count * aspectRatio));
               rows = Math_ceil (count / cols);
               horizontalSpacing = hexWidth;
               verticalSpacing = hexHeight * Fin 0.75;
               rowOffset = hexWidth / Fin 2;
               inputFieldHeight = Fin 0;
               availableHeight = validHeight - inputFieldHeight;
               totalWidth = (cols - Fin 1) * horizontalSpacing + rowOffset;
               totalHeight = (rows - Fin 1) * verticalSpacing;
               startX = (validWidth - totalWidth) / Fin 2;
               startY = inputFieldHeight + (availableHeight - totalHeight) / Fin 2
           in map (\<lambda>(index, item).
                 (let col = js_mod (Fin (real index)) cols;
                      row = Math_floor (Fin (real index) / cols);
                      hexOffsetX = (if js_mod row (Fin 2) = Fin 1 then rowOffset else Fin 0);
                      x = startX + col * horizontalSpacing + hexOffsetX;
                      y = startY + row * verticalSpacing
                  in if isNaN x \<or> isNaN y \<or> \<not> isFinite x \<or> \<not> isFinite y
                     then \<lparr>hc_q = col, hc_r = row, hc_x = Fin 0, hc_y = Fin 0, hc_data = item\<rparr>
                     else \<lparr>hc_q = col, hc_r = row, hc_x = x, hc_y = y, hc_data = item\<rparr>))
               (enumerate 0 sortedData)))"

text \<open>
  The same lines on doubles. The literals \<open>3\<close>, \<open>2\<close>, \<open>0.75\<close>, \<open>1\<close>, \<open>800\<close>, \<open>600\<close>
  and \<open>5000\<close> are doubles, and so are the length of the array and its indices. With
  rounding the number of columns can differ from the exact one: for 54 items in a 500 by
  120 container \<open>54 * (500 / 120)\<close> is 225 and its root 15, but the rounded product is
  \<open>225.00000000000003\<close> and \<open>Math.ceil\<close> of its root is 16.
\<close>

definition calculateHexCoords64 ::
    "'a list \<Rightarrow> jsnum \<Rightarrow> jsnum \<Rightarrow> jsnum \<Rightarrow> 'a HexCoord list" where
  "calculateHexCoords64 sortedData containerWidth containerHeight size' =
     (let validWidth = validDimension containerWidth (Fin 800);
          validHeight = validDimension containerHeight (Fin 600);
          maxDimension = Fin 5000
      in if maxDimension < validWidth \<or> maxDimension < validHeight then []
         else
          (let count = Fin (real (length sortedData));
               hexWidth = rnd (size' * rnd (Math_sqrt (Fin 3)));
               hexHeight = rnd (size' * Fin 2);
               aspectRatio = rnd (validWidth / validHeight);
               cols = Math_ceil (rnd (Math_sqrt (rnd (count * aspectRatio))));
               rows = Math_ceil (rnd (count / cols));
               horizontalSpacing = hexWidth;
               verticalSpacing = rnd (hexHeight * Fin 0.75);
               rowOffset = rnd (hexWidth / Fin 2);
               inputFieldHeight = Fin 0;
               availableHeight = rnd (validHeight - inputFieldHeight);
               totalWidth = rnd (rnd (rnd (cols - Fin 1) * horizontalSpacing) + rowOffset);
               totalHeight = rnd (rnd (rows - Fin 1) * verticalSpacing);
               startX = rnd (rnd (validWidth - totalWidth) / Fin 2);
               startY = rnd (inputFieldHeight + rnd (rnd (availableHeight - totalHeight) / Fin 2))
           in map (\<lambda>(index, item).
                 (let col = js_mod (Fin (real index)) cols;
                      row = Math_floor (rnd (Fin (real index) / cols));
                      hexOffsetX = (if js_mod row (Fin 2) = Fin 1 then rowOffset else Fin 0);
                      x = rnd (rnd (startX + rnd (col * horizontalSpacing)) + hexOffsetX);
                      y = rnd (startY + rnd (row * verticalSpacing))
                  in if isNaN x \<or> isNaN y \<or> \<not> isFinite x \<or> \<not> isFinite y
                     then \<lparr>hc_q = col, hc_r = row, hc_x = Fin 0, hc_y = Fin 0, hc_data = item\<rparr>
                     else \<lparr>hc_q = col, hc_r = row, hc_x = x, hc_y = y, hc_data = item\<rparr>))
               (enumerate 0 sortedData)))"

section \<open>Viewport: wheel zoom (HexGrid.tsx, \<open>handleZoom\<close>)\<close>

text \<open>
  The component state is the pair of \<open>zoom\<close> and \<open>pan\<close> (\<open>vp_zoom\<close> and \<open>vp_pan\<close>; a
  point has the fields \<open>x\<close> and \<open>y\<close>, here \<open>pt_x\<close> and \<open>pt_y\<close>); \<open>handleZoom\<close> returns
  the state after its \<open>setZoom\<close> and \<open>setPan\<close>. The event carries the pointer position relative to
  the SVG element, \<open>mouseX = event.clientX - rect.left\<close> and \<open>mouseY = event.clientY -
  rect.top\<close>; \<open>None\<close> is the call without an event. The memoised \<open>zoomLimits\<close> of the
  component is the parameter \<open>limits\<close>. The early \<open>return\<close> on a \<open>NaN\<close> or infinite zoom
  leaves the state as it was.
\<close>

record Point =
  pt_x :: jsnum
  pt_y :: jsnum

record Viewport =
  vp_zoom :: jsnum
  vp_pan :: Point

definition handleZoom :: "ZoomLimits \<Rightarrow> Viewport \<Rightarrow> jsnum \<Rightarrow> Point option \<Rightarrow> Viewport" where
  "handleZoom limits st delta event =
     (case event of
        Some mouse \<Rightarrow>
          (let mouseX = pt_x mouse;
               mouseY = pt_y mouse;
               currentZoom = vp_zoom st;
               currentPan = vp_pan st;
               zoomSpeed = Fin 0.3;
               newZoom = currentZoom + delta * zoomSpeed;
               clampedZoom = Math_max (zl_min limits) (Math_min (zl_max limits) newZoom);
               clampedZoom = (if Fin 6 < clampedZoom then Fin 6 else clampedZoom)
           in if isNaN clampedZoom \<or> \<not> isFinite clampedZoom then st
              else
               (let worldX = (mouseX - pt_x currentPan) / currentZoom;
                    worldY = (mouseY - pt_y currentPan) / currentZoom;
                    newPan = \<lparr>pt_x = mouseX - worldX * clampedZoom,
                              pt_y = mouseY - worldY * clampedZoom\<rparr>;
                    newPan = (if \<not> isFinite (pt_x newPan) \<or> \<not> isFinite (pt_y newPan)
                                 \<or> isNaN (pt_x newPan) \<or> isNaN (pt_y newPan)
                              then currentPan else newPan)
                in \<lparr>vp_zoom = clampedZoom, vp_pan = newPan\<rparr>))
      | None \<Rightarrow>
          (let prev = vp_zoom st;
               zoomSpeed = Fin 0.3;
               newZoom = prev + delta * zoomSpeed;
               clampedZoom = Math_max (zl_min limits) (Math_min (zl_max limits) newZoom);
               clampedZoom = (if Fin 6 < clampedZoom then Fin 6 else clampedZoom)
           in st\<lparr>vp_zoom := clampedZoom\<rparr>))"

text \<open>
  The same lines on doubles; the literal \<open>0.3\<close> is rounded, \<open>6\<close> is a double.
\<close>

definition handleZoom64 :: "ZoomLimits \<Rightarrow> Viewport \<Rightarrow> jsnum \<Rightarrow> Point option \<Rightarrow> Viewport" where
  "handleZoom64 limits st delta event =
     (case event of
        Some mouse \<Rightarrow>
          (let mouseX = pt_x mouse;
               mouseY = pt_y mouse;
               currentZoom = vp_zoom st;
               currentPan = vp_pan st;
               zoomSpeed = rnd (Fin 0.3);
               newZoom = rnd (currentZoom + rnd (delta * zoomSpeed));
               clampedZoom = Math_max (zl_min limits) (Math_min (zl_max limits) newZoom);
               clampedZoom = (if Fin 6 < clampedZoom then Fin 6 else clampedZoom)
           in if isNaN clampedZoom \<or> \<not> isFinite clampedZoom then st
              else
               (let worldX = rnd (rnd (mouseX - pt_x currentPan) / currentZoom);
                    worldY = rnd (rnd (mouseY - pt_y currentPan) / currentZoom);
                    newPan = \<lparr>pt_x = rnd (mouseX - rnd (worldX * clampedZoom)),
                              pt_y = rnd (mouseY - rnd (worldY * clampedZoom))\<rparr>;
                    newPan = (if \<not> isFinite (pt_x newPan) \<or> \<not> isFinite (pt_y newPan)
                                 \<or> isNaN (pt_x newPan) \<or> isNaN (pt_y newPan)
                              then currentPan else newPan)
                in \<lparr>vp_zoom = clampedZoom, vp_pan = newPan\<rparr>))
      | None \<Rightarrow>
          (let prev = vp_zoom st;
               zoomSpeed = rnd (Fin 0.3);
               newZoom = rnd (prev + rnd (delta * zoomSpeed));
               clampedZoom = Math_max (zl_min limits) (Math_min (zl_max limits) newZoom);
               clampedZoom = (if Fin 6 < clampedZoom then Fin 6 else clampedZoom)
           in st\<lparr>vp_zoom := clampedZoom\<rparr>))"

section \<open>Virtualisation (HexGrid.tsx, \<open>visibleHexCoords\<close>)\<close>



section \<open>Colour classification (HexGrid.tsx, \<open>processedData\<close>; Hexagon.tsx, \<open>fillColor\<close>)\<close>

text \<open>
  A metric point (\<open>MetricPoint\<close> of the type declarations), with the field
  \<open>thresholdLevel\<close> that \<open>processedData\<close> adds. The fields carry the prefix \<open>mp_\<close>.
  \<open>isSummary\<close> is the test \<open>item.labels?.type === 'summary'\<close>, and \<open>classify\<close> is the
  function that \<open>processedData\<close> maps over the data; \<open>range\<close> of the source is \<open>range'\<close>.
\<close>

datatype ThresholdLevel = Normal | Warning | Critical

record Area =
  ar_width :: jsnum
  ar_height :: jsnum

record MetricPoint =
  mp_name :: string
  mp_value :: jsnum
  mp_labels :: "string \<rightharpoonup> string"
  mp_timestamp :: jsnum
  mp_color :: "string option"
  mp_groupOffset :: "Point option"
  mp_groupArea :: "Area option"
  mp_groupId :: "string option"
  mp_thresholdLevel :: "ThresholdLevel option"

definition COLORS_CRITICAL :: string where "COLORS_CRITICAL = ''#e63946''"
definition COLORS_WARNING :: string where "COLORS_WARNING = ''#f77f00''"
definition COLORS_NORMAL :: string where "COLORS_NORMAL = ''#06d6a0''"

definition isSummary :: "MetricPoint \<Rightarrow> bool" where
  "isSummary item = (mp_labels item ''type'' = Some ''summary'')"

definition classify :: "jsnum \<Rightarrow> jsnum \<Rightarrow> MetricPoint \<Rightarrow> MetricPoint" where
  "classify minVal range' item =
     (if isSummary item
      then item\<lparr>mp_thresholdLevel := Some Normal,
                mp_color := Some (str_or (mp_color item) ''#6B7280'')\<rparr>
      else
       (let (color, level) =
              (if Fin 0 < range'
               then (let ratio = (mp_value item - minVal) / range'
                     in if Fin 0.66 \<le> ratio then (COLORS_CRITICAL, Critical)
                        else if Fin 0.33 \<le> ratio then (COLORS_WARNING, Warning)
                        else (COLORS_NORMAL, Normal))
               else (COLORS_NORMAL, Normal))
        in item\<lparr>mp_thresholdLevel := Some level, mp_color := Some color\<rparr>))"

definition processedData :: "MetricPoint list \<Rightarrow> MetricPoint list" where
  "processedData data =
     (if length data = 0 then []
      else
       (let normalMetrics = filter (\<lambda>item. \<not> isSummary item) data
        in if length normalMetrics = 0 then data
           else
            (let values = map mp_value normalMetrics;
                 minVal = Math_min_list values;
                 maxVal = Math_max_list values;
                 range' = maxVal - minVal
             in map (classify minVal range') data)))"

definition fillColor :: "MetricPoint \<Rightarrow> string" where
  "fillColor data = str_or (mp_color data) ''#3B82F6''"

section \<open>Cluster layout: the automatic zoom (App.tsx, \<open>groupedClusterLayout\<close>)\<close>

text \<open>
  A bucket of \<open>groupedData\<close>; the fields carry the prefix \<open>mg_\<close>. Of
  \<open>groupedClusterLayout\<close> the model keeps the computation of \<open>finalZoom\<close>: the average
  number of metrics per group, the two \<open>if\<close> chains that set \<open>baseZoom\<close> from the group
  count and \<open>densityFactor\<close> from the average, their product and its clamp. For no group at
  all the average is \<open>0 / 0\<close>, that is \<open>NaN\<close>, and every comparison with it is false.
\<close>

record 'a MetricGroup =
  mg_groupKey :: string
  mg_groupValue :: string
  mg_metrics :: "'a list"

definition avgMetricsPerGroup :: "'a MetricGroup list \<Rightarrow> jsnum" where
  "avgMetricsPerGroup groupedData =
     (let groupCount = length groupedData;
          totalMetrics = foldl (\<lambda>sum group. sum + length (mg_metrics group)) 0 groupedData
      in Fin (real totalMetrics) / Fin (real groupCount))"

definition baseZoom :: "nat \<Rightarrow> jsnum" where
  "baseZoom groupCount =
     (if groupCount \<le> 2 then Fin 0.8
      else if groupCount \<le> 4 then Fin 0.5
      else if groupCount \<le> 6 then Fin 0.35
      else Fin 0.25)"

definition densityFactor :: "jsnum \<Rightarrow> jsnum" where
  "densityFactor avg =
     (if avg \<le> Fin 5 then Fin 1.1
      else if avg \<le> Fin 15 then Fin 1.0
      else if avg \<le> Fin 30 then Fin 0.9
      else Fin 0.8)"

definition finalZoom :: "'a MetricGroup list \<Rightarrow> jsnum" where
  "finalZoom groupedData =
     (let groupCount = length groupedData;
          autoZoom = baseZoom groupCount * densityFactor (avgMetricsPerGroup groupedData);
          autoZoom = Math_max (Fin 0.1) (Math_min (Fin 1.0) autoZoom)
      in autoZoom)"

section \<open>Grouping state and its filter stack (App.tsx)\<close>

text \<open>
  \<open>GroupFilter\<close> and \<open>GroupByState\<close> of the type declarations. \<open>labelKey\<close> is optional
  here because \<open>handleGroupClick\<close> stores \<open>prev.groupKey!\<close>, which is \<open>undefined\<close> when no
  key is set. Each handler is the state update it passes to \<open>setGroupByState\<close>, a function
  of the previous state \<open>prev\<close>. \<open>handleLabelClick\<close> chooses its update from the state
  \<open>groupByState\<close> that its closure captured, which is a parameter of its own.
  \<open>executeQuery\<close> sets, for a new query, the state that \<open>handleResetGroupBy\<close> sets.
  \<open>slice(0, -1)\<close> drops the last entry and \<open>slice(0, index)\<close> keeps the first \<open>index\<close>
  entries; \<open>index\<close> is an index of the rendered filter list, a natural number.

  A state is reachable when the handlers lead to it from the initial state; the filter
  list offers \<open>handleRemoveFilter\<close> only the indices of the filters it shows.
  \<open>levelsMatch\<close> is the invariant of the filter stack: the levels of its entries are
  \<open>0, 1, 2, ...\<close> in order, and \<open>currentLevel\<close> is its length.
\<close>

record GroupFilter =
  labelKey :: "string option"
  labelValue :: string
  level :: jsnum

record GroupByState =
  isActive :: bool
  groupKey :: "string option"
  selectedGroupValue :: "string option"
  previousGroupKey :: "string option"
  filterStack :: "GroupFilter list"
  currentLevel :: jsnum

definition initialGroupByState :: GroupByState where
  "initialGroupByState =
     \<lparr>isActive = False, groupKey = None, selectedGroupValue = None, previousGroupKey = None,
      filterStack = [], currentLevel = Fin 0\<rparr>"

definition handleResetGroupBy :: "GroupByState \<Rightarrow> GroupByState" where
  "handleResetGroupBy prev =
     \<lparr>isActive = False, groupKey = None, selectedGroupValue = None, previousGroupKey = None,
      filterStack = [], currentLevel = Fin 0\<rparr>"

definition handleLabelClick :: "string \<Rightarrow> GroupByState \<Rightarrow> GroupByState \<Rightarrow> GroupByState" where
  "handleLabelClick key groupByState prev =
     (if isActive groupByState \<and> groupKey groupByState \<noteq> Some key
      then prev\<lparr>groupKey := Some key, selectedGroupValue := None, previousGroupKey := None,
                filterStack := filterStack prev, currentLevel := currentLevel prev\<rparr>
      else if \<not> isActive groupByState
      then \<lparr>isActive = True, groupKey = Some key, selectedGroupValue = None,
            previousGroupKey = None, filterStack = [], currentLevel = Fin 0\<rparr>
      else prev)"

definition handleGroupClick :: "string \<Rightarrow> GroupByState \<Rightarrow> GroupByState" where
  "handleGroupClick groupValue prev =
     (if selectedGroupValue prev = Some groupValue
      then
       (let newFilterStack = butlast (filterStack prev)
        in prev\<lparr>selectedGroupValue := None,
                previousGroupKey := groupKey prev,
                filterStack := newFilterStack,
                currentLevel := Math_max (Fin 0) (currentLevel prev - Fin 1)\<rparr>)
      else
       (let newFilter = \<lparr>labelKey = groupKey prev, labelValue = groupValue,
                          level = currentLevel prev\<rparr>
        in prev\<lparr>selectedGroupValue := Some groupValue,
                previousGroupKey := groupKey prev,
                filterStack := filterStack prev @ [newFilter],
                currentLevel := currentLevel prev + Fin 1\<rparr>))"

definition handleRemoveFilter :: "nat \<Rightarrow> GroupByState \<Rightarrow> GroupByState" where
  "handleRemoveFilter index prev =
     prev\<lparr>filterStack := take index (filterStack prev),
          currentLevel := Fin (real index),
          selectedGroupValue := None\<rparr>"

inductive reachable :: "GroupByState \<Rightarrow> bool" where
  initial: "reachable initialGroupByState"
| labelClick: "reachable s \<Longrightarrow> reachable (handleLabelClick key groupByState s)"
| groupClick: "reachable s \<Longrightarrow> reachable (handleGroupClick groupValue s)"
| removeFilter: "reachable s \<Longrightarrow> index < length (filterStack s) \<Longrightarrow>
                 reachable (handleRemoveFilter index s)"
| reset: "reachable s \<Longrightarrow> reachable (handleResetGroupBy s)"

code_pred reachable .

definition levelsMatch :: "GroupByState \<Rightarrow> bool" where
  "levelsMatch s \<longleftrightarrow>
     map level (filterStack s) = map (\<lambda>i. Fin (real i)) [0..<length (filterStack s)] \<and>
     currentLevel s = Fin (real (length (filterStack s)))"

section \<open>Text fitting (Hexagon.tsx, \<open>prepareText\<close>)\<close>

text \<open>
  \<open>prepareText\<close> is a closure over \<open>validSize\<close> and \<open>validY\<close> and calls the imported
  \<open>measureText\<close>; the three are parameters here. \<open>measureText\<close> is a function of the text
  and the font size: its cache returns what the canvas measured for the same pair. The
  \<open>while\<close> loop is \<open>shrinkLoop\<close>, on the loop variables \<open>optimalFontSize\<close> and
  \<open>textWidth\<close>; not returning is the value \<open>None\<close>. \<open>availableLogicalWidth\<close> is the
  local of that name, with the \<open>if\<close> chain that sets it. The result record has the fields
  \<open>lines\<close>, \<open>shouldWrap\<close> and \<open>optimalFontSize\<close>, with the prefix \<open>ti_\<close>. The last
  \<open>measureText\<close> call of the correction branch assigns a value that is never read.
\<close>

record TextInfo =
  ti_lines :: "string list"
  ti_shouldWrap :: bool
  ti_optimalFontSize :: jsnum

partial_function (option) shrinkLoop ::
    "(string \<Rightarrow> jsnum \<Rightarrow> jsnum) \<Rightarrow> string \<Rightarrow> jsnum \<Rightarrow> jsnum \<Rightarrow> jsnum \<Rightarrow> jsnum
      \<Rightarrow> (jsnum \<times> jsnum) option" where
  "shrinkLoop measureText text available minAcceptableSize optimalFontSize textWidth =
     (if available < textWidth \<and> minAcceptableSize < optimalFontSize
      then shrinkLoop measureText text available minAcceptableSize
             (optimalFontSize * Fin 0.90) (measureText text (optimalFontSize * Fin 0.90))
      else Some (optimalFontSize, textWidth))"

definition availableLogicalWidth :: "jsnum \<Rightarrow> jsnum \<Rightarrow> jsnum \<Rightarrow> jsnum" where
  "availableLogicalWidth validSize validY yPosition =
     (let logicalHexWidth = validSize * Math_sqrt (Fin 3);
          relativeY = (yPosition - validY) / validSize
      in if Math_abs relativeY \<le> Fin 0.3 then logicalHexWidth * Fin 0.85
         else if Math_abs relativeY \<le> Fin 0.6
         then (let reduction = (Math_abs relativeY - Fin 0.3) / Fin 0.3
               in logicalHexWidth * (Fin 0.85 - reduction * Fin 0.25))
         else (let reduction = (Math_abs relativeY - Fin 0.6) / Fin 0.4
               in logicalHexWidth * (Fin 0.60 - reduction * Fin 0.20)))"

definition prepareText ::
    "(string \<Rightarrow> jsnum \<Rightarrow> jsnum) \<Rightarrow> jsnum \<Rightarrow> jsnum \<Rightarrow> string \<Rightarrow> jsnum \<Rightarrow> jsnum \<Rightarrow> TextInfo option" where
  "prepareText measureText validSize validY text maxFontSize yPosition =
     (let available = availableLogicalWidth validSize validY yPosition;
          optimalFontSize = maxFontSize;
          textWidth = measureText text optimalFontSize;
          minAcceptableSize = Math_max (Fin 4) (maxFontSize * Fin 0.4)
      in case shrinkLoop measureText text available minAcceptableSize optimalFontSize textWidth of
           None \<Rightarrow> None
         | Some (optimalFontSize, textWidth) \<Rightarrow>
             (let optimalFontSize =
                    (if available < textWidth
                     then Math_max (Fin 2) ((available / textWidth) * optimalFontSize)
                     else optimalFontSize)
              in Some \<lparr>ti_lines = [text], ti_shouldWrap = False,
                       ti_optimalFontSize = optimalFontSize\<rparr>))"

section \<open>Facts about JavaScript numbers\<close>

lemma Math_min_Fin [simp]: "Math_min (Fin a) (Fin b) = Fin (min a b)"
  by (simp add: Math_min_def min_def)

lemma Math_max_Fin [simp]: "Math_max (Fin a) (Fin b) = Fin (max a b)"
  by (simp add: Math_max_def max_def)

lemma Math_min_PInf [simp]:
  "Math_min PInf (Fin b) = Fin b" "Math_min (Fin b) PInf = Fin b" "Math_min PInf PInf = PInf"
  by (simp_all add: Math_min_def)

lemma Math_max_NInf [simp]:
  "Math_max NInf (Fin b) = Fin b" "Math_max (Fin b) NInf = Fin b" "Math_max NInf NInf = NInf"
  by (simp_all add: Math_max_def)

lemma minus_Fin [simp]: "Fin a - Fin b = Fin (a - b)"
  by (simp add: minus_jsnum_def)

lemma validDimension_pos [simp]: "0 < w \<Longrightarrow> validDimension (Fin w) d = Fin w"
  by (simp add: validDimension_def)

section \<open>Facts about rounding\<close>

text \<open>
  How a rounding is evaluated: the binade is fixed by two powers of two around the
  argument, and the mantissa by the integer within a half of the scaled argument.
\<close>

lemma binade_eq:
  assumes "2 powi e \<le> \<bar>x\<bar>" "\<bar>x\<bar> < 2 powi (e + 1)" "- 1022 \<le> e"
  shows "binade x = e"
proof -
  have "(0::real) < 2 powi e" by simp
  with assms(1) have pos: "0 < \<bar>x\<bar>" by linarith
  have p1: "(2::real) powr real_of_int e = 2 powi e"
    by (rule powr_real_of_int') simp_all
  have p2: "(2::real) powr real_of_int (e + 1) = 2 powi (e + 1)"
    by (rule powr_real_of_int') simp_all
  have "\<lfloor>log 2 \<bar>x\<bar>\<rfloor> = e"
    unfolding floor_log_eq_powr_iff [OF pos, of 2 e, simplified] 
    using assms(1,2) p1 p2 by simp
  with assms(3) show ?thesis by (simp add: binade_def)
qed

lemma roundEven_near:
  assumes "\<bar>y - of_int m\<bar> < 1 / 2"
  shows "roundEven y = m"
proof -
  consider (down) "\<lfloor>y\<rfloor> = m" | (up) "\<lfloor>y\<rfloor> = m - 1" using assms by linarith
  then show ?thesis
  proof cases
    case down
    with assms have "y - of_int \<lfloor>y\<rfloor> < 1 / 2" by linarith
    with down show ?thesis by (simp add: roundEven_def Let_def)
  next
    case up
    have "y - of_int \<lfloor>y\<rfloor> = y - of_int m + 1" by (simp add: up)
    with assms have "1 / 2 < y - of_int \<lfloor>y\<rfloor>" by linarith
    then have "\<not> y - of_int \<lfloor>y\<rfloor> < 1 / 2" by linarith
    with \<open>1 / 2 < y - of_int \<lfloor>y\<rfloor>\<close> up show ?thesis
      by (simp add: roundEven_def Let_def)
  qed
qed

lemma roundEven_between:
  assumes "of_int m - 1 / 2 < y" "y < of_int m + 1 / 2"
  shows "roundEven y = m"
  by (rule roundEven_near) (use assms in linarith)

lemma roundEven_of_int [simp]: "roundEven (of_int m) = m"
  by (rule roundEven_near) simp

lemma binary64_eval:
  assumes "2 powi e \<le> \<bar>x\<bar>" "\<bar>x\<bar> < 2 powi (e + 1)" "- 1022 \<le> e" "e \<le> 1022"
    and "roundEven (x / 2 powi (e - 52)) = m" "\<bar>m\<bar> \<le> 2 ^ 53"
  shows "binary64 x = Fin (of_int m * 2 powi (e - 52))"
proof -
  have b: "binade x = e" using binade_eq [OF assms(1-3)] .
  have "(0::real) < 2 powi e" by simp
  with assms(1) have x0: "x \<noteq> 0" by linarith
  from assms(6) have "real_of_int \<bar>m\<bar> \<le> real_of_int (2 ^ 53)" by (simp only: of_int_le_iff)
  then have "\<bar>real_of_int m\<bar> \<le> 2 powi 53" by simp
  then have "\<bar>real_of_int m * 2 powi (e - 52)\<bar> \<le> 2 powi 53 * 2 powi (e - 52)"
    by (simp add: abs_mult mult_right_mono)
  also have "\<dots> = 2 powi (e + 1)"
  proof -
    have "(2::real) powi 53 * 2 powi (e - 52) = 2 powi (53 + (e - 52))"
      by (rule power_int_add [symmetric]) simp
    moreover have "53 + (e - 52) = e + 1" by simp
    ultimately show ?thesis by (simp only:)
  qed
  also have "\<dots> \<le> 2 powi 1023" using assms(4) by (intro power_int_increasing) simp_all
  also have "\<dots> < 2 powi 1024" by (intro power_int_strict_increasing) simp_all
  finally have "\<bar>real_of_int m * 2 powi (e - 52)\<bar> < 2 powi 1024" .
  then have "\<not> 2 powi 1024 \<le> real_of_int m * 2 powi (e - 52)"
      "\<not> real_of_int m * 2 powi (e - 52) \<le> - (2 powi 1024)" by linarith+
  then show ?thesis using x0 b assms(5) by (simp add: binary64_def Let_def)
qed

lemma binary64_zero [simp]: "binary64 0 = Fin 0"
  by (simp add: binary64_def)

lemma binary64_sqrt_between:
  assumes "0 \<le> lo" "lo\<^sup>2 < q" "0 \<le> hi" "q < hi\<^sup>2"
    and "2 powi e \<le> lo" "hi \<le> 2 powi (e + 1)" "- 1022 \<le> e" "e \<le> 1022"
    and "of_int m - 1 / 2 \<le> lo / 2 powi (e - 52)" "hi / 2 powi (e - 52) \<le> of_int m + 1 / 2"
    and "\<bar>m\<bar> \<le> 2 ^ 53"
  shows "binary64 (sqrt q) = Fin (of_int m * 2 powi (e - 52))"
proof -
  have lo: "lo < sqrt q" using assms(1,2) by (intro real_less_rsqrt)
  have q: "0 \<le> q" using assms(2) by (smt (verit) zero_le_power2)
  have hi: "sqrt q < hi" using assms(3,4) q by (intro real_less_lsqrt) simp_all
  have pos: "(0::real) < 2 powi (e - 52)" by simp
  from lo have "lo / 2 powi (e - 52) < sqrt q / 2 powi (e - 52)"
    using pos by (simp add: divide_strict_right_mono)
  with assms(9) have a: "of_int m - 1 / 2 < sqrt q / 2 powi (e - 52)" by linarith
  from hi have "sqrt q / 2 powi (e - 52) < hi / 2 powi (e - 52)"
    using pos by (simp add: divide_strict_right_mono)
  with assms(10) have b: "sqrt q / 2 powi (e - 52) < of_int m + 1 / 2" by linarith
  have r: "roundEven (sqrt q / 2 powi (e - 52)) = m" using a b by (rule roundEven_between)
  from lo hi assms(1,5,6) have "2 powi e \<le> \<bar>sqrt q\<bar>" "\<bar>sqrt q\<bar> < 2 powi (e + 1)" by linarith+
  from binary64_eval [OF this assms(7,8) r assms(11)] show ?thesis .
qed

lemma binary64_sqrt_3: "binary64 (sqrt 3) = Fin (3900231685776981 / 2251799813685248)"
  using binary64_sqrt_between [of "15600926743107923 / 9007199254740992" 3
      "15600926743107925 / 9007199254740992" 0 7800463371553962]
  by (simp add: power2_eq_square)

text \<open>
  The error of one rounding: below the overflow threshold the result is finite and off by
  at most the fraction \<open>2 ^ (-53)\<close> of the argument, or by \<open>2 ^ (-1075)\<close>, half the
  spacing of the subnormal doubles.
\<close>

lemma roundEven_error: "\<bar>of_int (roundEven y) - y\<bar> \<le> 1 / 2"
proof -
  have "of_int \<lfloor>y\<rfloor> \<le> y" "y < of_int \<lfloor>y\<rfloor> + 1" by linarith+
  then show ?thesis
    by (auto simp: roundEven_def Let_def abs_le_iff)
qed

lemma binade_bounds:
  assumes "x \<noteq> 0"
  shows "\<bar>x\<bar> < 2 powi (binade x + 1)"
    and "- 1022 < binade x \<Longrightarrow> 2 powi binade x \<le> \<bar>x\<bar>"
    and "- 1022 \<le> binade x"
proof -
  define k where "k = \<lfloor>log 2 \<bar>x\<bar>\<rfloor>"
  from assms have pos: "0 < \<bar>x\<bar>" by simp
  have p: "(2::real) powr real_of_int j = 2 powi j" for j
    by (rule powr_real_of_int') simp_all
  have "\<lfloor>log 2 \<bar>x\<bar>\<rfloor> = k" by (simp add: k_def)
  then have "2 powr real_of_int k \<le> \<bar>x\<bar> \<and> \<bar>x\<bar> < 2 powr real_of_int (k + 1)"
    using floor_log_eq_powr_iff [OF pos, of 2 k] by simp
  then have k: "2 powi k \<le> \<bar>x\<bar>" "\<bar>x\<bar> < 2 powi (k + 1)" by (simp_all only: p)
  have b: "binade x = max (- 1022) k" by (simp add: binade_def k_def)
  have "(2::real) powi (k + 1) \<le> 2 powi (binade x + 1)"
    unfolding b by (intro power_int_increasing) simp_all
  with k(2) show "\<bar>x\<bar> < 2 powi (binade x + 1)" by linarith
  show "2 powi binade x \<le> \<bar>x\<bar>" if "- 1022 < binade x"
  proof -
    from that b have "binade x = k" by (simp add: max_def split: if_splits)
    with k(1) show ?thesis by simp
  qed
  show "- 1022 \<le> binade x" unfolding b by simp
qed

lemma binade_le:
  assumes "x \<noteq> 0" "\<bar>x\<bar> < 2 powi (n + 1)" "- 1022 \<le> n"
  shows "binade x \<le> n"
proof (rule ccontr)
  assume "\<not> binade x \<le> n"
  then have gt: "n + 1 \<le> binade x" by simp
  with assms(3) have "- 1022 < binade x" by simp
  from binade_bounds(2) [OF assms(1) this] have "2 powi binade x \<le> \<bar>x\<bar>" .
  moreover have "(2::real) powi (n + 1) \<le> 2 powi binade x"
    using gt by (intro power_int_increasing) simp_all
  ultimately show False using assms(2) by linarith
qed

lemma binary64_error:
  assumes "\<bar>x\<bar> < 2 powi 1023"
  shows "\<exists>y. binary64 x = Fin y \<and> \<bar>y - x\<bar> \<le> \<bar>x\<bar> / 2 ^ 53 + 2 powi (- 1075)"
proof (cases "x = 0")
  case True
  then show ?thesis by (simp add: binary64_def)
next
  case False
  define e where "e = binade x"
  define ulp :: real where "ulp = 2 powi (e - 52)"
  define m where "m = roundEven (x / ulp)"
  define y where "y = of_int m * ulp"
  have ulp: "0 < ulp" by (simp add: ulp_def)
  have e_hi: "e \<le> 1022"
    unfolding e_def using binade_le [OF False, of 1022] assms by simp
  have e_lo: "- 1022 \<le> e" unfolding e_def using binade_bounds(3) [OF False] .
  have "\<bar>of_int m - x / ulp\<bar> \<le> 1 / 2" unfolding m_def by (rule roundEven_error)
  then have "\<bar>of_int m - x / ulp\<bar> * ulp \<le> 1 / 2 * ulp"
    using ulp by (intro mult_right_mono) simp_all
  moreover have "\<bar>of_int m - x / ulp\<bar> * ulp = \<bar>y - x\<bar>"
  proof -
    have "\<bar>of_int m - x / ulp\<bar> * ulp = \<bar>(of_int m - x / ulp) * ulp\<bar>"
      using ulp by (simp add: abs_mult)
    also have "(of_int m - x / ulp) * ulp = y - x"
      using ulp by (simp add: y_def algebra_simps)
    finally show ?thesis .
  qed
  ultimately have err: "\<bar>y - x\<bar> \<le> ulp / 2" by simp
  have half: "ulp / 2 = 2 powi e / 2 ^ 53"
  proof -
    have "(2::real) powi (e - 52) = 2 powi e / 2 powi 52"
      by (rule power_int_diff) simp
    then show ?thesis by (simp add: ulp_def)
  qed
  have small: "ulp / 2 \<le> \<bar>x\<bar> / 2 ^ 53 + 2 powi (- 1075)"
  proof (cases "- 1022 < e")
    case True
    then have "2 powi e \<le> \<bar>x\<bar>" unfolding e_def using binade_bounds(2) [OF False] by simp
    then have "2 powi e / 2 ^ 53 \<le> \<bar>x\<bar> / 2 ^ 53" by (simp add: divide_right_mono)
    moreover have "(0::real) \<le> 2 powi (- 1075)" by simp
    ultimately show ?thesis unfolding half by linarith
  next
    case False
    with e_lo have "e = - 1022" by simp
    then have "ulp / 2 = 2 powi (- 1022) / 2 powi 53" unfolding half by simp
    also have "\<dots> = 2 powi (- 1022 - 53)" by (rule power_int_diff [symmetric]) simp
    also have "\<dots> = 2 powi (- 1075)" by simp
    finally have "ulp / 2 = 2 powi (- 1075)" .
    moreover have "0 \<le> \<bar>x\<bar> / 2 ^ 53" by simp
    ultimately show ?thesis by linarith
  qed
  have "ulp / 2 \<le> 2 powi 1022"
  proof -
    have "(2::real) powi (e - 52) \<le> 2 powi 1022"
      using e_hi by (intro power_int_increasing) simp_all
    with ulp show ?thesis unfolding ulp_def by linarith
  qed
  moreover have "(2::real) powi 1023 + 2 powi 1022 < 2 powi 1024"
  proof -
    have "(2::real) powi 1023 = 2 * 2 powi 1022" "(2::real) powi 1024 = 4 * 2 powi 1022"
      by (simp_all add: power_int_def)
    moreover have "(0::real) < 2 powi 1022" by simp
    ultimately show ?thesis by linarith
  qed
  ultimately have "\<bar>y\<bar> < 2 powi 1024" using err assms by linarith
  then have "\<not> 2 powi 1024 \<le> y" "\<not> y \<le> - (2 powi 1024)" by linarith+
  then have "binary64 x = Fin y"
    using False by (simp add: binary64_def Let_def y_def m_def ulp_def e_def)
  with err small show ?thesis by (intro exI [of _ y]) linarith
qed

text \<open>
  For arguments of moderate size the same bound with plain numbers, and with a bound \<open>B\<close>
  on the argument in place of the argument.
\<close>

lemma binary64_abs_error:
  assumes "\<bar>x\<bar> \<le> 2 ^ 60"
  shows "\<exists>y. binary64 x = Fin y \<and> \<bar>y - x\<bar> \<le> \<bar>x\<bar> / 2 ^ 53 + 1 / 2 ^ 100"
proof -
  have "(2::real) ^ 60 = 2 powi 60" by simp
  also have "\<dots> < 2 powi 1023" by (intro power_int_strict_increasing) simp_all
  finally have "\<bar>x\<bar> < 2 powi 1023" using assms by linarith
  from binary64_error [OF this] obtain y where y: "binary64 x = Fin y"
    "\<bar>y - x\<bar> \<le> \<bar>x\<bar> / 2 ^ 53 + 2 powi (- 1075)" by blast
  have "(2::real) powi (- 1075) \<le> 2 powi (- 100)" by (intro power_int_increasing) simp_all
  also have "\<dots> = 1 / 2 ^ 100" by (simp add: power_int_minus field_simps)
  finally have "(2::real) powi (- 1075) \<le> 1 / 2 ^ 100" .
  with y show ?thesis by (intro exI [of _ y]) linarith
qed

lemma binary64_step:
  assumes "\<bar>x\<bar> \<le> B" "B \<le> 2 ^ 40"
  shows "\<exists>y. binary64 x = Fin y \<and> \<bar>y - x\<bar> \<le> B / 2 ^ 53 + 1 / 2 ^ 100"
proof -
  have "(2::real) ^ 40 \<le> 2 ^ 60" by simp
  with assms have "\<bar>x\<bar> \<le> 2 ^ 60" by linarith
  from binary64_abs_error [OF this] obtain y where y: "binary64 x = Fin y"
    "\<bar>y - x\<bar> \<le> \<bar>x\<bar> / 2 ^ 53 + 1 / 2 ^ 100" by blast
  from assms(1) have "\<bar>x\<bar> / 2 ^ 53 \<le> B / 2 ^ 53" by (simp add: divide_right_mono)
  with y show ?thesis by (intro exI [of _ y]) linarith
qed

text \<open>
  Rounding to the nearest integer does not cross an integer, and a finite result of
  \<open>binary64\<close> is the rounded mantissa times the spacing of its binade.
\<close>

lemma roundEven_ge: "of_int K \<le> y \<Longrightarrow> K \<le> roundEven y"
proof -
  assume "of_int K \<le> y"
  then have "K \<le> \<lfloor>y\<rfloor>" by (simp add: le_floor_iff)
  then show ?thesis by (simp add: roundEven_def Let_def)
qed

lemma roundEven_le: "y \<le> of_int K \<Longrightarrow> roundEven y \<le> K"
proof -
  assume a: "y \<le> of_int K"
  show ?thesis
  proof (cases "y = of_int K")
    case True
    then show ?thesis by simp
  next
    case False
    with a have "y < of_int K" by simp
    then have "\<lfloor>y\<rfloor> < K" by (simp add: floor_less_iff)
    then show ?thesis by (simp add: roundEven_def Let_def)
  qed
qed

lemma binary64_finite_value:
  assumes "binary64 x = Fin y"
  shows "y = of_int (roundEven (x / 2 powi (binade x - 52))) * 2 powi (binade x - 52)"
proof (cases "x = 0")
  case True
  with assms roundEven_of_int [of 0] show ?thesis by (simp add: binary64_def)
next
  case False
  with assms show ?thesis by (simp add: binary64_def Let_def split: if_splits)
qed

section \<open>Zoom limits: the bounds that hold, and the one that does not\<close>

lemma validDimension_cases:
  "0 < k \<Longrightarrow> (\<exists>v. 0 < v \<and> validDimension d (Fin k) = Fin v) \<or> validDimension d (Fin k) = PInf"
  by (cases d) (auto simp: validDimension_def)

lemma smaller_dimension_cases:
  "(\<exists>m. 0 < m \<and> Math_min (validDimension w (Fin 800)) (validDimension h (Fin 600)) = Fin m)
     \<or> Math_min (validDimension w (Fin 800)) (validDimension h (Fin 600)) = PInf"
  using validDimension_cases [of 800 w] validDimension_cases [of 600 h] by auto

lemma smaller_dimension_ge:
  assumes "Fin 51 \<le> validDimension w (Fin 800)" "Fin 51 \<le> validDimension h (Fin 600)"
    and "Math_min (validDimension w (Fin 800)) (validDimension h (Fin 600)) = Fin m"
  shows "51 \<le> m"
  using assms
  by (cases "validDimension w (Fin 800)"; cases "validDimension h (Fin 600)")
     (auto simp: Math_min_def split: if_splits)

text \<open>
  \<open>Math.min(maxZoom, 50)\<close> is a finite number \<open>c\<close> in \<open>(0, 50]\<close> whatever the
  container is; when both validated dimensions are at least 50 pixels it is at least
  \<open>min (102 / 5 / r) 50\<close>.
\<close>

lemma capped_maxZoom:
  assumes "0 < r"
  shows "\<exists>c. 0 < c \<and> c \<le> 50 \<and>
    Math_min ((Math_min (validDimension w (Fin 800)) (validDimension h (Fin 600)) * Fin 0.4) / Fin r)
      (Fin 50) = Fin c \<and>
    (Fin 51 \<le> validDimension w (Fin 800) \<and> Fin 51 \<le> validDimension h (Fin 600)
       \<longrightarrow> min (102 / 5 / r) 50 \<le> c)"
proof -
  consider (fin) m where "0 < m"
      "Math_min (validDimension w (Fin 800)) (validDimension h (Fin 600)) = Fin m"
    | (inf) "Math_min (validDimension w (Fin 800)) (validDimension h (Fin 600)) = PInf"
    using smaller_dimension_cases [of w h] by blast
  then show ?thesis
  proof cases
    case fin
    have "min (102 / 5 / r) 50 \<le> min (m * 0.4 / r) 50" if "51 \<le> m"
    proof -
      from that assms have "102 / 5 / r \<le> m * 0.4 / r"
        by (intro divide_right_mono) simp_all
      then show ?thesis by (simp add: min_def)
    qed
    with fin assms smaller_dimension_ge [of w h m] show ?thesis
      by (intro exI [of _ "min (m * 0.4 / r) 50"]) simp
  next
    case inf
    with assms show ?thesis by simp
  qed
qed

lemma zoomLimits_finite_form:
  assumes "0 < r"
  obtains c where "0 < c" "c \<le> 50"
    "Fin 51 \<le> validDimension w (Fin 800) \<and> Fin 51 \<le> validDimension h (Fin 600)
       \<longrightarrow> min (102 / 5 / r) 50 \<le> c"
    "zoomLimits (Fin r) w h =
       \<lparr>zl_min = Fin (max 0.01 (min (6 / r) 1)),
        zl_max = Fin (max (max 0.01 (min (6 / r) 1) * 2) c),
        zl_initial = Fin (min 1 (max (max 0.01 (min (6 / r) 1) * 2) c * 0.3))\<rparr>"
proof -
  from capped_maxZoom [OF assms, of w h] obtain c where c: "0 < c" "c \<le> 50"
    "Math_min ((Math_min (validDimension w (Fin 800)) (validDimension h (Fin 600)) * Fin 0.4) / Fin r)
       (Fin 50) = Fin c"
    "Fin 51 \<le> validDimension w (Fin 800) \<and> Fin 51 \<le> validDimension h (Fin 600)
       \<longrightarrow> min (102 / 5 / r) 50 \<le> c"
    by blast
  have "zoomLimits (Fin r) w h =
       \<lparr>zl_min = Fin (max 0.01 (min (6 / r) 1)),
        zl_max = Fin (max (max 0.01 (min (6 / r) 1) * 2) c),
        zl_initial = Fin (min 1 (max (max 0.01 (min (6 / r) 1) * 2) c * 0.3))\<rparr>"
    using assms c(3) by (simp add: zoomLimits_def Let_def)
  with c(1,2,4) show thesis using that by blast
qed

lemma min_le_initial_arith:
  fixes r c :: real
  assumes "0 < r" "r \<le> 600" "min (102 / 5 / r) 50 \<le> c"
  shows "max 0.01 (min (6 / r) 1) \<le> min 1 (max (max 0.01 (min (6 / r) 1) * 2) c * 0.3)"
proof -
  from assms(1,2) have "6 / 600 \<le> 6 / r"
    by (intro divide_left_mono) simp_all
  then have a: "1 / 100 \<le> 6 / r" by simp
  from assms(1) have "6 / r \<le> (153 / 25) / r"
    by (intro divide_right_mono) simp_all
  moreover have "102 / 5 / r * 0.3 = (153 / 25) / r" by simp
  ultimately have b: "6 / r \<le> 102 / 5 / r * 0.3" by simp
  from assms(3) have "min (102 / 5 / r) 50 * 0.3 \<le> c * 0.3" by simp
  then have "min (6 / r) 15 \<le> c * 0.3" using b by (simp add: min_def split: if_splits)
  with a show ?thesis by (simp add: min_def max_def split: if_splits)
qed

text \<open>
  Claim C1, as amended. For every positive finite cell radius and every container (also
  with \<open>NaN\<close>, infinite or non-positive dimensions) the three zoom bounds are finite,
  \<open>initial \<le> max\<close>, \<open>2 * min \<le> max\<close>, \<open>0.01 \<le> min \<le> 1\<close>, \<open>max \<le> 50\<close> and
  \<open>initial = Math.min(1, max * 0.3)\<close>. The bound \<open>min \<le> initial\<close> holds exactly
  when \<open>min \<le> max * 0.3\<close>; it holds in particular when the radius is at most 600 and
  both validated container dimensions are at least 51 pixels. Then \<open>max * 0.3\<close> exceeds
  \<open>min\<close> by at least two per cent of \<open>min\<close> (or \<open>max\<close> is the cap 50), a margin that
  the rounding of the doubles of the source does not consume; at a dimension of exactly 50
  pixels the two sides agree in exact arithmetic (\<open>0.3 * (50 * 0.4 / r) = 6 / r\<close>) and the
  rounded product can fall below \<open>min\<close>, so that dimension is left out.
\<close>

theorem zoomLimits_bounds:
  assumes "0 < r"
  shows "isFinite (zl_min (zoomLimits (Fin r) w h)) \<and>
         isFinite (zl_max (zoomLimits (Fin r) w h)) \<and>
         isFinite (zl_initial (zoomLimits (Fin r) w h)) \<and>
         zl_initial (zoomLimits (Fin r) w h) \<le> zl_max (zoomLimits (Fin r) w h) \<and>
         zl_min (zoomLimits (Fin r) w h) * Fin 2 \<le> zl_max (zoomLimits (Fin r) w h) \<and>
         Fin 0.01 \<le> zl_min (zoomLimits (Fin r) w h) \<and>
         zl_min (zoomLimits (Fin r) w h) \<le> Fin 1 \<and>
         zl_max (zoomLimits (Fin r) w h) \<le> Fin 50 \<and>
         zl_initial (zoomLimits (Fin r) w h)
           = Math_min (Fin 1) (zl_max (zoomLimits (Fin r) w h) * Fin 0.3) \<and>
         (zl_min (zoomLimits (Fin r) w h) \<le> zl_initial (zoomLimits (Fin r) w h)
            \<longleftrightarrow> zl_min (zoomLimits (Fin r) w h) \<le> zl_max (zoomLimits (Fin r) w h) * Fin 0.3) \<and>
         (r \<le> 600 \<and> Fin 51 \<le> validDimension w (Fin 800) \<and> Fin 51 \<le> validDimension h (Fin 600)
            \<longrightarrow> zl_min (zoomLimits (Fin r) w h) \<le> zl_initial (zoomLimits (Fin r) w h))"
proof -
  obtain c where c: "0 < c" "c \<le> 50"
    and lower: "Fin 51 \<le> validDimension w (Fin 800) \<and> Fin 51 \<le> validDimension h (Fin 600)
       \<longrightarrow> min (102 / 5 / r) 50 \<le> c"
    and z: "zoomLimits (Fin r) w h =
       \<lparr>zl_min = Fin (max 0.01 (min (6 / r) 1)),
        zl_max = Fin (max (max 0.01 (min (6 / r) 1) * 2) c),
        zl_initial = Fin (min 1 (max (max 0.01 (min (6 / r) 1) * 2) c * 0.3))\<rparr>"
    using zoomLimits_finite_form [OF assms] by blast
  have main: "isFinite (zl_min (zoomLimits (Fin r) w h)) \<and>
         isFinite (zl_max (zoomLimits (Fin r) w h)) \<and>
         isFinite (zl_initial (zoomLimits (Fin r) w h)) \<and>
         zl_initial (zoomLimits (Fin r) w h) \<le> zl_max (zoomLimits (Fin r) w h) \<and>
         zl_min (zoomLimits (Fin r) w h) * Fin 2 \<le> zl_max (zoomLimits (Fin r) w h) \<and>
         Fin 0.01 \<le> zl_min (zoomLimits (Fin r) w h) \<and>
         zl_min (zoomLimits (Fin r) w h) \<le> Fin 1 \<and>
         zl_max (zoomLimits (Fin r) w h) \<le> Fin 50 \<and>
         zl_initial (zoomLimits (Fin r) w h)
           = Math_min (Fin 1) (zl_max (zoomLimits (Fin r) w h) * Fin 0.3) \<and>
         (zl_min (zoomLimits (Fin r) w h) \<le> zl_initial (zoomLimits (Fin r) w h)
            \<longleftrightarrow> zl_min (zoomLimits (Fin r) w h) \<le> zl_max (zoomLimits (Fin r) w h) * Fin 0.3)"
    unfolding z using c by (simp add: min_def max_def)
  have "zl_min (zoomLimits (Fin r) w h) \<le> zl_initial (zoomLimits (Fin r) w h)"
    if "r \<le> 600" "Fin 51 \<le> validDimension w (Fin 800)" "Fin 51 \<le> validDimension h (Fin 600)"
    unfolding z using min_le_initial_arith [OF assms that(1), of c] lower that(2,3) by simp
  with main show ?thesis by blast
qed

theorem zoomLimits_bounds_witness:
  "(0::real) < 15 \<and>
   zl_min (zoomLimits (Fin 15) (Fin 800) (Fin 600)) \<le> zl_initial (zoomLimits (Fin 15) (Fin 800) (Fin 600)) \<and>
   zl_initial (zoomLimits (Fin 15) (Fin 800) (Fin 600)) \<le> zl_max (zoomLimits (Fin 15) (Fin 800) (Fin 600)) \<and>
   zl_min (zoomLimits (Fin 15) (Fin 800) (Fin 600)) * Fin 2 \<le> zl_max (zoomLimits (Fin 15) (Fin 800) (Fin 600))"
proof -
  have radius: "(0::real) < 15" by simp
  have container: "(15::real) \<le> 600 \<and> Fin 51 \<le> validDimension (Fin 800) (Fin 800)
      \<and> Fin 51 \<le> validDimension (Fin 600) (Fin 600)"
    by (simp add: validDimension_def)
  from zoomLimits_bounds [OF radius, of "Fin 800" "Fin 600"] container radius
  show ?thesis by blast
qed

text \<open>
  Why the sufficient condition starts above 50 pixels: on doubles a \<open>small\<close> hexagon
  (radius 15) in a 50 by 50 container has \<open>min = 0.4\<close> (the double nearest to it) and
  \<open>initial = 0.39999999999999997\<close>, one unit in the last place below \<open>min\<close>, although
  the two agree in exact arithmetic.
\<close>

lemma zoomLimits64_dimension_50:
  "zoomLimits64 (Fin 15) (Fin 50) (Fin 50)
     = \<lparr>zl_min = Fin (3602879701896397 / 9007199254740992),
        zl_max = Fin (6004799503160661 / 4503599627370496),
        zl_initial = Fin (7205759403792793 / 18014398509481984)\<rparr> \<and>
   zl_initial (zoomLimits64 (Fin 15) (Fin 50) (Fin 50)) < zl_min (zoomLimits64 (Fin 15) (Fin 50) (Fin 50))"
proof -
  have limits_step_1: "binary64 (2 / 5) = Fin (3602879701896397 / 9007199254740992)"
    using binary64_eval [of "- 2" "2 / 5" "7205759403792794"] by (simp add: roundEven_def)

  have limits_step_2: "binary64 (90071992547409925 / 4503599627370496) = Fin (20)"
    using binary64_eval [of "4" "90071992547409925 / 4503599627370496" "5629499534213120"] by (simp add: roundEven_def)

  have limits_step_3: "binary64 (4 / 3) = Fin (6004799503160661 / 4503599627370496)"
    using binary64_eval [of "0" "4 / 3" "6004799503160661"] by (simp add: roundEven_def)

  have limits_step_4: "binary64 (1 / 100) = Fin (5764607523034235 / 576460752303423488)"
    using binary64_eval [of "- 7" "1 / 100" "5764607523034235"] by (simp add: roundEven_def)

  have limits_step_5: "binary64 (3602879701896397 / 4503599627370496) = Fin (3602879701896397 / 4503599627370496)"
    using binary64_eval [of "- 1" "3602879701896397 / 4503599627370496" "7205759403792794"] by (simp add: roundEven_def)

  have limits_step_6: "binary64 (3 / 10) = Fin (5404319552844595 / 18014398509481984)"
    using binary64_eval [of "- 2" "3 / 10" "5404319552844595"] by (simp add: roundEven_def)

  have limits_step_7: "binary64 (32451855365842669675915850477295 / 81129638414606681695789005144064) = Fin (7205759403792793 / 18014398509481984)"
    using binary64_eval [of "- 2" "32451855365842669675915850477295 / 81129638414606681695789005144064" "7205759403792793"] by (simp add: roundEven_def)
  note steps = limits_step_1 limits_step_2 limits_step_3 limits_step_4 limits_step_5 limits_step_6 limits_step_7
  show ?thesis
    unfolding zoomLimits64_def Let_def
    by (simp add: steps validDimension_def)
qed

text \<open>
  Claim C1 as stated fails: a \<open>small\<close> hexagon (radius 15) in a 40 by 40 container has
  \<open>min = 0.4\<close>, \<open>max = 16/15\<close> and \<open>initial = 0.32\<close>, so \<open>initial < min\<close>.
\<close>

theorem zoomLimits_min_le_initial_counterexample:
  "zoomLimits (Fin 15) (Fin 40) (Fin 40)
     = \<lparr>zl_min = Fin (2 / 5), zl_max = Fin (16 / 15), zl_initial = Fin (8 / 25)\<rparr> \<and>
   \<not> zl_min (zoomLimits (Fin 15) (Fin 40) (Fin 40)) \<le> zl_initial (zoomLimits (Fin 15) (Fin 40) (Fin 40))"
  by (simp add: zoomLimits_def validDimension_def Let_def)

section \<open>Honeycomb layout: cells, spacing and degenerate containers\<close>

lemma js_mod_nat: "0 < c \<Longrightarrow> js_mod (Fin (real i)) (Fin (real c)) = Fin (real (i mod c))"
proof -
  assume c: "0 < c"
  have "\<lfloor>real i / real c\<rfloor> = int (i div c)" by (simp add: floor_divide_of_nat_eq)
  moreover have "real i - real c * real (i div c) = real (i mod c)"
    by (metis add_diff_cancel_left' mult_div_mod_eq of_nat_add of_nat_mult)
  ultimately show ?thesis using c by (simp add: trunc_def)
qed

lemma floor_div_nat: "0 < c \<Longrightarrow> Math_floor (Fin (real i) / Fin (real c)) = Fin (real (i div c))"
  by (simp add: floor_divide_of_nat_eq)

lemma js_mod_two: "js_mod (Fin (real k)) (Fin 2) = Fin 1 \<longleftrightarrow> odd k"
  using js_mod_nat [of 2 k] by (auto simp: odd_iff_mod_2_eq_one)


lemma cols_positive:
  fixes w h :: real
  assumes "0 < n" "0 < w" "0 < h"
  shows "0 < nat \<lceil>sqrt (real n * (w / h))\<rceil>"
proof -
  from assms have "0 < real n * (w / h)" by simp
  then have "0 < sqrt (real n * (w / h))" by simp
  then show ?thesis by simp
qed

lemma cols_Fin:
  fixes w h :: real
  assumes "0 < n" "0 < w" "0 < h"
  shows "Math_ceil (Math_sqrt (Fin (real n) * (Fin w / Fin h)))
           = Fin (real (nat \<lceil>sqrt (real n * (w / h))\<rceil>))"
proof -
  from assms have pos: "0 < real n * (w / h)" by simp
  then have "0 < sqrt (real n * (w / h))" by simp
  then have "- 1 < sqrt (real n * (w / h))" by linarith
  then have "0 \<le> \<lceil>sqrt (real n * (w / h))\<rceil>" by (simp only: zero_le_ceiling)
  then have "real_of_int \<lceil>sqrt (real n * (w / h))\<rceil> = real (nat \<lceil>sqrt (real n * (w / h))\<rceil>)"
    by simp
  moreover from assms have "\<not> real n * w / h < 0" by (simp add: not_less)
  ultimately show ?thesis using assms by simp
qed

lemma calculateHexCoords_finite:
  fixes w h r :: real and items :: "'a list"
  assumes "items \<noteq> []" "0 < w" "w \<le> 5000" "0 < h" "h \<le> 5000"
  defines "c \<equiv> nat \<lceil>sqrt (real (length items) * (w / h))\<rceil>"
  defines "sx \<equiv> (w - ((real c - 1) * (r * sqrt 3) + r * sqrt 3 / 2)) / 2"
  defines "sy \<equiv> (h - (real_of_int \<lceil>real (length items) / real c\<rceil> - 1) * (r * 2 * 0.75)) / 2"
  shows "calculateHexCoords items (Fin w) (Fin h) (Fin r) =
     map (\<lambda>(i, item).
        \<lparr>hc_q = Fin (real (i mod c)),
         hc_r = Fin (real (i div c)),
         hc_x = Fin (sx + real (i mod c) * (r * sqrt 3) + (if odd (i div c) then r * sqrt 3 / 2 else 0)),
         hc_y = Fin (sy + real (i div c) * (r * 2 * 0.75)),
         hc_data = item\<rparr>) (enumerate 0 items)"
proof -
  from assms(1) have n: "0 < length items" by simp
  have c: "0 < c" unfolding c_def using cols_positive [OF n assms(2,4)] .
  have cols: "Math_ceil (Math_sqrt (Fin (real (length items)) * (Fin w / Fin h))) = Fin (real c)"
    unfolding c_def using cols_Fin [OF n assms(2,4)] .
  show ?thesis
    unfolding calculateHexCoords_def Let_def
    apply (simp only: validDimension_pos [OF assms(2)] validDimension_pos [OF assms(4)] cols
        js_mod_nat [OF c] floor_div_nat [OF c] js_mod_two)
    using assms(2-5) c
    apply (simp add: case_prod_beta sx_def sy_def)
    done
qed


lemma calculateHexCoords_nth:
  fixes w h r :: real and items :: "'a list"
  assumes "i < length items" "0 < w" "w \<le> 5000" "0 < h" "h \<le> 5000"
  defines "c \<equiv> nat \<lceil>sqrt (real (length items) * (w / h))\<rceil>"
  defines "sx \<equiv> (w - ((real c - 1) * (r * sqrt 3) + r * sqrt 3 / 2)) / 2"
  defines "sy \<equiv> (h - (real_of_int \<lceil>real (length items) / real c\<rceil> - 1) * (r * 2 * 0.75)) / 2"
  shows "calculateHexCoords items (Fin w) (Fin h) (Fin r) ! i =
        \<lparr>hc_q = Fin (real (i mod c)),
         hc_r = Fin (real (i div c)),
         hc_x = Fin (sx + real (i mod c) * (r * sqrt 3) + (if odd (i div c) then r * sqrt 3 / 2 else 0)),
         hc_y = Fin (sy + real (i div c) * (r * 2 * 0.75)),
         hc_data = items ! i\<rparr>"
proof -
  from assms(1) have "items \<noteq> []" by auto
  from calculateHexCoords_finite [OF this assms(2-5), of r] assms(1)
  show ?thesis by (simp add: c_def sx_def sy_def nth_enumerate_eq)
qed

lemma length_calculateHexCoords:
  "length (calculateHexCoords items w h r) =
     (if Fin 5000 < validDimension w (Fin 800) \<or> Fin 5000 < validDimension h (Fin 600) then 0
      else length items)"
  by (simp add: calculateHexCoords_def Let_def)

lemma same_row_distinct_columns:
  fixes i j c :: nat
  assumes "i \<noteq> j" "i div c = j div c"
  shows "1 \<le> \<bar>real (i mod c) - real (j mod c)\<bar>"
proof -
  have "i mod c \<noteq> j mod c"
  proof
    assume "i mod c = j mod c"
    with assms(2) have "i = j" by (metis div_mult_mod_eq)
    with assms(1) show False by simp
  qed
  then have "1 \<le> \<bar>int (i mod c) - int (j mod c)\<bar>" by linarith
  then have "real_of_int 1 \<le> real_of_int \<bar>int (i mod c) - int (j mod c)\<bar>"
    by (simp only: of_int_le_iff)
  then show ?thesis by simp
qed

text \<open>
  On doubles as in exact arithmetic the layout is a \<open>map\<close> over the items, and the guard
  on \<open>NaN\<close> and \<open>Infinity\<close> leaves every cell with finite coordinates.
\<close>

lemma length_calculateHexCoords64:
  "length (calculateHexCoords64 items w h r) =
     (if Fin 5000 < validDimension w (Fin 800) \<or> Fin 5000 < validDimension h (Fin 600) then 0
      else length items)"
  by (simp add: calculateHexCoords64_def Let_def)

lemma calculateHexCoords64_cell:
  assumes "i < length (calculateHexCoords64 items w h r)"
  shows "isFinite (hc_x (calculateHexCoords64 items w h r ! i)) \<and>
         isFinite (hc_y (calculateHexCoords64 items w h r ! i)) \<and>
         hc_data (calculateHexCoords64 items w h r ! i) = items ! i"
proof -
  from assms have i: "i < length items"
    by (simp add: length_calculateHexCoords64 split: if_splits)
  from assms have ok: "\<not> (Fin 5000 < validDimension w (Fin 800) \<or> Fin 5000 < validDimension h (Fin 600))"
    by (auto simp: length_calculateHexCoords64 split: if_splits)
  show ?thesis
    unfolding calculateHexCoords64_def Let_def
    using i ok by (simp add: nth_enumerate_eq del: rnd.simps)
qed

text \<open>
  The two layouts need not have the same number of columns: for 54 items in a 500 by 120
  container the sixteenth item is in column 15 on doubles and opens the second row in
  exact arithmetic.
\<close>

lemma calculateHexCoords64_columns:
  assumes "length items = 54"
  shows "hc_q (calculateHexCoords64 items (Fin 500) (Fin 120) r ! 15) = Fin 15 \<and>
         hc_q (calculateHexCoords items (Fin 500) (Fin 120) r ! 15) = Fin 0"
proof -
  have ratio: "binary64 (25 / 6) = Fin (4691249611844267 / 1125899906842624)"
    using binary64_eval [of 2 "25 / 6" 4691249611844267] by (simp add: roundEven_def)
  have product: "binary64 (126663739519795209 / 562949953421312)
      = Fin (7916483719987201 / 35184372088832)"
    using binary64_eval [of 7 "126663739519795209 / 562949953421312" 7916483719987201]
    by (simp add: roundEven_def)
  have root: "binary64 (sqrt (7916483719987201 / 35184372088832))
      = Fin (8444249301319681 / 562949953421312)"
    using binary64_sqrt_between [of "16888498602639361 / 1125899906842624"
        "7916483719987201 / 35184372088832" "16888498602639363 / 1125899906842624" 3
        8444249301319681]
    by (simp add: power2_eq_square)
  have i: "15 < length items" using assms by simp
  have dims: "validDimension (Fin 500) (Fin 800) = Fin 500"
    "validDimension (Fin 120) (Fin 600) = Fin 120"
    by simp_all
  have cols64: "Math_ceil (rnd (Math_sqrt (rnd (Fin (real (length items)) * rnd (Fin 500 / Fin 120)))))
      = Fin 16"
    by (simp add: assms ratio product root)
  have cols: "Math_ceil (Math_sqrt (Fin (real (length items)) * (Fin 500 / Fin 120))) = Fin 15"
    using assms by simp
  have first: "hc_q (calculateHexCoords64 items (Fin 500) (Fin 120) r ! 15) = Fin 15"
    unfolding calculateHexCoords64_def Let_def
    apply (simp only: dims cols64)
    using i apply (simp add: nth_enumerate_eq trunc_def del: rnd.simps)
    done
  have second: "hc_q (calculateHexCoords items (Fin 500) (Fin 120) r ! 15) = Fin 0"
    unfolding calculateHexCoords_def Let_def
    apply (simp only: dims cols)
    using i apply (simp add: nth_enumerate_eq trunc_def)
    done
  from first second show ?thesis by blast
qed

text \<open>
  The layout on doubles, quantity by quantity, for at most a million items, a container of
  1 to 5000 pixels each way and a radius of at most 1000 pixels. The row index
  \<open>Math.floor(index / cols)\<close> is the integer quotient also after the rounding of the
  division.
\<close>

lemma row_exact:
  fixes i C :: nat
  assumes "0 < C" "C \<le> 1000000" "i \<le> 1000000"
  shows "Math_floor (rnd (Fin (real i) / Fin (real C))) = Fin (real (i div C))"
proof (cases "i = 0")
  case True
  with assms(1) show ?thesis by simp
next
  case False
  define x where "x = real i / real C"
  define k where "k = i div C"
  define e where "e = binade x"
  have xpos: "0 < x" using False assms(1) by (simp add: x_def)
  then have x0: "x \<noteq> 0" by simp
  have x_hi: "x \<le> 1000000"
  proof -
    have "real i / real C \<le> real i / 1" using assms(1) by (intro divide_left_mono) simp_all
    with assms(3) show ?thesis by (simp add: x_def)
  qed
  have x_lo: "1 / 1000000 \<le> x"
  proof -
    have "1 / 1000000 \<le> 1 / real C" using assms(1,2) by (intro divide_left_mono) simp_all
    also have "\<dots> \<le> real i / real C" using False assms(1) by (intro divide_right_mono) simp_all
    finally show ?thesis by (simp add: x_def)
  qed
  have "\<bar>x\<bar> \<le> 2 ^ 60" using x_hi xpos by simp
  from binary64_abs_error [OF this] obtain y where y: "binary64 x = Fin y" by blast
  have e_hi: "e \<le> 19"
  proof -
    have "\<bar>x\<bar> < 2 powi (19 + 1)" using x_hi xpos by simp
    from binade_le [OF x0 this] show ?thesis by (simp add: e_def)
  qed
  have e_lo: "- 1022 < e"
  proof (rule ccontr)
    assume "\<not> - 1022 < e"
    with binade_bounds(3) [OF x0] have "e = - 1022" by (simp add: e_def)
    with binade_bounds(1) [OF x0] have "\<bar>x\<bar> < 2 powi (- 1021)" by (simp add: e_def)
    moreover have "(2::real) powi (- 1021) \<le> 2 powi (- 20)"
      by (intro power_int_increasing) simp_all
    moreover have "(2::real) powi (- 20) \<le> 1 / 1000000" by (simp add: power_int_minus field_simps)
    ultimately show False using x_lo by linarith
  qed
  have normal: "2 powi e \<le> x"
    using binade_bounds(2) [OF x0] e_lo xpos by (simp add: e_def)
  define Ni :: int where "Ni = 2 ^ nat (52 - e)"
  define N :: real where "N = of_int Ni"
  have Npos: "0 < N" by (simp add: N_def Ni_def)
  have N: "N = 2 powi (52 - e)" using e_hi by (simp add: N_def Ni_def power_int_def)
  have ulp: "2 powi (e - 52) = 1 / N"
  proof -
    have "(2::real) powi (e - 52) = 2 powi (- (52 - e))" by simp
    also have "\<dots> = inverse (2 powi (52 - e))" by (rule power_int_minus)
    finally show ?thesis by (simp add: N inverse_eq_divide)
  qed
  define M where "M = roundEven (x * N)"
  have yM: "y = of_int M / N"
    using binary64_finite_value [OF y] by (simp add: e_def [symmetric] ulp M_def)
  have ik: "real i = real k * real C + real (i mod C)"
    unfolding k_def by (metis mult.commute of_nat_add of_nat_mult div_mult_mod_eq)
  have Cpos: "0 < real C" using assms(1) by simp
  have x_ge: "real k \<le> x"
  proof -
    have "real k * real C \<le> real i" using ik by simp
    then show ?thesis using Cpos by (simp add: x_def pos_le_divide_eq)
  qed
  have x_le: "x \<le> real k + 1 - 1 / real C"
  proof -
    from assms(1) have "i mod C < C" by simp
    then have "real (i mod C) \<le> real C - 1" by linarith
    with ik have "real i \<le> (real k + 1) * real C - 1" by (simp add: algebra_simps)
    then have "real i / real C \<le> ((real k + 1) * real C - 1) / real C"
      using Cpos by (simp add: divide_right_mono)
    also have "\<dots> = real k + 1 - 1 / real C" using Cpos by (simp add: field_simps)
    finally show ?thesis by (simp add: x_def)
  qed
  have CN: "real C \<le> N"
  proof -
    have "real C * 2 powi e \<le> real C * x" using normal Cpos by (intro mult_left_mono) simp_all
    also have "\<dots> = real i" using Cpos by (simp add: x_def)
    also have "\<dots> \<le> 2 powi 52" using assms(3) by simp
    finally have "real C * 2 powi e \<le> 2 powi 52" .
    then have "real C \<le> 2 powi 52 / 2 powi e" by (simp add: pos_le_divide_eq)
    also have "\<dots> = 2 powi (52 - e)" by (rule power_int_diff [symmetric]) simp
    finally show ?thesis by (simp add: N)
  qed
  have lower: "real k \<le> y"
  proof -
    have "real k * N \<le> x * N" using x_ge Npos by (intro mult_right_mono) simp_all
    then have "of_int (int k * Ni) \<le> x * N" by (simp add: N_def)
    then have "int k * Ni \<le> M" unfolding M_def by (rule roundEven_ge)
    then have "real_of_int (int k * Ni) \<le> real_of_int M" by (simp only: of_int_le_iff)
    then have "real k * N \<le> of_int M" by (simp add: N_def)
    then show ?thesis using Npos by (simp add: yM pos_le_divide_eq)
  qed
  have upper: "y < real k + 1"
  proof -
    have "x * N \<le> (real k + 1 - 1 / real C) * N" using x_le Npos by (intro mult_right_mono) simp_all
    also have "\<dots> = (real k + 1) * N - N / real C" by (simp add: algebra_simps)
    also have "\<dots> \<le> (real k + 1) * N - 1"
    proof -
      have "1 \<le> N / real C" using CN Cpos by (simp add: pos_le_divide_eq)
      then show ?thesis by linarith
    qed
    finally have "x * N \<le> of_int ((int k + 1) * Ni - 1)" by (simp add: N_def)
    then have "M \<le> (int k + 1) * Ni - 1" unfolding M_def by (rule roundEven_le)
    then have "real_of_int M \<le> real_of_int ((int k + 1) * Ni - 1)" by (simp only: of_int_le_iff)
    then have "of_int M \<le> (real k + 1) * N - 1" by (simp add: N_def)
    then have "of_int M < (real k + 1) * N" by linarith
    then show ?thesis using Npos by (simp add: yM pos_divide_less_eq)
  qed
  have "\<lfloor>y\<rfloor> = int k"
    by (rule floor_unique) (use lower upper in simp_all)
  then have "Math_floor (Fin y) = Fin (real k)" by simp
  moreover have "rnd (Fin (real i) / Fin (real C)) = Fin y"
    using y assms(1) by (simp add: x_def)
  ultimately show ?thesis by (simp add: k_def)
qed

text \<open>
  The cell width \<open>size * Math.sqrt(3)\<close>, the number of columns, the offset of the odd rows
  and the left margin \<open>startX\<close>: each is a finite double within the bound given.
\<close>

lemma hexWidth64:
  assumes "0 < r" "r \<le> 1000"
  shows "\<exists>hs. rnd (Fin r * rnd (Math_sqrt (Fin 3))) = Fin hs \<and> \<bar>hs\<bar> \<le> 1733 \<and>
              \<bar>hs - r * sqrt 3\<bar> \<le> 1 / 2 ^ 40"
proof -
  define s where "s = (3900231685776981 / 2251799813685248 :: real)"
  have lo: "(15600926743107923 / 9007199254740992) < sqrt 3"
    by (rule real_less_rsqrt) (simp add: power2_eq_square)
  have hi: "sqrt 3 < (15600926743107925 / 9007199254740992)"
    by (rule real_less_lsqrt) (simp_all add: power2_eq_square)
  have s: "\<bar>s - sqrt 3\<bar> \<le> 1 / 4503599627370496" "0 \<le> s" "s \<le> 17321 / 10000"
    using lo hi unfolding s_def by argo+
  have "\<bar>r * s\<bar> \<le> 2 ^ 60"
  proof -
    have "r * s \<le> 1000 * (17321 / 10000)" using assms s by (intro mult_mono) simp_all
    moreover have "0 \<le> r * s" using assms s by simp
    ultimately show ?thesis by simp
  qed
  from binary64_abs_error [OF this] obtain hs where hs: "binary64 (r * s) = Fin hs"
    "\<bar>hs - r * s\<bar> \<le> \<bar>r * s\<bar> / 2 ^ 53 + 1 / 2 ^ 100" by blast
  have rs: "0 \<le> r * s" "r * s \<le> 17321 / 10"
  proof -
    show "0 \<le> r * s" using assms s by simp
    have "r * s \<le> 1000 * (17321 / 10000)" using assms s by (intro mult_mono) simp_all
    then show "r * s \<le> 17321 / 10" by simp
  qed
  have "\<bar>r * s - r * sqrt 3\<bar> = r * \<bar>s - sqrt 3\<bar>"
    using assms by (simp add: abs_mult flip: right_diff_distrib)
  also have "\<dots> \<le> 1000 * (1 / 4503599627370496)" using assms s by (intro mult_mono) simp_all
  finally have d: "\<bar>r * s - r * sqrt 3\<bar> \<le> 1000 / 2 ^ 52" by simp
  have pow: "(2::real) ^ 53 = 9007199254740992" "(2::real) ^ 52 = 4503599627370496"
    "(2::real) ^ 40 = 1099511627776" "(2::real) ^ 100 = 1267650600228229401496703205376"
    by simp_all
  have result: "rnd (Fin r * rnd (Math_sqrt (Fin 3))) = Fin hs"
    using hs(1) by (simp add: binary64_sqrt_3 s_def)
  define a where "a = r * s"
  define b where "b = r * sqrt 3"
  have "\<bar>hs\<bar> \<le> 1733 \<and> \<bar>hs - b\<bar> \<le> 1 / 2 ^ 40"
    using hs(2) rs d unfolding pow a_def [symmetric] b_def [symmetric] by argo
  then have "\<bar>hs\<bar> \<le> 1733 \<and> \<bar>hs - r * sqrt 3\<bar> \<le> 1 / 2 ^ 40"
    unfolding b_def .
  with result show ?thesis by blast
qed

lemma columns64:
  fixes w h :: real and n :: nat
  assumes "0 < n" "n \<le> 1000000" "1 \<le> w" "w \<le> 5000" "1 \<le> h" "h \<le> 5000"
  shows "\<exists>C::nat. 0 < C \<and> C \<le> 70726 \<and>
       Math_ceil (rnd (Math_sqrt (rnd (Fin (real n) * rnd (Fin w / Fin h))))) = Fin (real C)"
proof -
  have pow: "(2::real) ^ 53 = 9007199254740992" "(2::real) ^ 40 = 1099511627776"
    "(2::real) ^ 100 = 1267650600228229401496703205376"
    by simp_all
  define q where "q = w / h"
  have q: "1 / 5000 \<le> q" "q \<le> 5000"
  proof -
    have "1 / 5000 \<le> 1 / h" using assms by (intro divide_left_mono) simp_all
    also have "\<dots> \<le> w / h" using assms by (intro divide_right_mono) simp_all
    finally show "1 / 5000 \<le> q" unfolding q_def .
    have "w / h \<le> 5000 / h" using assms by (intro divide_right_mono) simp_all
    also have "\<dots> \<le> 5000 / 1" using assms by (intro divide_left_mono) simp_all
    finally show "q \<le> 5000" unfolding q_def by simp
  qed
  then have "\<bar>q\<bar> \<le> 5000" by linarith
  from binary64_step [OF this] obtain ar where ar: "binary64 q = Fin ar"
    "\<bar>ar - q\<bar> \<le> 5000 / 2 ^ 53 + 1 / 2 ^ 100" by auto
  have ar_bounds: "1 / 5001 \<le> ar" "ar \<le> 5001" using ar(2) q unfolding pow by argo+
  define p where "p = real n * ar"
  have p: "1 / 5001 \<le> p" "p \<le> 5001000000"
  proof -
    have "1 * (1 / 5001) \<le> real n * ar" using assms(1) ar_bounds by (intro mult_mono) simp_all
    then show "1 / 5001 \<le> p" unfolding p_def by simp
    have "real n * ar \<le> 1000000 * 5001" using assms(2) ar_bounds by (intro mult_mono) simp_all
    then show "p \<le> 5001000000" unfolding p_def by simp
  qed
  then have "\<bar>p\<bar> \<le> 5001000000" by linarith
  from binary64_step [OF this] obtain P where P: "binary64 p = Fin P"
    "\<bar>P - p\<bar> \<le> 5001000000 / 2 ^ 53 + 1 / 2 ^ 100" by auto
  have P_bounds: "1 / 5020 \<le> P" "P \<le> 5002000000" using P(2) p unfolding pow by argo+
  have root: "1 / 71 \<le> sqrt P" "sqrt P \<le> 70725"
  proof -
    have "(1 / 71)\<^sup>2 \<le> P" using P_bounds(1) by (simp add: power2_eq_square)
    then show "1 / 71 \<le> sqrt P" by (rule real_le_rsqrt)
    have "P \<le> 70725\<^sup>2" using P_bounds(2) by (simp add: power2_eq_square)
    then show "sqrt P \<le> 70725" by (intro real_le_lsqrt) (use P_bounds in simp_all)
  qed
  then have "\<bar>sqrt P\<bar> \<le> 70725" by linarith
  from binary64_step [OF this] obtain Q where Q: "binary64 (sqrt P) = Fin Q"
    "\<bar>Q - sqrt P\<bar> \<le> 70725 / 2 ^ 53 + 1 / 2 ^ 100" by auto
  define sp where "sp = sqrt P"
  have Q_bounds: "1 / 72 \<le> Q" "Q \<le> 70726"
    using Q(2) root unfolding pow sp_def [symmetric] by argo+
  define C where "C = nat \<lceil>Q\<rceil>"
  have "0 < \<lceil>Q\<rceil>" using Q_bounds(1) by (simp add: less_ceiling_iff)
  moreover have "\<lceil>Q\<rceil> \<le> 70726" using Q_bounds(2) by (simp add: ceiling_le_iff)
  ultimately have C: "0 < C" "C \<le> 70726" "real_of_int \<lceil>Q\<rceil> = real C"
    unfolding C_def by simp_all
  have "\<not> P < 0" using P_bounds(1) by linarith
  then have "Math_ceil (rnd (Math_sqrt (rnd (Fin (real n) * rnd (Fin w / Fin h))))) = Fin (real C)"
    using assms(5) ar(1) P(1) Q(1) C(3) by (simp add: q_def p_def)
  with C(1,2) show ?thesis by blast
qed

lemma startX64:
  fixes hs w :: real and C :: nat
  assumes "\<bar>hs\<bar> \<le> 1733" "C \<le> 70726" "1 \<le> w" "w \<le> 5000"
  shows "\<exists>ro sx. rnd (Fin hs / Fin 2) = Fin ro \<and> \<bar>ro\<bar> \<le> 867 \<and>
           rnd (rnd (Fin w - rnd (rnd (rnd (Fin (real C) - Fin 1) * Fin hs) + Fin ro)) / Fin 2)
             = Fin sx \<and> \<bar>sx\<bar> \<le> 63000000"
proof -
  have pow: "(2::real) ^ 53 = 9007199254740992" "(2::real) ^ 40 = 1099511627776"
    "(2::real) ^ 100 = 1267650600228229401496703205376"
    by simp_all
  have "\<bar>hs / 2\<bar> \<le> 867" using assms(1) by simp
  from binary64_step [OF this] obtain ro where ro: "binary64 (hs / 2) = Fin ro"
    "\<bar>ro - hs / 2\<bar> \<le> 867 / 2 ^ 53 + 1 / 2 ^ 100" by auto
  have ro_b: "\<bar>ro\<bar> \<le> 867" using ro(2) assms(1) unfolding pow by argo
  have "\<bar>real C - 1\<bar> \<le> 70726" using assms(2) by linarith
  from binary64_step [OF this] obtain c1 where c1: "binary64 (real C - 1) = Fin c1"
    "\<bar>c1 - (real C - 1)\<bar> \<le> 70726 / 2 ^ 53 + 1 / 2 ^ 100" by auto
  have c1_b: "\<bar>c1\<bar> \<le> 70727" using c1(2) \<open>\<bar>real C - 1\<bar> \<le> 70726\<close> unfolding pow by argo
  have "\<bar>c1 * hs\<bar> \<le> 70727 * 1733"
    unfolding abs_mult using c1_b assms(1) by (intro mult_mono) simp_all
  then have "\<bar>c1 * hs\<bar> \<le> 122569891" by simp
  from binary64_step [OF this] obtain t1 where t1: "binary64 (c1 * hs) = Fin t1"
    "\<bar>t1 - c1 * hs\<bar> \<le> 122569891 / 2 ^ 53 + 1 / 2 ^ 100" by auto
  define p1 where "p1 = c1 * hs"
  have t1_b: "\<bar>t1\<bar> \<le> 122569892"
    using t1(2) \<open>\<bar>c1 * hs\<bar> \<le> 122569891\<close> unfolding pow p1_def [symmetric] by argo
  have "\<bar>t1 + ro\<bar> \<le> 122570759" using t1_b ro_b by linarith
  from binary64_step [OF this] obtain tw where tw: "binary64 (t1 + ro) = Fin tw"
    "\<bar>tw - (t1 + ro)\<bar> \<le> 122570759 / 2 ^ 53 + 1 / 2 ^ 100" by auto
  have tw_b: "\<bar>tw\<bar> \<le> 122570760"
    using tw(2) \<open>\<bar>t1 + ro\<bar> \<le> 122570759\<close> unfolding pow by argo
  have "\<bar>w - tw\<bar> \<le> 122575760" using tw_b assms(3,4) by linarith
  from binary64_step [OF this] obtain wt where wt: "binary64 (w - tw) = Fin wt"
    "\<bar>wt - (w - tw)\<bar> \<le> 122575760 / 2 ^ 53 + 1 / 2 ^ 100" by auto
  have wt_b: "\<bar>wt\<bar> \<le> 122575761"
    using wt(2) \<open>\<bar>w - tw\<bar> \<le> 122575760\<close> unfolding pow by argo
  have "\<bar>wt / 2\<bar> \<le> 61287881" using wt_b by simp
  from binary64_step [OF this] obtain sx where sx: "binary64 (wt / 2) = Fin sx"
    "\<bar>sx - wt / 2\<bar> \<le> 61287881 / 2 ^ 53 + 1 / 2 ^ 100" by auto
  have sx_b: "\<bar>sx\<bar> \<le> 63000000"
    using sx(2) \<open>\<bar>wt / 2\<bar> \<le> 61287881\<close> unfolding pow by argo
  have "rnd (Fin hs / Fin 2) = Fin ro" using ro(1) by simp
  moreover have "rnd (rnd (Fin w - rnd (rnd (rnd (Fin (real C) - Fin 1) * Fin hs) + Fin ro)) / Fin 2)
      = Fin sx"
    using c1(1) t1(1) tw(1) wt(1) sx(1) by simp
  ultimately show ?thesis using ro_b sx_b by blast
qed

text \<open>
  The \<open>x\<close> of a cell passes three roundings of numbers below \<open>2 ^ 28\<close>; it differs from
  \<open>startX + col * horizontalSpacing + hexOffsetX\<close> by at most \<open>2 ^ (-23)\<close>.
\<close>

lemma xCoordinate64:
  fixes sx hs off :: real and c :: nat
  assumes "\<bar>sx\<bar> \<le> 63000000" "\<bar>hs\<bar> \<le> 1733" "c \<le> 70726" "\<bar>off\<bar> \<le> 867"
  shows "\<exists>x. rnd (rnd (Fin sx + rnd (Fin (real c) * Fin hs)) + Fin off) = Fin x \<and>
             \<bar>x - (sx + real c * hs + off)\<bar> \<le> 1 / 2 ^ 23"
proof -
  have pow: "(2::real) ^ 53 = 9007199254740992" "(2::real) ^ 40 = 1099511627776"
    "(2::real) ^ 100 = 1267650600228229401496703205376" "(2::real) ^ 23 = 8388608"
    by simp_all
  define p where "p = real c * hs"
  have "\<bar>real c * hs\<bar> \<le> 70726 * 1733"
    unfolding abs_mult using assms(2,3) by (intro mult_mono) simp_all
  then have p: "\<bar>p\<bar> \<le> 122568158" by (simp add: p_def)
  from binary64_step [OF this] obtain a where a: "binary64 p = Fin a"
    "\<bar>a - p\<bar> \<le> 122568158 / 2 ^ 53 + 1 / 2 ^ 100" by auto
  have a_b: "\<bar>a\<bar> \<le> 122568159" using a(2) p unfolding pow by argo
  have "\<bar>sx + a\<bar> \<le> 185568159" using a_b assms(1) by linarith
  from binary64_step [OF this] obtain b where b: "binary64 (sx + a) = Fin b"
    "\<bar>b - (sx + a)\<bar> \<le> 185568159 / 2 ^ 53 + 1 / 2 ^ 100" by auto
  have b_b: "\<bar>b\<bar> \<le> 185568160" using b(2) \<open>\<bar>sx + a\<bar> \<le> 185568159\<close> unfolding pow by argo
  have "\<bar>b + off\<bar> \<le> 185569027" using b_b assms(4) by linarith
  from binary64_step [OF this] obtain x where x: "binary64 (b + off) = Fin x"
    "\<bar>x - (b + off)\<bar> \<le> 185569027 / 2 ^ 53 + 1 / 2 ^ 100" by auto
  have "\<bar>x - (sx + p + off)\<bar> \<le> 1 / 2 ^ 23"
    using a(2) b(2) x(2) unfolding pow by argo
  moreover have "rnd (rnd (Fin sx + rnd (Fin (real c) * Fin hs)) + Fin off) = Fin x"
    using a(1) b(1) x(1) by (simp add: p_def)
  ultimately show ?thesis unfolding p_def by blast
qed

text \<open>
  The same for the vertical spacing, the top margin \<open>startY\<close> and the \<open>y\<close> of a cell,
  which differs from \<open>startY + row * verticalSpacing\<close> by at most \<open>2 ^ (-21)\<close>.
\<close>

lemma verticalSpacing64:
  fixes r :: real
  assumes "0 < r" "r \<le> 1000"
  shows "\<exists>vs. rnd (rnd (Fin r * Fin 2) * Fin 0.75) = Fin vs \<and> \<bar>vs\<bar> \<le> 1502 \<and>
              \<bar>vs - 0.75 * (2 * r)\<bar> \<le> 1 / 2 ^ 40"
proof -
  have pow: "(2::real) ^ 53 = 9007199254740992" "(2::real) ^ 40 = 1099511627776"
    "(2::real) ^ 100 = 1267650600228229401496703205376"
    by simp_all
  have "\<bar>r * 2\<bar> \<le> 2000" using assms by simp
  from binary64_step [OF this] obtain hh where hh: "binary64 (r * 2) = Fin hh"
    "\<bar>hh - r * 2\<bar> \<le> 2000 / 2 ^ 53 + 1 / 2 ^ 100" by auto
  have hh_b: "\<bar>hh\<bar> \<le> 2001" using hh(2) assms unfolding pow by argo
  have "\<bar>hh * (3 / 4)\<bar> \<le> 1501" using hh_b by simp
  from binary64_step [OF this] obtain vs where vs: "binary64 (hh * (3 / 4)) = Fin vs"
    "\<bar>vs - hh * (3 / 4)\<bar> \<le> 1501 / 2 ^ 53 + 1 / 2 ^ 100" by auto
  have "\<bar>vs\<bar> \<le> 1502 \<and> \<bar>vs - 3 / 4 * (2 * r)\<bar> \<le> 1 / 2 ^ 40"
    using vs(2) hh(2) hh_b unfolding pow by argo
  moreover have "rnd (rnd (Fin r * Fin 2) * Fin 0.75) = Fin vs"
    using hh(1) vs(1) by simp
  ultimately show ?thesis by auto
qed

lemma startY64:
  fixes vs h :: real and n C :: nat
  assumes "\<bar>vs\<bar> \<le> 1502" "0 < C" "n \<le> 1000000" "1 \<le> h" "h \<le> 5000"
  shows "\<exists>sy. rnd (Fin 0 + rnd (rnd (rnd (Fin h - Fin 0)
                 - rnd (rnd (Math_ceil (rnd (Fin (real n) / Fin (real C))) - Fin 1) * Fin vs))
                 / Fin 2)) = Fin sy \<and> \<bar>sy\<bar> \<le> 752000000"
proof -
  have pow: "(2::real) ^ 53 = 9007199254740992" "(2::real) ^ 40 = 1099511627776"
    "(2::real) ^ 100 = 1267650600228229401496703205376"
    by simp_all
  define q where "q = real n / real C"
  have q: "0 \<le> q" "q \<le> 1000000"
  proof -
    show "0 \<le> q" by (simp add: q_def)
    have "real n / real C \<le> real n / 1" using assms(2) by (intro divide_left_mono) simp_all
    with assms(3) show "q \<le> 1000000" by (simp add: q_def)
  qed
  then have "\<bar>q\<bar> \<le> 1000000" by linarith
  from binary64_step [OF this] obtain nC where nC: "binary64 q = Fin nC"
    "\<bar>nC - q\<bar> \<le> 1000000 / 2 ^ 53 + 1 / 2 ^ 100" by auto
  have nC_b: "- 1 \<le> nC" "nC \<le> 1000001" using nC(2) q unfolding pow by argo+
  define R where "R = \<lceil>nC\<rceil>"
  have R: "- 1 \<le> R" "R \<le> 1000001"
    using nC_b unfolding R_def by (simp_all add: ceiling_le_iff le_ceiling_iff)
  then have "\<bar>real_of_int R - 1\<bar> \<le> 1000002" by simp
  from binary64_step [OF this] obtain r1 where r1: "binary64 (real_of_int R - 1) = Fin r1"
    "\<bar>r1 - (real_of_int R - 1)\<bar> \<le> 1000002 / 2 ^ 53 + 1 / 2 ^ 100" by auto
  define R1 where "R1 = real_of_int R - 1"
  have "\<bar>R1\<bar> \<le> 1000002" using R by (simp add: R1_def)
  then have r1_b: "\<bar>r1\<bar> \<le> 1000003" using r1(2) unfolding pow R1_def [symmetric] by argo
  have "\<bar>r1 * vs\<bar> \<le> 1000003 * 1502"
    unfolding abs_mult using r1_b assms(1) by (intro mult_mono) simp_all
  then have p: "\<bar>r1 * vs\<bar> \<le> 1502004506" by simp
  from binary64_step [OF this] obtain th where th: "binary64 (r1 * vs) = Fin th"
    "\<bar>th - r1 * vs\<bar> \<le> 1502004506 / 2 ^ 53 + 1 / 2 ^ 100" by auto
  define p1 where "p1 = r1 * vs"
  have th_b: "\<bar>th\<bar> \<le> 1502004507" using th(2) p unfolding pow p1_def [symmetric] by argo
  have "\<bar>h\<bar> \<le> 5000" using assms(4,5) by linarith
  from binary64_step [OF this] obtain ah where ah: "binary64 h = Fin ah"
    "\<bar>ah - h\<bar> \<le> 5000 / 2 ^ 53 + 1 / 2 ^ 100" by auto
  have ah_b: "\<bar>ah\<bar> \<le> 5001" using ah(2) \<open>\<bar>h\<bar> \<le> 5000\<close> unfolding pow by argo
  have "\<bar>ah - th\<bar> \<le> 1502009508" using ah_b th_b by linarith
  from binary64_step [OF this] obtain d1 where d1: "binary64 (ah - th) = Fin d1"
    "\<bar>d1 - (ah - th)\<bar> \<le> 1502009508 / 2 ^ 53 + 1 / 2 ^ 100" by auto
  have d1_b: "\<bar>d1\<bar> \<le> 1502009509"
    using d1(2) \<open>\<bar>ah - th\<bar> \<le> 1502009508\<close> unfolding pow by argo
  have "\<bar>d1 / 2\<bar> \<le> 751004755" using d1_b by simp
  from binary64_step [OF this] obtain d2 where d2: "binary64 (d1 / 2) = Fin d2"
    "\<bar>d2 - d1 / 2\<bar> \<le> 751004755 / 2 ^ 53 + 1 / 2 ^ 100" by auto
  have d2_b: "\<bar>d2\<bar> \<le> 751004756"
    using d2(2) \<open>\<bar>d1 / 2\<bar> \<le> 751004755\<close> unfolding pow by argo
  from binary64_step [OF this] obtain sy where sy: "binary64 d2 = Fin sy"
    "\<bar>sy - d2\<bar> \<le> 751004756 / 2 ^ 53 + 1 / 2 ^ 100" by auto
  have sy_b: "\<bar>sy\<bar> \<le> 752000000" using sy(2) d2_b unfolding pow by argo
  have "rnd (Fin 0 + rnd (rnd (rnd (Fin h - Fin 0)
                 - rnd (rnd (Math_ceil (rnd (Fin (real n) / Fin (real C))) - Fin 1) * Fin vs))
                 / Fin 2)) = Fin sy"
    using assms(2) nC(1) r1(1) th(1) ah(1) d1(1) d2(1) sy(1) by (simp add: q_def R_def)
  with sy_b show ?thesis by blast
qed

lemma yCoordinate64:
  fixes sy vs :: real and k :: nat
  assumes "\<bar>sy\<bar> \<le> 752000000" "\<bar>vs\<bar> \<le> 1502" "k \<le> 1000000"
  shows "\<exists>y. rnd (Fin sy + rnd (Fin (real k) * Fin vs)) = Fin y \<and>
             \<bar>y - (sy + real k * vs)\<bar> \<le> 1 / 2 ^ 21"
proof -
  have pow: "(2::real) ^ 53 = 9007199254740992" "(2::real) ^ 40 = 1099511627776"
    "(2::real) ^ 100 = 1267650600228229401496703205376" "(2::real) ^ 21 = 2097152"
    by simp_all
  define p where "p = real k * vs"
  have "\<bar>real k * vs\<bar> \<le> 1000000 * 1502"
    unfolding abs_mult using assms(2,3) by (intro mult_mono) simp_all
  then have p: "\<bar>p\<bar> \<le> 1502000000" by (simp add: p_def)
  from binary64_step [OF this] obtain a where a: "binary64 p = Fin a"
    "\<bar>a - p\<bar> \<le> 1502000000 / 2 ^ 53 + 1 / 2 ^ 100" by auto
  have a_b: "\<bar>a\<bar> \<le> 1502000001" using a(2) p unfolding pow by argo
  have "\<bar>sy + a\<bar> \<le> 2254000001" using a_b assms(1) by linarith
  from binary64_step [OF this] obtain y where y: "binary64 (sy + a) = Fin y"
    "\<bar>y - (sy + a)\<bar> \<le> 2254000001 / 2 ^ 53 + 1 / 2 ^ 100" by auto
  have "\<bar>y - (sy + p)\<bar> \<le> 1 / 2 ^ 21"
    using a(2) y(2) unfolding pow by argo
  moreover have "rnd (Fin sy + rnd (Fin (real k) * Fin vs)) = Fin y"
    using a(1) y(1) by (simp add: p_def)
  ultimately show ?thesis unfolding p_def by blast
qed

text \<open>
  Every cell of the layout on doubles, in terms of these quantities.
\<close>

lemma calculateHexCoords64_cells:
  fixes w h r :: real and items :: "'a list"
  assumes "items \<noteq> []" "length items \<le> 1000000" "1 \<le> w" "w \<le> 5000" "1 \<le> h" "h \<le> 5000"
    and "0 < r" "r \<le> 1000"
  shows "\<exists>(C::nat) hs vs ro sx sy.
     0 < C \<and> \<bar>hs - r * sqrt 3\<bar> \<le> 1 / 2 ^ 40 \<and> \<bar>vs - 0.75 * (2 * r)\<bar> \<le> 1 / 2 ^ 40 \<and>
     (\<forall>i<length items. \<exists>x y.
        calculateHexCoords64 items (Fin w) (Fin h) (Fin r) ! i
          = \<lparr>hc_q = Fin (real (i mod C)), hc_r = Fin (real (i div C)),
             hc_x = Fin x, hc_y = Fin y, hc_data = items ! i\<rparr> \<and>
        \<bar>x - (sx + real (i mod C) * hs + (if odd (i div C) then ro else 0))\<bar> \<le> 1 / 2 ^ 23 \<and>
        \<bar>y - (sy + real (i div C) * vs)\<bar> \<le> 1 / 2 ^ 21)"
proof -
  from assms(1) have n: "0 < length items" by simp
  from columns64 [OF n assms(2-6)] obtain C :: nat where C: "0 < C" "C \<le> 70726"
    and cols: "Math_ceil (rnd (Math_sqrt (rnd (Fin (real (length items)) * rnd (Fin w / Fin h)))))
      = Fin (real C)"
    by blast
  from hexWidth64 [OF assms(7,8)] obtain hs
    where hs: "rnd (Fin r * rnd (Math_sqrt (Fin 3))) = Fin hs" "\<bar>hs\<bar> \<le> 1733"
      "\<bar>hs - r * sqrt 3\<bar> \<le> 1 / 2 ^ 40"
    by blast
  from startX64 [OF hs(2) C(2) assms(3,4)] obtain ro sx
    where ro: "rnd (Fin hs / Fin 2) = Fin ro" "\<bar>ro\<bar> \<le> 867"
      and sx: "rnd (rnd (Fin w - rnd (rnd (rnd (Fin (real C) - Fin 1) * Fin hs) + Fin ro)) / Fin 2)
             = Fin sx" "\<bar>sx\<bar> \<le> 63000000"
    by blast
  from verticalSpacing64 [OF assms(7,8)] obtain vs
    where vs: "rnd (rnd (Fin r * Fin 2) * Fin 0.75) = Fin vs" "\<bar>vs\<bar> \<le> 1502"
      "\<bar>vs - 0.75 * (2 * r)\<bar> \<le> 1 / 2 ^ 40"
    by blast
  from startY64 [OF vs(2) C(1) assms(2,5,6)] obtain sy
    where sy: "rnd (Fin 0 + rnd (rnd (rnd (Fin h - Fin 0)
                 - rnd (rnd (Math_ceil (rnd (Fin (real (length items)) / Fin (real C))) - Fin 1) * Fin vs))
                 / Fin 2)) = Fin sy" "\<bar>sy\<bar> \<le> 752000000"
    by blast
  have dims: "validDimension (Fin w) (Fin 800) = Fin w" "validDimension (Fin h) (Fin 600) = Fin h"
    using assms(3,5) by simp_all
  have ok: "(Fin 5000 < Fin w \<or> Fin 5000 < Fin h) = False" using assms(4,6) by simp
  have Cle: "C \<le> 1000000" using C(2) by simp
  have cell: "\<exists>x y.
        calculateHexCoords64 items (Fin w) (Fin h) (Fin r) ! i
          = \<lparr>hc_q = Fin (real (i mod C)), hc_r = Fin (real (i div C)),
             hc_x = Fin x, hc_y = Fin y, hc_data = items ! i\<rparr> \<and>
        \<bar>x - (sx + real (i mod C) * hs + (if odd (i div C) then ro else 0))\<bar> \<le> 1 / 2 ^ 23 \<and>
        \<bar>y - (sy + real (i div C) * vs)\<bar> \<le> 1 / 2 ^ 21"
    if i: "i < length items" for i
  proof -
    from i assms(2) have ile: "i \<le> 1000000" by simp
    have "i mod C \<le> C" using C(1) by (simp add: less_imp_le)
    with C(2) have c: "i mod C \<le> 70726" by simp
    have "i div C \<le> i" by (rule div_le_dividend)
    from this ile have k: "i div C \<le> 1000000" by (rule order_trans)
    have off: "\<bar>if odd (i div C) then ro else 0\<bar> \<le> 867" using ro(2) by simp
    from xCoordinate64 [OF sx(2) hs(2) c off] obtain x
      where x: "rnd (rnd (Fin sx + rnd (Fin (real (i mod C)) * Fin hs))
                  + Fin (if odd (i div C) then ro else 0)) = Fin x"
        "\<bar>x - (sx + real (i mod C) * hs + (if odd (i div C) then ro else 0))\<bar> \<le> 1 / 2 ^ 23"
      by blast
    from yCoordinate64 [OF sy(2) vs(2) k] obtain y
      where y: "rnd (Fin sy + rnd (Fin (real (i div C)) * Fin vs)) = Fin y"
        "\<bar>y - (sy + real (i div C) * vs)\<bar> \<le> 1 / 2 ^ 21"
      by blast
    have ilen: "i < length (enumerate 0 items)" using i by simp
    have offset: "(if odd (i div C) then Fin ro else Fin 0) = Fin (if odd (i div C) then ro else 0)"
      by simp
    have "calculateHexCoords64 items (Fin w) (Fin h) (Fin r) ! i
          = \<lparr>hc_q = Fin (real (i mod C)), hc_r = Fin (real (i div C)),
             hc_x = Fin x, hc_y = Fin y, hc_data = items ! i\<rparr>"
      unfolding calculateHexCoords64_def Let_def
      apply (simp only: dims ok if_False cols hs(1) ro(1) sx(1) vs(1) sy(1))
      apply (simp only: nth_map [OF ilen] nth_enumerate_eq [OF i] prod.case add_0)
      apply (simp only: js_mod_nat [OF C(1)] row_exact [OF C(1) Cle ile] js_mod_two offset x(1) y(1))
      apply simp
      done
    with x(2) y(2) show ?thesis by blast
  qed
  from C(1) hs(3) vs(3) cell show ?thesis by blast
qed

text \<open>
  The spacing on doubles: it is the exact one up to \<open>2 ^ (-21)\<close> horizontally and
  \<open>2 ^ (-19)\<close> vertically.
\<close>

lemma calculateHexCoords64_spacing:
  fixes w h r :: real and items :: "'a list"
  assumes "items \<noteq> []" "length items \<le> 1000000" "1 \<le> w" "w \<le> 5000" "1 \<le> h" "h \<le> 5000"
    and "0 < r" "r \<le> 1000"
  shows "(\<forall>i j. i < length items \<and> j < length items \<and> i \<noteq> j \<and>
       hc_r (calculateHexCoords64 items (Fin w) (Fin h) (Fin r) ! i)
         = hc_r (calculateHexCoords64 items (Fin w) (Fin h) (Fin r) ! j) \<longrightarrow>
       Fin (r * sqrt 3 - 1 / 2 ^ 21)
         \<le> Math_abs (hc_x (calculateHexCoords64 items (Fin w) (Fin h) (Fin r) ! i)
                     - hc_x (calculateHexCoords64 items (Fin w) (Fin h) (Fin r) ! j))) \<and>
    (\<forall>i j. i < length items \<and> j < length items \<and>
       hc_r (calculateHexCoords64 items (Fin w) (Fin h) (Fin r) ! j)
         = hc_r (calculateHexCoords64 items (Fin w) (Fin h) (Fin r) ! i) + Fin 1 \<longrightarrow>
       Math_abs (hc_y (calculateHexCoords64 items (Fin w) (Fin h) (Fin r) ! j)
                   - hc_y (calculateHexCoords64 items (Fin w) (Fin h) (Fin r) ! i)
                   - Fin (0.75 * (2 * r))) \<le> Fin (1 / 2 ^ 19))"
proof -
  have pow: "(2::real) ^ 40 = 1099511627776" "(2::real) ^ 23 = 8388608"
    "(2::real) ^ 21 = 2097152" "(2::real) ^ 19 = 524288"
    by simp_all
  from calculateHexCoords64_cells [OF assms] obtain C :: nat and hs vs ro sx sy
    where C: "0 < C" and hs: "\<bar>hs - r * sqrt 3\<bar> \<le> 1 / 2 ^ 40"
      and vs: "\<bar>vs - 0.75 * (2 * r)\<bar> \<le> 1 / 2 ^ 40"
      and cells: "\<forall>i<length items. \<exists>x y.
        calculateHexCoords64 items (Fin w) (Fin h) (Fin r) ! i
          = \<lparr>hc_q = Fin (real (i mod C)), hc_r = Fin (real (i div C)),
             hc_x = Fin x, hc_y = Fin y, hc_data = items ! i\<rparr> \<and>
        \<bar>x - (sx + real (i mod C) * hs + (if odd (i div C) then ro else 0))\<bar> \<le> 1 / 2 ^ 23 \<and>
        \<bar>y - (sy + real (i div C) * vs)\<bar> \<le> 1 / 2 ^ 21"
    by blast
  show ?thesis
  proof (intro conjI allI impI)
    fix i j
    assume a: "i < length items \<and> j < length items \<and> i \<noteq> j \<and>
       hc_r (calculateHexCoords64 items (Fin w) (Fin h) (Fin r) ! i)
         = hc_r (calculateHexCoords64 items (Fin w) (Fin h) (Fin r) ! j)"
    then have i: "i < length items" and j: "j < length items" and ij: "i \<noteq> j" by simp_all
    from cells i obtain xi yi where ci: "calculateHexCoords64 items (Fin w) (Fin h) (Fin r) ! i
          = \<lparr>hc_q = Fin (real (i mod C)), hc_r = Fin (real (i div C)),
             hc_x = Fin xi, hc_y = Fin yi, hc_data = items ! i\<rparr>"
      and xi: "\<bar>xi - (sx + real (i mod C) * hs + (if odd (i div C) then ro else 0))\<bar> \<le> 1 / 2 ^ 23"
      by blast
    from cells j obtain xj yj where cj: "calculateHexCoords64 items (Fin w) (Fin h) (Fin r) ! j
          = \<lparr>hc_q = Fin (real (j mod C)), hc_r = Fin (real (j div C)),
             hc_x = Fin xj, hc_y = Fin yj, hc_data = items ! j\<rparr>"
      and xj: "\<bar>xj - (sx + real (j mod C) * hs + (if odd (j div C) then ro else 0))\<bar> \<le> 1 / 2 ^ 23"
      by blast
    from a have row: "i div C = j div C" by (simp add: ci cj)
    have cols: "1 \<le> \<bar>real (i mod C) - real (j mod C)\<bar>"
      using same_row_distinct_columns [OF ij row] .
    define d where "d = real (i mod C) - real (j mod C)"
    define off where "off = (if odd (j div C) then ro else 0)"
    define g where "g = d * hs"
    have "\<bar>hs\<bar> * 1 \<le> \<bar>hs\<bar> * \<bar>d\<bar>" using cols unfolding d_def by (intro mult_left_mono) simp_all
    then have g: "\<bar>hs\<bar> \<le> \<bar>g\<bar>" by (simp add: g_def abs_mult mult.commute)
    have ei: "\<bar>xi - (sx + real (i mod C) * hs + off)\<bar> \<le> 1 / 2 ^ 23"
      using xi unfolding off_def row .
    have ej: "\<bar>xj - (sx + real (j mod C) * hs + off)\<bar> \<le> 1 / 2 ^ 23"
      using xj unfolding off_def .
    have "(sx + real (i mod C) * hs + off) - (sx + real (j mod C) * hs + off) = g"
      by (simp add: g_def d_def algebra_simps)
    then have "\<bar>(xi - xj) - g\<bar> \<le> 2 / 2 ^ 23" using ei ej by linarith
    define b where "b = r * sqrt 3"
    have "b - 1 / 2 ^ 21 \<le> \<bar>xi - xj\<bar>"
      using \<open>\<bar>(xi - xj) - g\<bar> \<le> 2 / 2 ^ 23\<close> g hs unfolding pow b_def [symmetric] by argo
    then show "Fin (r * sqrt 3 - 1 / 2 ^ 21)
         \<le> Math_abs (hc_x (calculateHexCoords64 items (Fin w) (Fin h) (Fin r) ! i)
                     - hc_x (calculateHexCoords64 items (Fin w) (Fin h) (Fin r) ! j))"
      by (simp add: ci cj b_def)
  next
    fix i j
    assume a: "i < length items \<and> j < length items \<and>
       hc_r (calculateHexCoords64 items (Fin w) (Fin h) (Fin r) ! j)
         = hc_r (calculateHexCoords64 items (Fin w) (Fin h) (Fin r) ! i) + Fin 1"
    then have i: "i < length items" and j: "j < length items" by simp_all
    from cells i obtain xi yi where ci: "calculateHexCoords64 items (Fin w) (Fin h) (Fin r) ! i
          = \<lparr>hc_q = Fin (real (i mod C)), hc_r = Fin (real (i div C)),
             hc_x = Fin xi, hc_y = Fin yi, hc_data = items ! i\<rparr>"
      and yi: "\<bar>yi - (sy + real (i div C) * vs)\<bar> \<le> 1 / 2 ^ 21"
      by blast
    from cells j obtain xj yj where cj: "calculateHexCoords64 items (Fin w) (Fin h) (Fin r) ! j
          = \<lparr>hc_q = Fin (real (j mod C)), hc_r = Fin (real (j div C)),
             hc_x = Fin xj, hc_y = Fin yj, hc_data = items ! j\<rparr>"
      and yj: "\<bar>yj - (sy + real (j div C) * vs)\<bar> \<le> 1 / 2 ^ 21"
      by blast
    from a have row: "real (j div C) = real (i div C) + 1" by (simp add: ci cj)
    define t where "t = sy + real (i div C) * vs"
    have ei: "\<bar>yi - t\<bar> \<le> 1 / 2 ^ 21" using yi unfolding t_def .
    have "sy + real (j div C) * vs = t + vs" unfolding row t_def by (simp add: algebra_simps)
    with yj have ej: "\<bar>yj - (t + vs)\<bar> \<le> 1 / 2 ^ 21" by simp
    define b where "b = 0.75 * (2 * r)"
    have "\<bar>yj - yi - b\<bar> \<le> 1 / 2 ^ 19"
      using ei ej vs unfolding pow b_def [symmetric] by argo
    then show "Math_abs (hc_y (calculateHexCoords64 items (Fin w) (Fin h) (Fin r) ! j)
                   - hc_y (calculateHexCoords64 items (Fin w) (Fin h) (Fin r) ! i)
                   - Fin (0.75 * (2 * r))) \<le> Fin (1 / 2 ^ 19)"
      by (simp add: ci cj b_def)
  qed
qed

text \<open>
  Claim C4, as amended. For a non-empty item list, a container with finite dimensions in
  \<open>(0, 5000]\<close> and a positive finite cell radius \<open>r\<close>, the layout returns one cell per
  item, in order, and every cell has finite \<open>x\<close> and \<open>y\<close>: this holds for
  \<open>calculateHexCoords\<close> and for \<open>calculateHexCoords64\<close>, that is, also with the rounding
  of doubles. In exact arithmetic (\<open>calculateHexCoords\<close>) two different cells of one row
  are at least \<open>r * sqrt 3\<close> apart horizontally, and a cell of the next row lies exactly
  \<open>0.75 * (2 * r)\<close> lower. On doubles (\<open>calculateHexCoords64\<close>) the spacing holds up to
  rounding: for at most a million items, dimensions of at least one pixel and a radius of
  at most 1000, two different cells of one row are at least \<open>r * sqrt 3 - 2 ^ (-21)\<close>
  apart, and a cell of the next row lies \<open>0.75 * (2 * r)\<close> lower up to \<open>2 ^ (-19)\<close>. The
  exact bounds can fail on doubles (see the counterexample below).
\<close>

theorem calculateHexCoords_layout:
  fixes w h r :: real and items :: "'a list"
  assumes "items \<noteq> []" "0 < w" "w \<le> 5000" "0 < h" "h \<le> 5000" "0 < r"
  shows "length (calculateHexCoords items (Fin w) (Fin h) (Fin r)) = length items \<and>
    (\<forall>i. i < length items \<longrightarrow>
       isFinite (hc_x (calculateHexCoords items (Fin w) (Fin h) (Fin r) ! i)) \<and>
       isFinite (hc_y (calculateHexCoords items (Fin w) (Fin h) (Fin r) ! i)) \<and>
       hc_data (calculateHexCoords items (Fin w) (Fin h) (Fin r) ! i) = items ! i) \<and>
    (\<forall>i j. i < length items \<and> j < length items \<and> i \<noteq> j \<and>
       hc_r (calculateHexCoords items (Fin w) (Fin h) (Fin r) ! i)
         = hc_r (calculateHexCoords items (Fin w) (Fin h) (Fin r) ! j) \<longrightarrow>
       Fin (r * sqrt 3) \<le> Math_abs (hc_x (calculateHexCoords items (Fin w) (Fin h) (Fin r) ! i)
                               - hc_x (calculateHexCoords items (Fin w) (Fin h) (Fin r) ! j))) \<and>
    (\<forall>i j. i < length items \<and> j < length items \<and>
       hc_r (calculateHexCoords items (Fin w) (Fin h) (Fin r) ! j)
         = hc_r (calculateHexCoords items (Fin w) (Fin h) (Fin r) ! i) + Fin 1 \<longrightarrow>
       hc_y (calculateHexCoords items (Fin w) (Fin h) (Fin r) ! j)
         - hc_y (calculateHexCoords items (Fin w) (Fin h) (Fin r) ! i) = Fin (0.75 * (2 * r))) \<and>
    length (calculateHexCoords64 items (Fin w) (Fin h) (Fin r)) = length items \<and>
    (\<forall>i. i < length items \<longrightarrow>
       isFinite (hc_x (calculateHexCoords64 items (Fin w) (Fin h) (Fin r) ! i)) \<and>
       isFinite (hc_y (calculateHexCoords64 items (Fin w) (Fin h) (Fin r) ! i)) \<and>
       hc_data (calculateHexCoords64 items (Fin w) (Fin h) (Fin r) ! i) = items ! i) \<and>
    (length items \<le> 1000000 \<and> 1 \<le> w \<and> 1 \<le> h \<and> r \<le> 1000 \<longrightarrow>
       (\<forall>i j. i < length items \<and> j < length items \<and> i \<noteq> j \<and>
          hc_r (calculateHexCoords64 items (Fin w) (Fin h) (Fin r) ! i)
            = hc_r (calculateHexCoords64 items (Fin w) (Fin h) (Fin r) ! j) \<longrightarrow>
          Fin (r * sqrt 3 - 1 / 2 ^ 21)
            \<le> Math_abs (hc_x (calculateHexCoords64 items (Fin w) (Fin h) (Fin r) ! i)
                        - hc_x (calculateHexCoords64 items (Fin w) (Fin h) (Fin r) ! j))) \<and>
       (\<forall>i j. i < length items \<and> j < length items \<and>
          hc_r (calculateHexCoords64 items (Fin w) (Fin h) (Fin r) ! j)
            = hc_r (calculateHexCoords64 items (Fin w) (Fin h) (Fin r) ! i) + Fin 1 \<longrightarrow>
          Math_abs (hc_y (calculateHexCoords64 items (Fin w) (Fin h) (Fin r) ! j)
                      - hc_y (calculateHexCoords64 items (Fin w) (Fin h) (Fin r) ! i)
                      - Fin (0.75 * (2 * r))) \<le> Fin (1 / 2 ^ 19)))"
proof -
  have layout: "length (calculateHexCoords items (Fin w) (Fin h) (Fin r)) = length items \<and>
      (\<forall>i. i < length items \<longrightarrow>
         isFinite (hc_x (calculateHexCoords items (Fin w) (Fin h) (Fin r) ! i)) \<and>
         isFinite (hc_y (calculateHexCoords items (Fin w) (Fin h) (Fin r) ! i)) \<and>
         hc_data (calculateHexCoords items (Fin w) (Fin h) (Fin r) ! i) = items ! i) \<and>
      (\<forall>i j. i < length items \<and> j < length items \<and> i \<noteq> j \<and>
         hc_r (calculateHexCoords items (Fin w) (Fin h) (Fin r) ! i)
           = hc_r (calculateHexCoords items (Fin w) (Fin h) (Fin r) ! j) \<longrightarrow>
         Fin (r * sqrt 3) \<le> Math_abs (hc_x (calculateHexCoords items (Fin w) (Fin h) (Fin r) ! i)
                                 - hc_x (calculateHexCoords items (Fin w) (Fin h) (Fin r) ! j))) \<and>
      (\<forall>i j. i < length items \<and> j < length items \<and>
         hc_r (calculateHexCoords items (Fin w) (Fin h) (Fin r) ! j)
           = hc_r (calculateHexCoords items (Fin w) (Fin h) (Fin r) ! i) + Fin 1 \<longrightarrow>
         hc_y (calculateHexCoords items (Fin w) (Fin h) (Fin r) ! j)
           - hc_y (calculateHexCoords items (Fin w) (Fin h) (Fin r) ! i) = Fin (0.75 * (2 * r))) \<and>
      length (calculateHexCoords64 items (Fin w) (Fin h) (Fin r)) = length items \<and>
      (\<forall>i. i < length items \<longrightarrow>
         isFinite (hc_x (calculateHexCoords64 items (Fin w) (Fin h) (Fin r) ! i)) \<and>
         isFinite (hc_y (calculateHexCoords64 items (Fin w) (Fin h) (Fin r) ! i)) \<and>
         hc_data (calculateHexCoords64 items (Fin w) (Fin h) (Fin r) ! i) = items ! i)"
  proof (intro conjI allI impI)
    show "length (calculateHexCoords items (Fin w) (Fin h) (Fin r)) = length items"
      using assms(2-5) by (simp add: length_calculateHexCoords)
  next
    fix i assume "i < length items"
    note nth = calculateHexCoords_nth [OF this assms(2-5), of r]
    show "isFinite (hc_x (calculateHexCoords items (Fin w) (Fin h) (Fin r) ! i))"
      by (simp add: nth)
    show "isFinite (hc_y (calculateHexCoords items (Fin w) (Fin h) (Fin r) ! i))"
      by (simp add: nth)
    show "hc_data (calculateHexCoords items (Fin w) (Fin h) (Fin r) ! i) = items ! i"
      by (simp add: nth)
  next
    fix i j
    assume a: "i < length items \<and> j < length items \<and> i \<noteq> j \<and>
         hc_r (calculateHexCoords items (Fin w) (Fin h) (Fin r) ! i)
           = hc_r (calculateHexCoords items (Fin w) (Fin h) (Fin r) ! j)"
    define c where "c = nat \<lceil>sqrt (real (length items) * (w / h))\<rceil>"
    from a have i: "i < length items" and j: "j < length items" and ij: "i \<noteq> j" by simp_all
    note ni = calculateHexCoords_nth [OF i assms(2-5), of r, folded c_def]
    note nj = calculateHexCoords_nth [OF j assms(2-5), of r, folded c_def]
    from a have row: "i div c = j div c" by (simp add: ni nj)
    have "1 \<le> \<bar>real (i mod c) - real (j mod c)\<bar>"
      using same_row_distinct_columns [OF ij row] .
    with assms(6) have "r * sqrt 3 * 1 \<le> r * sqrt 3 * \<bar>real (i mod c) - real (j mod c)\<bar>"
      by (intro mult_left_mono) simp_all
    also have "\<dots> = \<bar>(real (i mod c) - real (j mod c)) * (r * sqrt 3)\<bar>"
      using assms(6) by (simp add: abs_mult)
    finally have "r * sqrt 3 \<le> \<bar>(real (i mod c) - real (j mod c)) * (r * sqrt 3)\<bar>" by simp
    then show "Fin (r * sqrt 3) \<le> Math_abs (hc_x (calculateHexCoords items (Fin w) (Fin h) (Fin r) ! i)
                                 - hc_x (calculateHexCoords items (Fin w) (Fin h) (Fin r) ! j))"
      by (simp add: ni nj row algebra_simps)
  next
    fix i j
    assume a: "i < length items \<and> j < length items \<and>
         hc_r (calculateHexCoords items (Fin w) (Fin h) (Fin r) ! j)
           = hc_r (calculateHexCoords items (Fin w) (Fin h) (Fin r) ! i) + Fin 1"
    define c where "c = nat \<lceil>sqrt (real (length items) * (w / h))\<rceil>"
    from a have i: "i < length items" and j: "j < length items" by simp_all
    note ni = calculateHexCoords_nth [OF i assms(2-5), of r, folded c_def]
    note nj = calculateHexCoords_nth [OF j assms(2-5), of r, folded c_def]
    from a have "real (j div c) = real (i div c) + 1" by (simp add: ni nj)
    then show "hc_y (calculateHexCoords items (Fin w) (Fin h) (Fin r) ! j)
           - hc_y (calculateHexCoords items (Fin w) (Fin h) (Fin r) ! i) = Fin (0.75 * (2 * r))"
      by (simp add: ni nj algebra_simps)
  next
    show len: "length (calculateHexCoords64 items (Fin w) (Fin h) (Fin r)) = length items"
      using assms(2-5) by (simp add: length_calculateHexCoords64)
    fix i assume "i < length items"
    with len have i: "i < length (calculateHexCoords64 items (Fin w) (Fin h) (Fin r))" by simp
    note cell = calculateHexCoords64_cell [OF i]
    from cell show "isFinite (hc_x (calculateHexCoords64 items (Fin w) (Fin h) (Fin r) ! i))"
      by blast
    from cell show "isFinite (hc_y (calculateHexCoords64 items (Fin w) (Fin h) (Fin r) ! i))"
      by blast
    from cell show "hc_data (calculateHexCoords64 items (Fin w) (Fin h) (Fin r) ! i) = items ! i"
      by blast
  qed
  have doubles: "(\<forall>i j. i < length items \<and> j < length items \<and> i \<noteq> j \<and>
          hc_r (calculateHexCoords64 items (Fin w) (Fin h) (Fin r) ! i)
            = hc_r (calculateHexCoords64 items (Fin w) (Fin h) (Fin r) ! j) \<longrightarrow>
          Fin (r * sqrt 3 - 1 / 2 ^ 21)
            \<le> Math_abs (hc_x (calculateHexCoords64 items (Fin w) (Fin h) (Fin r) ! i)
                        - hc_x (calculateHexCoords64 items (Fin w) (Fin h) (Fin r) ! j))) \<and>
       (\<forall>i j. i < length items \<and> j < length items \<and>
          hc_r (calculateHexCoords64 items (Fin w) (Fin h) (Fin r) ! j)
            = hc_r (calculateHexCoords64 items (Fin w) (Fin h) (Fin r) ! i) + Fin 1 \<longrightarrow>
          Math_abs (hc_y (calculateHexCoords64 items (Fin w) (Fin h) (Fin r) ! j)
                      - hc_y (calculateHexCoords64 items (Fin w) (Fin h) (Fin r) ! i)
                      - Fin (0.75 * (2 * r))) \<le> Fin (1 / 2 ^ 19))"
    if domain: "length items \<le> 1000000 \<and> 1 \<le> w \<and> 1 \<le> h \<and> r \<le> 1000"
  proof -
    from domain have d: "length items \<le> 1000000" "1 \<le> w" "1 \<le> h" "r \<le> 1000"
      by simp_all
    show ?thesis
      using calculateHexCoords64_spacing [OF assms(1) d(1,2) assms(3) d(3) assms(5,6) d(4)] .
  qed
  from layout doubles show ?thesis by blast
qed

theorem calculateHexCoords_layout_witness:
  "[0, 1, 2, 3 :: nat] \<noteq> [] \<and> (0::real) < 100 \<and> (100::real) \<le> 5000 \<and> (0::real) < 10 \<and>
   length (calculateHexCoords [0, 1, 2, 3 :: nat] (Fin 100) (Fin 100) (Fin 10)) = 4 \<and>
   isFinite (hc_x (calculateHexCoords [0, 1, 2, 3 :: nat] (Fin 100) (Fin 100) (Fin 10) ! 3)) \<and>
   hc_r (calculateHexCoords [0, 1, 2, 3 :: nat] (Fin 100) (Fin 100) (Fin 10) ! 0)
     = hc_r (calculateHexCoords [0, 1, 2, 3 :: nat] (Fin 100) (Fin 100) (Fin 10) ! 1) \<and>
   Fin (10 * sqrt 3)
     \<le> Math_abs (hc_x (calculateHexCoords [0, 1, 2, 3 :: nat] (Fin 100) (Fin 100) (Fin 10) ! 0)
                 - hc_x (calculateHexCoords [0, 1, 2, 3 :: nat] (Fin 100) (Fin 100) (Fin 10) ! 1)) \<and>
   hc_r (calculateHexCoords [0, 1, 2, 3 :: nat] (Fin 100) (Fin 100) (Fin 10) ! 2)
     = hc_r (calculateHexCoords [0, 1, 2, 3 :: nat] (Fin 100) (Fin 100) (Fin 10) ! 0) + Fin 1 \<and>
   hc_y (calculateHexCoords [0, 1, 2, 3 :: nat] (Fin 100) (Fin 100) (Fin 10) ! 2)
     - hc_y (calculateHexCoords [0, 1, 2, 3 :: nat] (Fin 100) (Fin 100) (Fin 10) ! 0) = Fin (0.75 * (2 * 10)) \<and>
   length (calculateHexCoords64 [0, 1, 2, 3 :: nat] (Fin 100) (Fin 100) (Fin 10)) = 4 \<and>
   isFinite (hc_x (calculateHexCoords64 [0, 1, 2, 3 :: nat] (Fin 100) (Fin 100) (Fin 10) ! 3)) \<and>
   length [0, 1, 2, 3 :: nat] \<le> 1000000 \<and> (1::real) \<le> 100 \<and> (10::real) \<le> 1000 \<and>
   hc_r ((calculateHexCoords64 [0, 1, 2, 3 :: nat] (Fin 100) (Fin 100) (Fin 10)) ! 0) = hc_r ((calculateHexCoords64 [0, 1, 2, 3 :: nat] (Fin 100) (Fin 100) (Fin 10)) ! 1) \<and>
   Fin (10 * sqrt 3 - 1 / 2 ^ 21) \<le> Math_abs (hc_x ((calculateHexCoords64 [0, 1, 2, 3 :: nat] (Fin 100) (Fin 100) (Fin 10)) ! 0) - hc_x ((calculateHexCoords64 [0, 1, 2, 3 :: nat] (Fin 100) (Fin 100) (Fin 10)) ! 1)) \<and>
   hc_r ((calculateHexCoords64 [0, 1, 2, 3 :: nat] (Fin 100) (Fin 100) (Fin 10)) ! 2) = hc_r ((calculateHexCoords64 [0, 1, 2, 3 :: nat] (Fin 100) (Fin 100) (Fin 10)) ! 0) + Fin 1 \<and>
   Math_abs (hc_y ((calculateHexCoords64 [0, 1, 2, 3 :: nat] (Fin 100) (Fin 100) (Fin 10)) ! 2) - hc_y ((calculateHexCoords64 [0, 1, 2, 3 :: nat] (Fin 100) (Fin 100) (Fin 10)) ! 0) - Fin (0.75 * (2 * 10))) \<le> Fin (1 / 2 ^ 19)"
proof -
  have given: "[0, 1, 2, 3 :: nat] \<noteq> []" "(0::real) < 100" "(100::real) \<le> 5000" "(0::real) < 10"
    by simp_all
  note layout = calculateHexCoords_layout [OF given(1) given(2,3) given(2,3) given(4)]
  have cols: "nat \<lceil>sqrt (real (length [0, 1, 2, 3 :: nat]) * (100 / 100))\<rceil> = 2"
    by simp
  have rows: "hc_r (calculateHexCoords [0, 1, 2, 3 :: nat] (Fin 100) (Fin 100) (Fin 10) ! 0) = Fin 0"
       "hc_r (calculateHexCoords [0, 1, 2, 3 :: nat] (Fin 100) (Fin 100) (Fin 10) ! 1) = Fin 0"
       "hc_r (calculateHexCoords [0, 1, 2, 3 :: nat] (Fin 100) (Fin 100) (Fin 10) ! 2) = Fin 1"
    by (simp_all add: calculateHexCoords_nth cols)
  from layout have
    "length (calculateHexCoords [0, 1, 2, 3 :: nat] (Fin 100) (Fin 100) (Fin 10)) = 4"
    by simp
  moreover from layout have
    "isFinite (hc_x (calculateHexCoords [0, 1, 2, 3 :: nat] (Fin 100) (Fin 100) (Fin 10) ! 3))"
    by simp
  moreover from layout rows have "Fin (10 * sqrt 3)
     \<le> Math_abs (hc_x (calculateHexCoords [0, 1, 2, 3 :: nat] (Fin 100) (Fin 100) (Fin 10) ! 0)
                 - hc_x (calculateHexCoords [0, 1, 2, 3 :: nat] (Fin 100) (Fin 100) (Fin 10) ! 1))"
    by simp
  moreover from layout rows have
    "hc_y (calculateHexCoords [0, 1, 2, 3 :: nat] (Fin 100) (Fin 100) (Fin 10) ! 2)
     - hc_y (calculateHexCoords [0, 1, 2, 3 :: nat] (Fin 100) (Fin 100) (Fin 10) ! 0) = Fin (0.75 * (2 * 10))"
    by simp
  moreover from layout have
    "length (calculateHexCoords64 [0, 1, 2, 3 :: nat] (Fin 100) (Fin 100) (Fin 10)) = 4"
    by simp
  moreover from layout have
    "isFinite (hc_x (calculateHexCoords64 [0, 1, 2, 3 :: nat] (Fin 100) (Fin 100) (Fin 10) ! 3))"
    by simp
  ultimately have exact: "length (calculateHexCoords [0, 1, 2, 3 :: nat] (Fin 100) (Fin 100) (Fin 10)) = 4 \<and>
   isFinite (hc_x (calculateHexCoords [0, 1, 2, 3 :: nat] (Fin 100) (Fin 100) (Fin 10) ! 3)) \<and>
   Fin (10 * sqrt 3)
     \<le> Math_abs (hc_x (calculateHexCoords [0, 1, 2, 3 :: nat] (Fin 100) (Fin 100) (Fin 10) ! 0)
                 - hc_x (calculateHexCoords [0, 1, 2, 3 :: nat] (Fin 100) (Fin 100) (Fin 10) ! 1)) \<and>
   hc_y (calculateHexCoords [0, 1, 2, 3 :: nat] (Fin 100) (Fin 100) (Fin 10) ! 2)
     - hc_y (calculateHexCoords [0, 1, 2, 3 :: nat] (Fin 100) (Fin 100) (Fin 10) ! 0) = Fin (0.75 * (2 * 10)) \<and>
   length (calculateHexCoords64 [0, 1, 2, 3 :: nat] (Fin 100) (Fin 100) (Fin 10)) = 4 \<and> isFinite (hc_x (calculateHexCoords64 [0, 1, 2, 3 :: nat] (Fin 100) (Fin 100) (Fin 10) ! 3))"
    by blast
  have one: "binary64 1 = Fin 1"
    using binary64_eval [of 0 1 4503599627370496] by (simp add: roundEven_def)
  have two: "binary64 2 = Fin 2"
    using binary64_eval [of 1 2 4503599627370496] by (simp add: roundEven_def)
  have four: "binary64 4 = Fin 4"
    using binary64_eval [of 2 4 4503599627370496] by (simp add: roundEven_def)
  have half: "binary64 (1 / 2) = Fin (1 / 2)"
    using binary64_eval [of "- 1" "1 / 2" 4503599627370496] by (simp add: roundEven_def)
  have dims: "validDimension (Fin 100) (Fin 800) = Fin 100"
    "validDimension (Fin 100) (Fin 600) = Fin 100"
    by simp_all
  have cols64: "Math_ceil (rnd (Math_sqrt (rnd (Fin (real (length [0, 1, 2, 3 :: nat]))
      * rnd (Fin 100 / Fin 100))))) = Fin 2"
    by (simp add: one two four)
  have quotients: "rnd (Fin 0) = Fin 0" "rnd (Fin (1 / 2)) = Fin (1 / 2)" "rnd (Fin 1) = Fin 1"
    by (simp_all add: one half)
  have rows64: "hc_r (calculateHexCoords64 [0, 1, 2, 3 :: nat] (Fin 100) (Fin 100) (Fin 10) ! 0) = Fin 0" "hc_r (calculateHexCoords64 [0, 1, 2, 3 :: nat] (Fin 100) (Fin 100) (Fin 10) ! 1) = Fin 0" "hc_r (calculateHexCoords64 [0, 1, 2, 3 :: nat] (Fin 100) (Fin 100) (Fin 10) ! 2) = Fin 1"
    unfolding calculateHexCoords64_def Let_def
    by (simp_all only: dims cols64) (simp_all add: quotients del: rnd.simps)
  have domain: "length [0, 1, 2, 3 :: nat] \<le> 1000000 \<and> (1::real) \<le> 100 \<and> (1::real) \<le> 100
      \<and> (10::real) \<le> 1000"
    by simp
  from layout domain have horizontal: "\<forall>i j. i < length [0, 1, 2, 3 :: nat] \<and> j < length [0, 1, 2, 3 :: nat]
        \<and> i \<noteq> j \<and> hc_r (calculateHexCoords64 [0, 1, 2, 3 :: nat] (Fin 100) (Fin 100) (Fin 10) ! i) = hc_r (calculateHexCoords64 [0, 1, 2, 3 :: nat] (Fin 100) (Fin 100) (Fin 10) ! j) \<longrightarrow>
      Fin (10 * sqrt 3 - 1 / 2 ^ 21) \<le> Math_abs (hc_x (calculateHexCoords64 [0, 1, 2, 3 :: nat] (Fin 100) (Fin 100) (Fin 10) ! i) - hc_x (calculateHexCoords64 [0, 1, 2, 3 :: nat] (Fin 100) (Fin 100) (Fin 10) ! j))"
    by blast
  from layout domain have vertical: "\<forall>i j. i < length [0, 1, 2, 3 :: nat] \<and> j < length [0, 1, 2, 3 :: nat]
        \<and> hc_r (calculateHexCoords64 [0, 1, 2, 3 :: nat] (Fin 100) (Fin 100) (Fin 10) ! j) = hc_r (calculateHexCoords64 [0, 1, 2, 3 :: nat] (Fin 100) (Fin 100) (Fin 10) ! i) + Fin 1 \<longrightarrow>
      Math_abs (hc_y (calculateHexCoords64 [0, 1, 2, 3 :: nat] (Fin 100) (Fin 100) (Fin 10) ! j) - hc_y (calculateHexCoords64 [0, 1, 2, 3 :: nat] (Fin 100) (Fin 100) (Fin 10) ! i) - Fin (0.75 * (2 * 10))) \<le> Fin (1 / 2 ^ 19)"
    by blast
  have same: "hc_r (calculateHexCoords64 [0, 1, 2, 3 :: nat] (Fin 100) (Fin 100) (Fin 10) ! 0) = hc_r (calculateHexCoords64 [0, 1, 2, 3 :: nat] (Fin 100) (Fin 100) (Fin 10) ! 1)" and next_row: "hc_r (calculateHexCoords64 [0, 1, 2, 3 :: nat] (Fin 100) (Fin 100) (Fin 10) ! 2) = hc_r (calculateHexCoords64 [0, 1, 2, 3 :: nat] (Fin 100) (Fin 100) (Fin 10) ! 0) + Fin 1"
    unfolding rows64 by simp_all
  from horizontal [rule_format, of 0 1] same
  have near: "Fin (10 * sqrt 3 - 1 / 2 ^ 21) \<le> Math_abs (hc_x (calculateHexCoords64 [0, 1, 2, 3 :: nat] (Fin 100) (Fin 100) (Fin 10) ! 0) - hc_x (calculateHexCoords64 [0, 1, 2, 3 :: nat] (Fin 100) (Fin 100) (Fin 10) ! 1))"
    by simp
  from vertical [rule_format, of 0 2] next_row
  have below: "Math_abs (hc_y (calculateHexCoords64 [0, 1, 2, 3 :: nat] (Fin 100) (Fin 100) (Fin 10) ! 2) - hc_y (calculateHexCoords64 [0, 1, 2, 3 :: nat] (Fin 100) (Fin 100) (Fin 10) ! 0) - Fin (0.75 * (2 * 10))) \<le> Fin (1 / 2 ^ 19)"
    by simp
  from exact given rows domain same near next_row below show ?thesis by simp
qed

text \<open>
  Claim C4 as stated fails on doubles: of four items in a 100 by 100 container with radius
  1, the first two lie in row 0 at \<open>x = 48.70096189432334\<close> and \<open>x = 50.43301270189222\<close>.
  Their distance \<open>1.732050807568875\<close> is less than \<open>sqrt 3\<close>, and also less than the cell
  width \<open>1.7320508075688772\<close> that the source computes.
\<close>

theorem calculateHexCoords_spacing_counterexample:
  "hc_r (calculateHexCoords64 [0, 1, 2, 3 :: nat] (Fin 100) (Fin 100) (Fin 1) ! 0)
     = hc_r (calculateHexCoords64 [0, 1, 2, 3 :: nat] (Fin 100) (Fin 100) (Fin 1) ! 1) \<and>
   hc_x (calculateHexCoords64 [0, 1, 2, 3 :: nat] (Fin 100) (Fin 100) (Fin 1) ! 0)
     = Fin (1713512764373901 / 35184372088832) \<and>
   hc_x (calculateHexCoords64 [0, 1, 2, 3 :: nat] (Fin 100) (Fin 100) (Fin 1) ! 1)
     = Fin (7097815537856665 / 140737488355328) \<and>
   \<not> Fin (1 * sqrt 3)
       \<le> Math_abs (hc_x (calculateHexCoords64 [0, 1, 2, 3 :: nat] (Fin 100) (Fin 100) (Fin 1) ! 1)
                   - hc_x (calculateHexCoords64 [0, 1, 2, 3 :: nat] (Fin 100) (Fin 100) (Fin 1) ! 0)) \<and>
   Math_abs (hc_x (calculateHexCoords64 [0, 1, 2, 3 :: nat] (Fin 100) (Fin 100) (Fin 1) ! 1)
               - hc_x (calculateHexCoords64 [0, 1, 2, 3 :: nat] (Fin 100) (Fin 100) (Fin 1) ! 0))
     < rnd (Fin 1 * rnd (Math_sqrt (Fin 3)))"
proof -
  have layout_step_1: "binary64 (3900231685776981 / 2251799813685248) = Fin (3900231685776981 / 2251799813685248)"
    using binary64_eval [of "0" "3900231685776981 / 2251799813685248" "7800463371553962"] by (simp add: roundEven_def)

  have layout_step_2: "binary64 (2) = Fin (2)"
    using binary64_eval [of "1" "2" "4503599627370496"] by (simp add: roundEven_def)

  have layout_step_3: "binary64 (1) = Fin (1)"
    using binary64_eval [of "0" "1" "4503599627370496"] by (simp add: roundEven_def)

  have layout_step_4: "binary64 (4) = Fin (4)"
    using binary64_eval [of "2" "4" "4503599627370496"] by (simp add: roundEven_def)

  have layout_step_5: "binary64 (3 / 2) = Fin (3 / 2)"
    using binary64_eval [of "0" "3 / 2" "6755399441055744"] by (simp add: roundEven_def)

  have layout_step_6: "binary64 (3900231685776981 / 4503599627370496) = Fin (3900231685776981 / 4503599627370496)"
    using binary64_eval [of "- 1" "3900231685776981 / 4503599627370496" "7800463371553962"] by (simp add: roundEven_def)

  have layout_step_7: "binary64 (100) = Fin (100)"
    using binary64_eval [of "6" "100" "7036874417766400"] by (simp add: roundEven_def)

  have layout_step_8: "binary64 (11700695057330943 / 4503599627370496) = Fin (45705840067699 / 17592186044416)"
    using binary64_eval [of "1" "11700695057330943 / 4503599627370496" "5850347528665472"] by (simp add: roundEven_def)

  have layout_step_9: "binary64 (1713512764373901 / 17592186044416) = Fin (1713512764373901 / 17592186044416)"
    using binary64_eval [of "6" "1713512764373901 / 17592186044416" "6854051057495604"] by (simp add: roundEven_def)

  have layout_step_10: "binary64 (1713512764373901 / 35184372088832) = Fin (1713512764373901 / 35184372088832)"
    using binary64_eval [of "5" "1713512764373901 / 35184372088832" "6854051057495604"] by (simp add: roundEven_def)

  have layout_step_11: "binary64 (197 / 2) = Fin (197 / 2)"
    using binary64_eval [of "6" "197 / 2" "6931321301499904"] by (simp add: roundEven_def)

  have layout_step_12: "binary64 (197 / 4) = Fin (197 / 4)"
    using binary64_eval [of "5" "197 / 4" "6931321301499904"] by (simp add: roundEven_def)

  have layout_step_13: "binary64 (1 / 2) = Fin (1 / 2)"
    using binary64_eval [of "- 1" "1 / 2" "4503599627370496"] by (simp add: roundEven_def)

  have layout_step_14: "binary64 (113565048605706645 / 2251799813685248) = Fin (7097815537856665 / 140737488355328)"
    using binary64_eval [of "5" "113565048605706645 / 2251799813685248" "7097815537856665"] by (simp add: roundEven_def)

  have layout_step_15: "binary64 (7097815537856665 / 140737488355328) = Fin (7097815537856665 / 140737488355328)"
    using binary64_eval [of "5" "7097815537856665 / 140737488355328" "7097815537856665"] by (simp add: roundEven_def)

  have layout_step_16: "binary64 (223229865525636309 / 4503599627370496) = Fin (6975933297676135 / 140737488355328)"
    using binary64_eval [of "5" "223229865525636309 / 4503599627370496" "6975933297676135"] by (simp add: roundEven_def)

  have layout_step_17: "binary64 (203 / 4) = Fin (203 / 4)"
    using binary64_eval [of "5" "203 / 4" "7142427534032896"] by (simp add: roundEven_def)

  have layout_step_18: "binary64 (231030328897190261 / 4503599627370496) = Fin (1804924444509299 / 35184372088832)"
    using binary64_eval [of "5" "231030328897190261 / 4503599627370496" "7219697778037196"] by (simp add: roundEven_def)
  note steps = binary64_sqrt_3 layout_step_1 layout_step_2 layout_step_3 layout_step_4 layout_step_5 layout_step_6 layout_step_7 layout_step_8 layout_step_9 layout_step_10 layout_step_11 layout_step_12 layout_step_13 layout_step_14 layout_step_15 layout_step_16 layout_step_17 layout_step_18
  have cells:
    "calculateHexCoords64 [0, 1, 2, 3 :: nat] (Fin 100) (Fin 100) (Fin 1) ! 0
       = \<lparr>hc_q = Fin 0, hc_r = Fin 0, hc_x = Fin (1713512764373901 / 35184372088832),
          hc_y = Fin (197 / 4), hc_data = 0\<rparr>"
    "calculateHexCoords64 [0, 1, 2, 3 :: nat] (Fin 100) (Fin 100) (Fin 1) ! 1
       = \<lparr>hc_q = Fin 1, hc_r = Fin 0, hc_x = Fin (7097815537856665 / 140737488355328),
          hc_y = Fin (197 / 4), hc_data = 1\<rparr>"
    unfolding calculateHexCoords64_def Let_def
    by (simp_all add: steps trunc_def)
  have width: "rnd (Fin 1 * rnd (Math_sqrt (Fin 3))) = Fin (3900231685776981 / 2251799813685248)"
    by (simp add: steps)
  have short: "(243764480361061 / 140737488355328 :: real) < sqrt 3"
    by (rule real_less_rsqrt) (simp add: power2_eq_square)
  have distance: "Math_abs (Fin (7097815537856665 / 140737488355328)
      - Fin (1713512764373901 / 35184372088832)) = Fin (243764480361061 / 140737488355328)"
    by simp
  from short have "\<not> Fin (1 * sqrt 3) \<le> Fin (243764480361061 / 140737488355328)"
    by simp
  moreover have "Fin (243764480361061 / 140737488355328)
      < Fin (3900231685776981 / 2251799813685248)"
    by simp
  ultimately show ?thesis
    unfolding cells width HexCoord.simps distance by simp
qed

text \<open>
  Claim C5, as amended. A width or height above 5000 (also \<open>Infinity\<close>) gives the empty
  list. A width that is \<open>NaN\<close>, zero, negative or \<open>-Infinity\<close> is replaced by 800, and
  such a height by 600: the layout is the one of the default dimension, with one cell per
  item as long as neither validated dimension exceeds 5000.
\<close>

theorem calculateHexCoords_degenerate:
  "(Fin 5000 < w \<or> Fin 5000 < h \<longrightarrow> calculateHexCoords items w h r = []) \<and>
   (isNaN w \<or> w \<le> Fin 0 \<longrightarrow>
      calculateHexCoords items w h r = calculateHexCoords items (Fin 800) h r) \<and>
   (isNaN h \<or> h \<le> Fin 0 \<longrightarrow>
      calculateHexCoords items w h r = calculateHexCoords items w (Fin 600) r) \<and>
   (\<not> Fin 5000 < validDimension w (Fin 800) \<and> \<not> Fin 5000 < validDimension h (Fin 600) \<longrightarrow>
      length (calculateHexCoords items w h r) = length items)"
proof (intro conjI impI)
  assume "Fin 5000 < w \<or> Fin 5000 < h"
  then have "Fin 5000 < validDimension w (Fin 800) \<or> Fin 5000 < validDimension h (Fin 600)"
    by (cases w; cases h) (auto simp: validDimension_def)
  then show "calculateHexCoords items w h r = []"
    by (simp add: calculateHexCoords_def Let_def)
next
  assume "isNaN w \<or> w \<le> Fin 0"
  then have "validDimension w (Fin 800) = validDimension (Fin 800) (Fin 800)"
    by (cases w) (auto simp: validDimension_def)
  then show "calculateHexCoords items w h r = calculateHexCoords items (Fin 800) h r"
    by (simp add: calculateHexCoords_def)
next
  assume "isNaN h \<or> h \<le> Fin 0"
  then have "validDimension h (Fin 600) = validDimension (Fin 600) (Fin 600)"
    by (cases h) (auto simp: validDimension_def)
  then show "calculateHexCoords items w h r = calculateHexCoords items w (Fin 600) r"
    by (simp add: calculateHexCoords_def)
next
  assume "\<not> Fin 5000 < validDimension w (Fin 800) \<and> \<not> Fin 5000 < validDimension h (Fin 600)"
  then show "length (calculateHexCoords items w h r) = length items"
    by (simp add: length_calculateHexCoords)
qed

theorem calculateHexCoords_degenerate_witness:
  "Fin 5000 < PInf \<and> calculateHexCoords [0, 1 :: nat] PInf (Fin 600) (Fin 20) = [] \<and>
   isNaN NaN \<and> calculateHexCoords [0, 1 :: nat] NaN (Fin 600) (Fin 20)
      = calculateHexCoords [0, 1 :: nat] (Fin 800) (Fin 600) (Fin 20) \<and>
   Fin (- 5) \<le> Fin 0 \<and> calculateHexCoords [0, 1 :: nat] (Fin 800) (Fin (- 5)) (Fin 20)
      = calculateHexCoords [0, 1 :: nat] (Fin 800) (Fin 600) (Fin 20) \<and>
   length (calculateHexCoords [0, 1 :: nat] (Fin 800) (Fin 600) (Fin 20)) = 2"
proof -
  have a: "Fin 5000 < PInf" "isNaN NaN" "Fin (- 5) \<le> Fin 0" by simp_all
  have b: "\<not> Fin 5000 < validDimension (Fin 800) (Fin 800) \<and>
           \<not> Fin 5000 < validDimension (Fin 600) (Fin 600)"
    by (simp add: validDimension_def)
  from calculateHexCoords_degenerate [of PInf "Fin 600" "[0, 1 :: nat]" "Fin 20"] a(1)
  have "calculateHexCoords [0, 1 :: nat] PInf (Fin 600) (Fin 20) = []" by blast
  moreover from calculateHexCoords_degenerate [of NaN "Fin 600" "[0, 1 :: nat]" "Fin 20"] a(2)
  have "calculateHexCoords [0, 1 :: nat] NaN (Fin 600) (Fin 20)
      = calculateHexCoords [0, 1 :: nat] (Fin 800) (Fin 600) (Fin 20)" by blast
  moreover from calculateHexCoords_degenerate [of "Fin 800" "Fin (- 5)" "[0, 1 :: nat]" "Fin 20"] a(3)
  have "calculateHexCoords [0, 1 :: nat] (Fin 800) (Fin (- 5)) (Fin 20)
      = calculateHexCoords [0, 1 :: nat] (Fin 800) (Fin 600) (Fin 20)" by blast
  moreover from calculateHexCoords_degenerate [of "Fin 800" "Fin 600" "[0, 1 :: nat]" "Fin 20"] b
  have "length (calculateHexCoords [0, 1 :: nat] (Fin 800) (Fin 600) (Fin 20)) = 2" by simp
  ultimately show ?thesis using a by simp
qed

text \<open>
  Claim C5 as stated fails for the non-positive and the \<open>NaN\<close> dimensions: a zero width,
  a \<open>NaN\<close> height, and a width of \<open>-Infinity\<close> with a negative height all lay out both
  items.
\<close>

theorem calculateHexCoords_nonpositive_counterexample:
  "length (calculateHexCoords [0, 1 :: nat] (Fin 0) (Fin 600) (Fin 20)) = 2 \<and>
   calculateHexCoords [0, 1 :: nat] (Fin 0) (Fin 600) (Fin 20) \<noteq> [] \<and>
   calculateHexCoords [0, 1 :: nat] (Fin 800) NaN (Fin 20) \<noteq> [] \<and>
   calculateHexCoords [0, 1 :: nat] NInf (Fin (- 1)) (Fin 20) \<noteq> []"
  by (simp add: calculateHexCoords_def validDimension_def Let_def)

section \<open>Viewport: zero delta, anchored zoom and culling\<close>

lemma anchor_roundtrip:
  "isFinite (m - ((m - p) / z) * z) \<Longrightarrow> m - ((m - p) / z) * z = p"
  by (cases m; cases p; cases z) (auto simp: minus_jsnum_def split: if_splits)

lemma clamp_within:
  assumes "mn \<le> z" "z \<le> mx"
  shows "Math_max mn (Math_min mx z) = z"
  using assms by (cases mn; cases mx; cases z) (auto simp: Math_max_def Math_min_def)

lemma plus_zero_delta: "\<not> isNaN z \<Longrightarrow> z + Fin 0 = z"
  by (cases z) auto

text \<open>
  A zero delta on doubles: \<open>0 * 0.3\<close> is 0, and adding it to a zoom that is a double
  gives that zoom again.
\<close>

lemma zero_delta_step:
  assumes "rnd zoom = zoom"
  shows "rnd (zoom + rnd (Fin 0 * rnd (Fin 0.3))) = zoom"
proof -
  have "binary64 (3 / 10) = Fin (5404319552844595 / 18014398509481984)"
    using binary64_eval [of "- 2" "3 / 10" "5404319552844595"] by (simp add: roundEven_def)
  then have "rnd (Fin 0 * rnd (Fin 0.3)) = Fin 0" by simp
  moreover have "zoom + Fin 0 = zoom \<or> isNaN zoom" by (cases zoom) auto
  ultimately show ?thesis using assms by (cases zoom) auto
qed

lemma handleZoom64_anchored:
  assumes "zl_min bounds \<le> Fin z" "Fin z \<le> zl_max bounds" "z \<le> 6" "rnd (Fin z) = Fin z"
    and "z \<noteq> 0"
    and "rnd (Fin mx - rnd (rnd (rnd (Fin mx - Fin px) / Fin z) * Fin z)) = Fin nx"
    and "rnd (Fin my - rnd (rnd (rnd (Fin my - Fin py) / Fin z) * Fin z)) = Fin ny"
  shows "handleZoom64 bounds \<lparr>vp_zoom = Fin z, vp_pan = \<lparr>pt_x = Fin px, pt_y = Fin py\<rparr>\<rparr> (Fin 0)
           (Some \<lparr>pt_x = Fin mx, pt_y = Fin my\<rparr>)
         = \<lparr>vp_zoom = Fin z, vp_pan = \<lparr>pt_x = Fin nx, pt_y = Fin ny\<rparr>\<rparr>"
proof -
  note step = zero_delta_step [OF assms(4)]
  from assms(3) have cap: "\<not> Fin 6 < Fin z" by simp
  have x: "rnd (Fin mx - rnd (rnd (rnd (Fin (mx - px)) / Fin z) * Fin z)) = Fin nx"
    using assms(6) by (simp del: rnd.simps)
  have y: "rnd (Fin my - rnd (rnd (rnd (Fin (my - py)) / Fin z) * Fin z)) = Fin ny"
    using assms(7) by (simp del: rnd.simps)
  show ?thesis
    unfolding handleZoom64_def Let_def
    using assms(3) by (simp add: step clamp_within [OF assms(1,2)] cap x y del: rnd.simps)
qed

text \<open>
  The pan that an anchored call writes, \<open>mouse - ((mouse - pan) / zoom) * zoom\<close>, passes
  four roundings; their errors add up to less than \<open>2 ^ (-49)\<close> of \<open>\<bar>mouse\<bar> + \<bar>pan\<bar>\<close>
  (and \<open>2 ^ (-1070)\<close> in the subnormal range).
\<close>

lemma anchored_pan_error:
  fixes m p z :: real
  assumes z: "1 / 100 \<le> z" "z \<le> 6" and mp: "\<bar>m\<bar> \<le> 2 powi 1000" "\<bar>p\<bar> \<le> 2 powi 1000"
  shows "\<exists>n. rnd (Fin m - rnd (rnd (rnd (Fin m - Fin p) / Fin z) * Fin z)) = Fin n \<and>
             \<bar>n - p\<bar> \<le> (\<bar>m\<bar> + \<bar>p\<bar>) / 2 ^ 49 + 2 powi (- 1070)"
proof -
  define eta :: real where "eta = 2 powi (- 1075)"
  define P :: real where "P = 2 powi 1000"
  have eta: "0 < eta" "eta \<le> 1"
  proof -
    show "0 < eta" by (simp add: eta_def)
    have "(2::real) powi (- 1075) \<le> 2 powi 0" by (intro power_int_increasing) simp_all
    then show "eta \<le> 1" by (simp add: eta_def)
  qed
  have P: "1 \<le> P"
  proof -
    have "(2::real) powi 0 \<le> 2 powi 1000" by (intro power_int_increasing) simp_all
    then show ?thesis by (simp add: P_def)
  qed
  have top: "(2::real) powi 1023 = 8388608 * P"
  proof -
    have "(2::real) powi (23 + 1000) = 2 powi 23 * 2 powi 1000" by (rule power_int_add) simp
    then show ?thesis by (simp add: P_def)
  qed
  have eta32: "32 * eta = 2 powi (- 1070)"
  proof -
    have "(2::real) powi (5 + (- 1075)) = 2 powi 5 * 2 powi (- 1075)" by (rule power_int_add) simp
    then show ?thesis by (simp add: eta_def)
  qed
  have zpos: "0 < z" using z(1) by linarith
  define D where "D = m - p"
  have D: "\<bar>D\<bar> \<le> \<bar>m\<bar> + \<bar>p\<bar>" unfolding D_def by linarith
  with mp have DP: "\<bar>D\<bar> \<le> 2 * P" unfolding P_def by linarith
  with P have "\<bar>D\<bar> < 2 powi 1023" unfolding top by linarith
  from binary64_error [OF this] obtain d where d: "binary64 D = Fin d"
    and f1: "\<bar>d - D\<bar> \<le> \<bar>D\<bar> / 2 ^ 53 + eta" unfolding eta_def by blast
  have ad: "\<bar>d\<bar> \<le> \<bar>D\<bar> + \<bar>D\<bar> / 2 ^ 53 + eta" using f1 by linarith
  with DP eta P have dP: "\<bar>d\<bar> \<le> 5 * P" by simp
  have dz: "\<bar>d / z\<bar> \<le> 100 * \<bar>d\<bar>"
  proof -
    have "\<bar>d\<bar> / z \<le> \<bar>d\<bar> / (1 / 100)" using z(1) by (intro divide_left_mono) simp_all
    then show ?thesis using zpos by simp
  qed
  with dP P have "\<bar>d / z\<bar> < 2 powi 1023" unfolding top by linarith
  from binary64_error [OF this] obtain q where q: "binary64 (d / z) = Fin q"
    and f2': "\<bar>q - d / z\<bar> \<le> \<bar>d / z\<bar> / 2 ^ 53 + eta" unfolding eta_def by blast
  define X where "X = q * z"
  have f2: "\<bar>X - d\<bar> \<le> \<bar>d\<bar> / 2 ^ 53 + 6 * eta"
  proof -
    have "X - d = (q - d / z) * z" using zpos by (simp add: X_def algebra_simps)
    then have "\<bar>X - d\<bar> = \<bar>q - d / z\<bar> * z" using zpos by (simp add: abs_mult)
    also have "\<dots> \<le> (\<bar>d / z\<bar> / 2 ^ 53 + eta) * z"
      using f2' zpos by (intro mult_right_mono) simp_all
    also have "\<dots> = \<bar>d\<bar> / 2 ^ 53 + eta * z" using zpos by (simp add: algebra_simps)
    also have "\<dots> \<le> \<bar>d\<bar> / 2 ^ 53 + eta * 6"
      using z(2) eta(1) by (simp add: mult_left_mono)
    finally show ?thesis by simp
  qed
  have aX: "\<bar>X\<bar> \<le> \<bar>d\<bar> + \<bar>d\<bar> / 2 ^ 53 + 6 * eta" using f2 by linarith
  with dP eta P have XP: "\<bar>X\<bar> \<le> 16 * P" by simp
  with P have "\<bar>X\<bar> < 2 powi 1023" unfolding top by linarith
  from binary64_error [OF this] obtain t where t: "binary64 X = Fin t"
    and f3: "\<bar>t - X\<bar> \<le> \<bar>X\<bar> / 2 ^ 53 + eta" unfolding eta_def by blast
  have "\<bar>t\<bar> \<le> \<bar>X\<bar> + \<bar>X\<bar> / 2 ^ 53 + eta" using f3 by linarith
  with XP eta P have tP: "\<bar>t\<bar> \<le> 33 * P" by simp
  have "\<bar>m - t\<bar> \<le> \<bar>m\<bar> + \<bar>t\<bar>" by linarith
  with tP mp(1) have "\<bar>m - t\<bar> \<le> 34 * P" unfolding P_def by linarith
  with P have "\<bar>m - t\<bar> < 2 powi 1023" unfolding top by linarith
  from binary64_error [OF this] obtain n where n: "binary64 (m - t) = Fin n"
    and f4: "\<bar>n - (m - t)\<bar> \<le> \<bar>m - t\<bar> / 2 ^ 53 + eta" unfolding eta_def by blast
  have result: "rnd (Fin m - rnd (rnd (rnd (Fin m - Fin p) / Fin z) * Fin z)) = Fin n"
    using zpos d q t n by (simp add: D_def X_def)
  define eD where "eD = \<bar>D\<bar>"
  define ed where "ed = \<bar>d\<bar>"
  define eX where "eX = \<bar>X\<bar>"
  define tD where "tD = \<bar>t - D\<bar>"
  define mt where "mt = \<bar>m - t\<bar>"
  have nonneg: "0 \<le> eD" by (simp add: eD_def)
  have b1: "ed \<le> 2 * eD + eta" using ad unfolding ed_def eD_def by simp
  have b2: "eX \<le> 2 * ed + 6 * eta" using aX unfolding eX_def ed_def by simp
  have "\<bar>t - D\<bar> \<le> \<bar>t - X\<bar> + \<bar>X - d\<bar> + \<bar>d - D\<bar>" by linarith
  with f1 f2 f3 have b3: "tD \<le> eX / 2 ^ 53 + ed / 2 ^ 53 + eD / 2 ^ 53 + 8 * eta"
    unfolding tD_def eX_def ed_def eD_def by linarith
  have "\<bar>m - t\<bar> \<le> \<bar>p\<bar> + \<bar>t - D\<bar>" unfolding D_def by linarith
  then have b4: "mt \<le> \<bar>p\<bar> + tD" unfolding mt_def tD_def .
  have "\<bar>n - p\<bar> \<le> \<bar>n - (m - t)\<bar> + \<bar>t - D\<bar>" unfolding D_def by linarith
  with f4 have b5: "\<bar>n - p\<bar> \<le> mt / 2 ^ 53 + eta + tD" unfolding mt_def tD_def by linarith
  have b6: "eD \<le> \<bar>m\<bar> + \<bar>p\<bar>" using D unfolding eD_def .
  have pow: "(2::real) ^ 53 = 9007199254740992" "(2::real) ^ 49 = 562949953421312"
    by simp_all
  have "\<bar>n - p\<bar> \<le> (\<bar>m\<bar> + \<bar>p\<bar>) / 2 ^ 49 + 32 * eta"
    using b1 b2 b3 b4 b5 b6 nonneg eta unfolding pow by argo
  with result show ?thesis unfolding eta32 by blast
qed

text \<open>
  The rounding does change the pan: at zoom 2 with pan \<open>(0.1, 0.2)\<close> (the doubles nearest
  to them) and the anchor \<open>(100, 100)\<close>, a zero delta gives the pan
  \<open>(0.09999999999999432, 0.20000000000000284)\<close>.
\<close>

lemma handleZoom64_zero_delta_rounding:
  "handleZoom64 \<lparr>zl_min = Fin 1, zl_max = Fin 4, zl_initial = Fin 1\<rparr>
      \<lparr>vp_zoom = Fin 2,
       vp_pan = \<lparr>pt_x = Fin (3602879701896397 / 36028797018963968),
                 pt_y = Fin (3602879701896397 / 18014398509481984)\<rparr>\<rparr> (Fin 0)
      (Some \<lparr>pt_x = Fin 100, pt_y = Fin 100\<rparr>)
    = \<lparr>vp_zoom = Fin 2,
       vp_pan = \<lparr>pt_x = Fin (3518437208883 / 35184372088832),
                 pt_y = Fin (14073748835533 / 70368744177664)\<rparr>\<rparr>"
proof -
  have zoom_step_1: "binary64 (1 / 10) = Fin (3602879701896397 / 36028797018963968)"
    using binary64_eval [of "- 4" "1 / 10" "7205759403792794"] by (simp add: roundEven_def)

  have zoom_step_2: "binary64 (1 / 5) = Fin (3602879701896397 / 18014398509481984)"
    using binary64_eval [of "- 3" "1 / 5" "7205759403792794"] by (simp add: roundEven_def)

  have zoom_step_3: "binary64 (3 / 10) = Fin (5404319552844595 / 18014398509481984)"
    using binary64_eval [of "- 2" "3 / 10" "5404319552844595"] by (simp add: roundEven_def)

  have zoom_step_4: "binary64 (2) = Fin (2)"
    using binary64_eval [of "1" "2" "4503599627370496"] by (simp add: roundEven_def)

  have zoom_step_5: "binary64 (3599276822194500403 / 36028797018963968) = Fin (3514918771674317 / 35184372088832)"
    using binary64_eval [of "6" "3599276822194500403 / 36028797018963968" "7029837543348634"] by (simp add: roundEven_def)

  have zoom_step_6: "binary64 (3514918771674317 / 70368744177664) = Fin (3514918771674317 / 70368744177664)"
    using binary64_eval [of "5" "3514918771674317 / 70368744177664" "7029837543348634"] by (simp add: roundEven_def)

  have zoom_step_7: "binary64 (3514918771674317 / 35184372088832) = Fin (3514918771674317 / 35184372088832)"
    using binary64_eval [of "6" "3514918771674317 / 35184372088832" "7029837543348634"] by (simp add: roundEven_def)

  have zoom_step_8: "binary64 (3518437208883 / 35184372088832) = Fin (3518437208883 / 35184372088832)"
    using binary64_eval [of "- 4" "3518437208883 / 35184372088832" "7205759403792384"] by (simp add: roundEven_def)

  have zoom_step_9: "binary64 (1797836971246302003 / 18014398509481984) = Fin (7022800668930867 / 70368744177664)"
    using binary64_eval [of "6" "1797836971246302003 / 18014398509481984" "7022800668930867"] by (simp add: roundEven_def)

  have zoom_step_10: "binary64 (7022800668930867 / 140737488355328) = Fin (7022800668930867 / 140737488355328)"
    using binary64_eval [of "5" "7022800668930867 / 140737488355328" "7022800668930867"] by (simp add: roundEven_def)

  have zoom_step_11: "binary64 (7022800668930867 / 70368744177664) = Fin (7022800668930867 / 70368744177664)"
    using binary64_eval [of "6" "7022800668930867 / 70368744177664" "7022800668930867"] by (simp add: roundEven_def)

  have zoom_step_12: "binary64 (14073748835533 / 70368744177664) = Fin (14073748835533 / 70368744177664)"
    using binary64_eval [of "- 3" "14073748835533 / 70368744177664" "7205759403792896"] by (simp add: roundEven_def)
  note steps = zoom_step_1 zoom_step_2 zoom_step_3 zoom_step_4 zoom_step_5 zoom_step_6 zoom_step_7 zoom_step_8 zoom_step_9 zoom_step_10 zoom_step_11 zoom_step_12
  show ?thesis
    unfolding handleZoom64_def Let_def
    by (simp add: steps)
qed

text \<open>
  Claim C3, as amended. When the zoom lies within the zoom bounds and does not exceed the
  global cap 6, \<open>handleZoom\<close> with \<open>delta = 0\<close> leaves the zoom unchanged, and without
  an anchor point it leaves the whole state unchanged: this holds in exact arithmetic and
  on doubles. With an anchor point the pan is recomputed; in exact arithmetic the result
  is the old pan, for every pan and every anchor point, and on doubles (for a zoom of at
  least 0.01 and coordinates of magnitude at most \<open>2 ^ 1000\<close>) each coordinate differs
  from the old one by at most \<open>(\<bar>mouse\<bar> + \<bar>pan\<bar>) / 2 ^ 49 + 2 ^ (-1070)\<close>.
\<close>

theorem handleZoom_zero_delta:
  assumes "zl_min bounds \<le> zoom" "zoom \<le> zl_max bounds" "zoom \<le> Fin 6"
  shows "handleZoom bounds \<lparr>vp_zoom = zoom, vp_pan = pan\<rparr> (Fin 0) event
           = \<lparr>vp_zoom = zoom, vp_pan = pan\<rparr> \<and>
         (rnd zoom = zoom \<longrightarrow>
            vp_zoom (handleZoom64 bounds \<lparr>vp_zoom = zoom, vp_pan = pan\<rparr> (Fin 0) event) = zoom \<and>
            handleZoom64 bounds \<lparr>vp_zoom = zoom, vp_pan = pan\<rparr> (Fin 0) None
              = \<lparr>vp_zoom = zoom, vp_pan = pan\<rparr> \<and>
            (Fin (1 / 100) \<le> zoom \<and> pan = \<lparr>pt_x = Fin px, pt_y = Fin py\<rparr> \<and>
             \<bar>px\<bar> \<le> 2 powi 1000 \<and> \<bar>py\<bar> \<le> 2 powi 1000 \<and>
             \<bar>mx\<bar> \<le> 2 powi 1000 \<and> \<bar>my\<bar> \<le> 2 powi 1000 \<longrightarrow>
               (\<exists>nx ny.
                  handleZoom64 bounds \<lparr>vp_zoom = zoom, vp_pan = pan\<rparr> (Fin 0)
                      (Some \<lparr>pt_x = Fin mx, pt_y = Fin my\<rparr>)
                    = \<lparr>vp_zoom = zoom, vp_pan = \<lparr>pt_x = Fin nx, pt_y = Fin ny\<rparr>\<rparr> \<and>
                  \<bar>nx - px\<bar> \<le> (\<bar>mx\<bar> + \<bar>px\<bar>) / 2 ^ 49 + 2 powi (- 1070) \<and>
                  \<bar>ny - py\<bar> \<le> (\<bar>my\<bar> + \<bar>py\<bar>) / 2 ^ 49 + 2 powi (- 1070))))"
proof (intro conjI impI)
  from assms(3) have nn: "\<not> isNaN zoom" by (cases zoom) auto
  from assms(3) have cap: "\<not> Fin 6 < zoom" by (cases zoom) auto
  show "handleZoom bounds \<lparr>vp_zoom = zoom, vp_pan = pan\<rparr> (Fin 0) event
           = \<lparr>vp_zoom = zoom, vp_pan = pan\<rparr>"
  proof (cases event)
    case None
    then show ?thesis
      by (simp add: handleZoom_def Let_def plus_zero_delta [OF nn] clamp_within [OF assms(1,2)] cap)
  next
    case (Some mouse)
    have x: "isFinite (pt_x mouse - ((pt_x mouse - pt_x pan) / zoom) * zoom) \<Longrightarrow>
        pt_x mouse - ((pt_x mouse - pt_x pan) / zoom) * zoom = pt_x pan"
      by (rule anchor_roundtrip)
    have y: "isFinite (pt_y mouse - ((pt_y mouse - pt_y pan) / zoom) * zoom) \<Longrightarrow>
        pt_y mouse - ((pt_y mouse - pt_y pan) / zoom) * zoom = pt_y pan"
      by (rule anchor_roundtrip)
    from Some x y show ?thesis
      by (auto simp add: handleZoom_def Let_def plus_zero_delta [OF nn]
            clamp_within [OF assms(1,2)] cap)
  qed
  assume d: "rnd zoom = zoom"
  note step = zero_delta_step [OF d]
  show "handleZoom64 bounds \<lparr>vp_zoom = zoom, vp_pan = pan\<rparr> (Fin 0) None
              = \<lparr>vp_zoom = zoom, vp_pan = pan\<rparr>"
    by (simp add: handleZoom64_def Let_def step clamp_within [OF assms(1,2)] cap del: rnd.simps)
  show "vp_zoom (handleZoom64 bounds \<lparr>vp_zoom = zoom, vp_pan = pan\<rparr> (Fin 0) event) = zoom"
    by (cases event)
       (simp_all add: handleZoom64_def Let_def step clamp_within [OF assms(1,2)] cap del: rnd.simps)
  assume a: "Fin (1 / 100) \<le> zoom \<and> pan = \<lparr>pt_x = Fin px, pt_y = Fin py\<rparr> \<and>
             \<bar>px\<bar> \<le> 2 powi 1000 \<and> \<bar>py\<bar> \<le> 2 powi 1000 \<and>
             \<bar>mx\<bar> \<le> 2 powi 1000 \<and> \<bar>my\<bar> \<le> 2 powi 1000"
  with assms(3) obtain z where z: "zoom = Fin z" "1 / 100 \<le> z" "z \<le> 6"
    by (cases zoom) auto
  from a have pan: "pan = \<lparr>pt_x = Fin px, pt_y = Fin py\<rparr>" by blast
  from a anchored_pan_error [OF z(2,3), of mx px] obtain nx
    where nx: "rnd (Fin mx - rnd (rnd (rnd (Fin mx - Fin px) / Fin z) * Fin z)) = Fin nx"
      "\<bar>nx - px\<bar> \<le> (\<bar>mx\<bar> + \<bar>px\<bar>) / 2 ^ 49 + 2 powi (- 1070)"
    by blast
  from a anchored_pan_error [OF z(2,3), of my py] obtain ny
    where ny: "rnd (Fin my - rnd (rnd (rnd (Fin my - Fin py) / Fin z) * Fin z)) = Fin ny"
      "\<bar>ny - py\<bar> \<le> (\<bar>my\<bar> + \<bar>py\<bar>) / 2 ^ 49 + 2 powi (- 1070)"
    by blast
  from z(2) have z0: "z \<noteq> 0" by auto
  have "handleZoom64 bounds \<lparr>vp_zoom = zoom, vp_pan = pan\<rparr> (Fin 0)
          (Some \<lparr>pt_x = Fin mx, pt_y = Fin my\<rparr>)
        = \<lparr>vp_zoom = zoom, vp_pan = \<lparr>pt_x = Fin nx, pt_y = Fin ny\<rparr>\<rparr>"
    unfolding z(1) pan
    using assms(1,2) d z(3) z0 nx(1) ny(1)
    unfolding z(1) by (intro handleZoom64_anchored)
  with nx(2) ny(2)
  show "\<exists>nx ny.
          handleZoom64 bounds \<lparr>vp_zoom = zoom, vp_pan = pan\<rparr> (Fin 0)
              (Some \<lparr>pt_x = Fin mx, pt_y = Fin my\<rparr>)
            = \<lparr>vp_zoom = zoom, vp_pan = \<lparr>pt_x = Fin nx, pt_y = Fin ny\<rparr>\<rparr> \<and>
          \<bar>nx - px\<bar> \<le> (\<bar>mx\<bar> + \<bar>px\<bar>) / 2 ^ 49 + 2 powi (- 1070) \<and>
          \<bar>ny - py\<bar> \<le> (\<bar>my\<bar> + \<bar>py\<bar>) / 2 ^ 49 + 2 powi (- 1070)"
    by blast
qed







theorem handleZoom_zero_delta_witness:
  "zl_min (zoomLimits (Fin 15) (Fin 800) (Fin 600)) \<le> Fin 2 \<and>
   Fin 2 \<le> zl_max (zoomLimits (Fin 15) (Fin 800) (Fin 600)) \<and> Fin 2 \<le> Fin 6 \<and>
   rnd (Fin 2) = Fin 2 \<and> Fin (1 / 100) \<le> Fin 2 \<and>
   \<bar>10 :: real\<bar> \<le> 2 powi 1000 \<and> \<bar>20 :: real\<bar> \<le> 2 powi 1000 \<and> \<bar>100 :: real\<bar> \<le> 2 powi 1000 \<and>
   handleZoom (zoomLimits (Fin 15) (Fin 800) (Fin 600))
      \<lparr>vp_zoom = Fin 2, vp_pan = \<lparr>pt_x = Fin 10, pt_y = Fin 20\<rparr>\<rparr> (Fin 0)
      (Some \<lparr>pt_x = Fin 100, pt_y = Fin 100\<rparr>)
    = \<lparr>vp_zoom = Fin 2, vp_pan = \<lparr>pt_x = Fin 10, pt_y = Fin 20\<rparr>\<rparr> \<and>
   handleZoom64 (zoomLimits (Fin 15) (Fin 800) (Fin 600))
      \<lparr>vp_zoom = Fin 2, vp_pan = \<lparr>pt_x = Fin 10, pt_y = Fin 20\<rparr>\<rparr> (Fin 0) None
    = \<lparr>vp_zoom = Fin 2, vp_pan = \<lparr>pt_x = Fin 10, pt_y = Fin 20\<rparr>\<rparr> \<and>
   (\<exists>nx ny.
      handleZoom64 (zoomLimits (Fin 15) (Fin 800) (Fin 600))
          \<lparr>vp_zoom = Fin 2, vp_pan = \<lparr>pt_x = Fin 10, pt_y = Fin 20\<rparr>\<rparr> (Fin 0)
          (Some \<lparr>pt_x = Fin 100, pt_y = Fin 100\<rparr>)
        = \<lparr>vp_zoom = Fin 2, vp_pan = \<lparr>pt_x = Fin nx, pt_y = Fin ny\<rparr>\<rparr> \<and>
      \<bar>nx - 10\<bar> \<le> (\<bar>100\<bar> + \<bar>10\<bar>) / 2 ^ 49 + 2 powi (- 1070) \<and>
      \<bar>ny - 20\<bar> \<le> (\<bar>100\<bar> + \<bar>20\<bar>) / 2 ^ 49 + 2 powi (- 1070))"
proof -
  have limits: "zoomLimits (Fin 15) (Fin 800) (Fin 600)
      = \<lparr>zl_min = Fin (2 / 5), zl_max = Fin 16, zl_initial = Fin 1\<rparr>"
    by (simp add: zoomLimits_def validDimension_def Let_def)
  have within: "zl_min (zoomLimits (Fin 15) (Fin 800) (Fin 600)) \<le> Fin 2"
      "Fin 2 \<le> zl_max (zoomLimits (Fin 15) (Fin 800) (Fin 600))" "Fin 2 \<le> Fin 6"
    by (simp_all add: limits)
  have double: "rnd (Fin 2) = Fin 2"
    using binary64_eval [of 1 2 4503599627370496] by (simp add: roundEven_def)
  have "(2::real) powi 7 \<le> 2 powi 1000" by (intro power_int_increasing) simp_all
  then have small: "\<bar>10 :: real\<bar> \<le> 2 powi 1000" "\<bar>20 :: real\<bar> \<le> 2 powi 1000"
      "\<bar>100 :: real\<bar> \<le> 2 powi 1000"
    by simp_all
  have range: "Fin (1 / 100) \<le> Fin 2 \<and>
      \<lparr>pt_x = Fin 10, pt_y = Fin 20\<rparr> = \<lparr>pt_x = Fin 10, pt_y = Fin 20\<rparr> \<and>
      \<bar>10 :: real\<bar> \<le> 2 powi 1000 \<and> \<bar>20 :: real\<bar> \<le> 2 powi 1000 \<and>
      \<bar>100 :: real\<bar> \<le> 2 powi 1000 \<and> \<bar>100 :: real\<bar> \<le> 2 powi 1000"
    using small by simp
  note zero = handleZoom_zero_delta [OF within,
      of "\<lparr>pt_x = Fin 10, pt_y = Fin 20\<rparr>" "Some \<lparr>pt_x = Fin 100, pt_y = Fin 100\<rparr>" 10 20 100 100]
  from zero have exact: "handleZoom (zoomLimits (Fin 15) (Fin 800) (Fin 600))
      \<lparr>vp_zoom = Fin 2, vp_pan = \<lparr>pt_x = Fin 10, pt_y = Fin 20\<rparr>\<rparr> (Fin 0)
      (Some \<lparr>pt_x = Fin 100, pt_y = Fin 100\<rparr>)
    = \<lparr>vp_zoom = Fin 2, vp_pan = \<lparr>pt_x = Fin 10, pt_y = Fin 20\<rparr>\<rparr>"
    by blast
  from zero double have plain: "handleZoom64 (zoomLimits (Fin 15) (Fin 800) (Fin 600))
      \<lparr>vp_zoom = Fin 2, vp_pan = \<lparr>pt_x = Fin 10, pt_y = Fin 20\<rparr>\<rparr> (Fin 0) None
    = \<lparr>vp_zoom = Fin 2, vp_pan = \<lparr>pt_x = Fin 10, pt_y = Fin 20\<rparr>\<rparr>"
    by blast
  from zero double range have anchored: "\<exists>nx ny.
      handleZoom64 (zoomLimits (Fin 15) (Fin 800) (Fin 600))
          \<lparr>vp_zoom = Fin 2, vp_pan = \<lparr>pt_x = Fin 10, pt_y = Fin 20\<rparr>\<rparr> (Fin 0)
          (Some \<lparr>pt_x = Fin 100, pt_y = Fin 100\<rparr>)
        = \<lparr>vp_zoom = Fin 2, vp_pan = \<lparr>pt_x = Fin nx, pt_y = Fin ny\<rparr>\<rparr> \<and>
      \<bar>nx - 10\<bar> \<le> (\<bar>100\<bar> + \<bar>10\<bar>) / 2 ^ 49 + 2 powi (- 1070) \<and>
      \<bar>ny - 20\<bar> \<le> (\<bar>100\<bar> + \<bar>20\<bar>) / 2 ^ 49 + 2 powi (- 1070)"
    by blast
  from within double small exact plain anchored show ?thesis
    by (simp only: less_eq_jsnum.simps) simp
qed

text \<open>
  Claim C3 as stated fails: with radius 15 in an 800 by 600 container the bounds are
  \<open>[0.4, 16]\<close>; the zoom 10 lies within them, and a zero delta anchored at (100, 100) sets
  the zoom to 6 and moves the pan from (0, 0) to (40, 40).
\<close>

theorem handleZoom_zero_delta_counterexample:
  "zl_min (zoomLimits (Fin 15) (Fin 800) (Fin 600)) \<le> Fin 10 \<and>
   Fin 10 \<le> zl_max (zoomLimits (Fin 15) (Fin 800) (Fin 600)) \<and>
   handleZoom (zoomLimits (Fin 15) (Fin 800) (Fin 600))
      \<lparr>vp_zoom = Fin 10, vp_pan = \<lparr>pt_x = Fin 0, pt_y = Fin 0\<rparr>\<rparr> (Fin 0)
      (Some \<lparr>pt_x = Fin 100, pt_y = Fin 100\<rparr>)
    = \<lparr>vp_zoom = Fin 6, vp_pan = \<lparr>pt_x = Fin 40, pt_y = Fin 40\<rparr>\<rparr> \<and>
   handleZoom (zoomLimits (Fin 15) (Fin 800) (Fin 600))
      \<lparr>vp_zoom = Fin 10, vp_pan = \<lparr>pt_x = Fin 0, pt_y = Fin 0\<rparr>\<rparr> (Fin 0)
      (Some \<lparr>pt_x = Fin 100, pt_y = Fin 100\<rparr>)
    \<noteq> \<lparr>vp_zoom = Fin 10, vp_pan = \<lparr>pt_x = Fin 0, pt_y = Fin 0\<rparr>\<rparr>"
  by (simp add: zoomLimits_def validDimension_def handleZoom_def Let_def)





section \<open>Colour classification and explicit colours\<close>

lemma values_cong:
  "map (\<lambda>x. (isSummary x, mp_value x)) xs = map (\<lambda>x. (isSummary x, mp_value x)) ys \<Longrightarrow>
   map mp_value (filter (\<lambda>x. \<not> isSummary x) xs) = map mp_value (filter (\<lambda>x. \<not> isSummary x) ys)"
proof (induction xs arbitrary: ys)
  case Nil
  then show ?case by simp
next
  case (Cons x xs)
  then obtain y ys' where ys: "ys = y # ys'" by (cases ys) auto
  with Cons.prems have "isSummary x = isSummary y" "mp_value x = mp_value y"
    "map (\<lambda>x. (isSummary x, mp_value x)) xs = map (\<lambda>x. (isSummary x, mp_value x)) ys'"
    by simp_all
  with Cons.IH [of ys'] ys show ?case by simp
qed

lemma classify_threshold_color:
  assumes "\<not> isSummary item"
  shows "fillColor (classify minVal range' item) \<in> {COLORS_NORMAL, COLORS_WARNING, COLORS_CRITICAL}"
    and "fillColor (classify minVal range' (item\<lparr>mp_color := c\<rparr>))
           = fillColor (classify minVal range' item)"
  using assms
  by (simp_all add: classify_def isSummary_def Let_def fillColor_def str_or_def
        COLORS_NORMAL_def COLORS_WARNING_def COLORS_CRITICAL_def)

lemma classify_summary_color:
  assumes "isSummary item"
  shows "mp_color (classify minVal range' item) = Some (str_or (mp_color item) ''#6B7280'')"
  using assms by (simp add: classify_def)

lemma processedData_nth:
  assumes "i < length data" "filter (\<lambda>item. \<not> isSummary item) data \<noteq> []"
  shows "processedData data ! i =
     classify (Math_min_list (map mp_value (filter (\<lambda>item. \<not> isSummary item) data)))
       (Math_max_list (map mp_value (filter (\<lambda>item. \<not> isSummary item) data))
          - Math_min_list (map mp_value (filter (\<lambda>item. \<not> isSummary item) data)))
       (data ! i)"
  using assms by (auto simp: processedData_def Let_def)

lemma processedData_only_summary:
  assumes "filter (\<lambda>item. \<not> isSummary item) data = []"
  shows "processedData data = data"
  using assms by (simp add: processedData_def Let_def)

lemma recolour_same_values:
  assumes "i < length data"
  shows "map (\<lambda>x. (isSummary x, mp_value x)) (data[i := (data ! i)\<lparr>mp_color := c\<rparr>])
       = map (\<lambda>x. (isSummary x, mp_value x)) data"
  using assms by (simp add: map_update isSummary_def list_update_same_conv)

text \<open>
  Claim C7, as amended. A summary item with an explicit non-empty colour is drawn in that
  colour. A summary item without a colour (or with the empty string) is drawn in the
  default grey \<open>#6B7280\<close> when the data holds at least one ordinary item, and in the
  default blue \<open>#3B82F6\<close> of \<open>Hexagon\<close> when the data holds summary items only:
  \<open>processedData\<close> then returns the data as they are and assigns no grey. Every other
  item is drawn in one of the three threshold colours, and that colour does not depend on
  the item's own explicit colour: replacing it by any other, or by none, gives the same
  fill.
\<close>

theorem processedData_explicit_color:
  assumes "i < length data"
  shows "(isSummary (data ! i) \<and> mp_color (data ! i) = Some c \<and> c \<noteq> [] \<longrightarrow>
            fillColor (processedData data ! i) = c) \<and>
         (isSummary (data ! i) \<and> (mp_color (data ! i) = None \<or> mp_color (data ! i) = Some []) \<longrightarrow>
            fillColor (processedData data ! i)
              = (if filter (\<lambda>item. \<not> isSummary item) data = [] then ''#3B82F6'' else ''#6B7280'')) \<and>
         (\<not> isSummary (data ! i) \<longrightarrow>
            fillColor (processedData data ! i) \<in> {COLORS_NORMAL, COLORS_WARNING, COLORS_CRITICAL} \<and>
            fillColor (processedData (data[i := (data ! i)\<lparr>mp_color := c'\<rparr>]) ! i)
              = fillColor (processedData data ! i))"
proof (intro conjI impI)
  assume a: "isSummary (data ! i) \<and> mp_color (data ! i) = Some c \<and> c \<noteq> []"
  show "fillColor (processedData data ! i) = c"
  proof (cases "filter (\<lambda>item. \<not> isSummary item) data = []")
    case True
    with a show ?thesis
      by (simp add: processedData_only_summary fillColor_def str_or_def)
  next
    case False
    with a assms show ?thesis
      by (simp add: processedData_nth classify_summary_color fillColor_def str_or_def)
  qed
next
  assume a: "isSummary (data ! i) \<and> (mp_color (data ! i) = None \<or> mp_color (data ! i) = Some [])"
  show "fillColor (processedData data ! i)
      = (if filter (\<lambda>item. \<not> isSummary item) data = [] then ''#3B82F6'' else ''#6B7280'')"
  proof (cases "filter (\<lambda>item. \<not> isSummary item) data = []")
    case True
    with a show ?thesis
      by (auto simp: processedData_only_summary fillColor_def str_or_def)
  next
    case False
    with a assms show ?thesis
      by (auto simp: processedData_nth classify_summary_color fillColor_def str_or_def)
  qed
next
  assume n: "\<not> isSummary (data ! i)"
  have ne: "filter (\<lambda>item. \<not> isSummary item) data \<noteq> []"
    using nth_mem [OF assms] n unfolding filter_empty_conv by blast
  from classify_threshold_color(1) [OF n] assms ne
  show "fillColor (processedData data ! i) \<in> {COLORS_NORMAL, COLORS_WARNING, COLORS_CRITICAL}"
    by (simp add: processedData_nth)
  let ?data' = "data[i := (data ! i)\<lparr>mp_color := c'\<rparr>]"
  have vals: "map mp_value (filter (\<lambda>item. \<not> isSummary item) ?data')
        = map mp_value (filter (\<lambda>item. \<not> isSummary item) data)"
    by (rule values_cong) (rule recolour_same_values [OF assms])
  have i': "i < length ?data'" using assms by simp
  from n have n': "\<not> isSummary (?data' ! i)" using assms by (simp add: isSummary_def)
  have ne': "filter (\<lambda>item. \<not> isSummary item) ?data' \<noteq> []"
    using nth_mem [OF i'] n' unfolding filter_empty_conv by blast
  show "fillColor (processedData ?data' ! i) = fillColor (processedData data ! i)"
    unfolding processedData_nth [OF i' ne'] processedData_nth [OF assms ne] vals
    using assms classify_threshold_color(2) [OF n] by simp
qed

theorem processedData_explicit_color_witness:
  "(0::nat) < length
      [\<lparr>mp_name = ''+5 others'', mp_value = Fin 5, mp_labels = [''type'' \<mapsto> ''summary''],
        mp_timestamp = Fin 0, mp_color = Some ''#112233'', mp_groupOffset = None,
        mp_groupArea = None, mp_groupId = None, mp_thresholdLevel = None\<rparr>,
       \<lparr>mp_name = ''up'', mp_value = Fin 1, mp_labels = [''job'' \<mapsto> ''api''],
        mp_timestamp = Fin 0, mp_color = None, mp_groupOffset = None,
        mp_groupArea = None, mp_groupId = None, mp_thresholdLevel = None\<rparr>,
       \<lparr>mp_name = ''+2 others'', mp_value = Fin 2, mp_labels = [''type'' \<mapsto> ''summary''],
        mp_timestamp = Fin 0, mp_color = None, mp_groupOffset = None,
        mp_groupArea = None, mp_groupId = None, mp_thresholdLevel = None\<rparr>] \<and>
   fillColor (processedData
      [\<lparr>mp_name = ''+5 others'', mp_value = Fin 5, mp_labels = [''type'' \<mapsto> ''summary''],
        mp_timestamp = Fin 0, mp_color = Some ''#112233'', mp_groupOffset = None,
        mp_groupArea = None, mp_groupId = None, mp_thresholdLevel = None\<rparr>,
       \<lparr>mp_name = ''up'', mp_value = Fin 1, mp_labels = [''job'' \<mapsto> ''api''],
        mp_timestamp = Fin 0, mp_color = None, mp_groupOffset = None,
        mp_groupArea = None, mp_groupId = None, mp_thresholdLevel = None\<rparr>,
       \<lparr>mp_name = ''+2 others'', mp_value = Fin 2, mp_labels = [''type'' \<mapsto> ''summary''],
        mp_timestamp = Fin 0, mp_color = None, mp_groupOffset = None,
        mp_groupArea = None, mp_groupId = None, mp_thresholdLevel = None\<rparr>] ! 0) = ''#112233'' \<and>
   fillColor (processedData
      [\<lparr>mp_name = ''+5 others'', mp_value = Fin 5, mp_labels = [''type'' \<mapsto> ''summary''],
        mp_timestamp = Fin 0, mp_color = Some ''#112233'', mp_groupOffset = None,
        mp_groupArea = None, mp_groupId = None, mp_thresholdLevel = None\<rparr>,
       \<lparr>mp_name = ''up'', mp_value = Fin 1, mp_labels = [''job'' \<mapsto> ''api''],
        mp_timestamp = Fin 0, mp_color = None, mp_groupOffset = None,
        mp_groupArea = None, mp_groupId = None, mp_thresholdLevel = None\<rparr>,
       \<lparr>mp_name = ''+2 others'', mp_value = Fin 2, mp_labels = [''type'' \<mapsto> ''summary''],
        mp_timestamp = Fin 0, mp_color = None, mp_groupOffset = None,
        mp_groupArea = None, mp_groupId = None, mp_thresholdLevel = None\<rparr>] ! 1)
     \<in> {COLORS_NORMAL, COLORS_WARNING, COLORS_CRITICAL} \<and>
   fillColor (processedData
      [\<lparr>mp_name = ''+5 others'', mp_value = Fin 5, mp_labels = [''type'' \<mapsto> ''summary''],
        mp_timestamp = Fin 0, mp_color = Some ''#112233'', mp_groupOffset = None,
        mp_groupArea = None, mp_groupId = None, mp_thresholdLevel = None\<rparr>,
       \<lparr>mp_name = ''up'', mp_value = Fin 1, mp_labels = [''job'' \<mapsto> ''api''],
        mp_timestamp = Fin 0, mp_color = None, mp_groupOffset = None,
        mp_groupArea = None, mp_groupId = None, mp_thresholdLevel = None\<rparr>,
       \<lparr>mp_name = ''+2 others'', mp_value = Fin 2, mp_labels = [''type'' \<mapsto> ''summary''],
        mp_timestamp = Fin 0, mp_color = None, mp_groupOffset = None,
        mp_groupArea = None, mp_groupId = None, mp_thresholdLevel = None\<rparr>] ! 2) = ''#6B7280'' \<and>
   fillColor (processedData
      [\<lparr>mp_name = ''+2 others'', mp_value = Fin 2, mp_labels = [''type'' \<mapsto> ''summary''],
        mp_timestamp = Fin 0, mp_color = None, mp_groupOffset = None,
        mp_groupArea = None, mp_groupId = None, mp_thresholdLevel = None\<rparr>] ! 0) = ''#3B82F6''"
proof -
  define summary where "summary =
       \<lparr>mp_name = ''+5 others'', mp_value = Fin 5, mp_labels = [''type'' \<mapsto> ''summary''],
        mp_timestamp = Fin 0, mp_color = Some ''#112233'', mp_groupOffset = None,
        mp_groupArea = None, mp_groupId = None, mp_thresholdLevel = None\<rparr>"
  define up where "up =
       \<lparr>mp_name = ''up'', mp_value = Fin 1, mp_labels = [''job'' \<mapsto> ''api''],
        mp_timestamp = Fin 0, mp_color = None, mp_groupOffset = None,
        mp_groupArea = None, mp_groupId = None, mp_thresholdLevel = None\<rparr>"
  define plain where "plain =
       \<lparr>mp_name = ''+2 others'', mp_value = Fin 2, mp_labels = [''type'' \<mapsto> ''summary''],
        mp_timestamp = Fin 0, mp_color = None, mp_groupOffset = None,
        mp_groupArea = None, mp_groupId = None, mp_thresholdLevel = None\<rparr>"
  have first: "(0::nat) < length [summary, up, plain]"
    and second: "(1::nat) < length [summary, up, plain]"
    and third: "(2::nat) < length [summary, up, plain]"
    and alone: "(0::nat) < length [plain]"
    by simp_all
  have explicit: "isSummary ([summary, up, plain] ! 0)
      \<and> mp_color ([summary, up, plain] ! 0) = Some ''#112233'' \<and> ''#112233'' \<noteq> []"
    by (simp add: summary_def isSummary_def)
  have ordinary: "\<not> isSummary ([summary, up, plain] ! 1)"
    by (simp add: up_def isSummary_def)
  have uncoloured: "isSummary ([summary, up, plain] ! 2)
      \<and> (mp_color ([summary, up, plain] ! 2) = None \<or> mp_color ([summary, up, plain] ! 2) = Some [])"
    by (simp add: plain_def isSummary_def)
  have mixed: "filter (\<lambda>item. \<not> isSummary item) [summary, up, plain] \<noteq> []"
    by (simp add: up_def isSummary_def)
  have uncoloured_alone: "isSummary ([plain] ! 0)
      \<and> (mp_color ([plain] ! 0) = None \<or> mp_color ([plain] ! 0) = Some [])"
    by (simp add: plain_def isSummary_def)
  have only: "filter (\<lambda>item. \<not> isSummary item) [plain] = []"
    by (simp add: plain_def isSummary_def)
  from processedData_explicit_color [OF first, of "''#112233''"] explicit
  have kept: "fillColor (processedData [summary, up, plain] ! 0) = ''#112233''" by blast
  from processedData_explicit_color [OF second] ordinary
  have classified: "fillColor (processedData [summary, up, plain] ! 1)
      \<in> {COLORS_NORMAL, COLORS_WARNING, COLORS_CRITICAL}" by blast
  from processedData_explicit_color [OF third] uncoloured
  have "fillColor (processedData [summary, up, plain] ! 2)
      = (if filter (\<lambda>item. \<not> isSummary item) [summary, up, plain] = [] then ''#3B82F6'' else ''#6B7280'')"
    by blast
  with mixed have grey: "fillColor (processedData [summary, up, plain] ! 2) = ''#6B7280''"
    by (simp only: if_False)
  from processedData_explicit_color [OF alone] uncoloured_alone
  have "fillColor (processedData [plain] ! 0)
      = (if filter (\<lambda>item. \<not> isSummary item) [plain] = [] then ''#3B82F6'' else ''#6B7280'')"
    by blast
  with only have blue: "fillColor (processedData [plain] ! 0) = ''#3B82F6''"
    by simp
  from first kept classified grey blue show ?thesis unfolding summary_def up_def plain_def by blast
qed

text \<open>
  Claim C7 as stated fails: of two ordinary items with values 10 and 90, the second carries
  the explicit colour \<open>#123456\<close> and is drawn in the critical colour.
\<close>

theorem processedData_explicit_color_counterexample:
  "mp_color (
      [\<lparr>mp_name = ''up'', mp_value = Fin 10, mp_labels = [''job'' \<mapsto> ''api''],
        mp_timestamp = Fin 0, mp_color = None, mp_groupOffset = None,
        mp_groupArea = None, mp_groupId = None, mp_thresholdLevel = None\<rparr>,
       \<lparr>mp_name = ''up'', mp_value = Fin 90, mp_labels = [''job'' \<mapsto> ''db''],
        mp_timestamp = Fin 0, mp_color = Some ''#123456'', mp_groupOffset = None,
        mp_groupArea = None, mp_groupId = None, mp_thresholdLevel = None\<rparr>] ! 1) = Some ''#123456'' \<and>
   fillColor (processedData
      [\<lparr>mp_name = ''up'', mp_value = Fin 10, mp_labels = [''job'' \<mapsto> ''api''],
        mp_timestamp = Fin 0, mp_color = None, mp_groupOffset = None,
        mp_groupArea = None, mp_groupId = None, mp_thresholdLevel = None\<rparr>,
       \<lparr>mp_name = ''up'', mp_value = Fin 90, mp_labels = [''job'' \<mapsto> ''db''],
        mp_timestamp = Fin 0, mp_color = Some ''#123456'', mp_groupOffset = None,
        mp_groupArea = None, mp_groupId = None, mp_thresholdLevel = None\<rparr>] ! 1) = COLORS_CRITICAL \<and>
   COLORS_CRITICAL \<noteq> ''#123456''"
  by (simp add: processedData_def classify_def isSummary_def Math_min_list_def Math_max_list_def
      fillColor_def str_or_def Let_def COLORS_CRITICAL_def COLORS_WARNING_def COLORS_NORMAL_def)

section \<open>The automatic zoom of the cluster layout\<close>

lemma baseZoom_cases:
  "baseZoom n = Fin 0.8 \<or> baseZoom n = Fin 0.5 \<or> baseZoom n = Fin 0.35 \<or> baseZoom n = Fin 0.25"
  by (simp add: baseZoom_def)

lemma densityFactor_cases:
  "densityFactor a = Fin 1.1 \<or> densityFactor a = Fin 1.0 \<or> densityFactor a = Fin 0.9
     \<or> densityFactor a = Fin 0.8"
  by (simp add: densityFactor_def)

text \<open>
  Claim C8, as amended. With at least one bucket, the automatic zoom is the product of the
  base factor and the density factor, clamped to \<open>[0.1, 1.0]\<close>. The base factor is 0.8,
  0.5, 0.35 and 0.25 for at most 2, at most 4, at most 6 and more than 6 buckets; the
  density factor is 1.1, 1.0, 0.9 and 0.8 for an average of at most 5, at most 15, at most
  30 and more than 30 items per bucket. The average is finite, the density factor lies
  between 0.8 and 1.1, the clamp never changes the product, and the result lies in
  \<open>[0.1, 1.0]\<close>.
\<close>

theorem finalZoom_bands:
  assumes "groupedData \<noteq> []"
  shows "finalZoom groupedData
           = Math_max (Fin 0.1) (Math_min (Fin 1.0)
               (baseZoom (length groupedData) * densityFactor (avgMetricsPerGroup groupedData))) \<and>
         baseZoom (length groupedData)
           = (if length groupedData \<le> 2 then Fin 0.8
              else if length groupedData \<le> 4 then Fin 0.5
              else if length groupedData \<le> 6 then Fin 0.35
              else Fin 0.25) \<and>
         densityFactor (avgMetricsPerGroup groupedData)
           = (if avgMetricsPerGroup groupedData \<le> Fin 5 then Fin 1.1
              else if avgMetricsPerGroup groupedData \<le> Fin 15 then Fin 1.0
              else if avgMetricsPerGroup groupedData \<le> Fin 30 then Fin 0.9
              else Fin 0.8) \<and>
         isFinite (avgMetricsPerGroup groupedData) \<and>
         Fin 0.8 \<le> densityFactor (avgMetricsPerGroup groupedData) \<and>
         densityFactor (avgMetricsPerGroup groupedData) \<le> Fin 1.1 \<and>
         finalZoom groupedData
           = baseZoom (length groupedData) * densityFactor (avgMetricsPerGroup groupedData) \<and>
         Fin 0.1 \<le> finalZoom groupedData \<and> finalZoom groupedData \<le> Fin 1.0"
proof -
  from assms have "length groupedData \<noteq> 0" by simp
  then have fin: "isFinite (avgMetricsPerGroup groupedData)"
    by (simp add: avgMetricsPerGroup_def Let_def)
  from baseZoom_cases [of "length groupedData"]
       densityFactor_cases [of "avgMetricsPerGroup groupedData"]
  show ?thesis
    unfolding finalZoom_def Let_def
    using fin by (elim disjE) (simp_all add: baseZoom_def densityFactor_def)
qed


theorem finalZoom_bands_witness:
  "[\<lparr>mg_groupKey = ''job'', mg_groupValue = ''api'', mg_metrics = [1, 2 :: nat]\<rparr>,
    \<lparr>mg_groupKey = ''job'', mg_groupValue = ''db'', mg_metrics = [3, 4]\<rparr>,
    \<lparr>mg_groupKey = ''job'', mg_groupValue = ''web'', mg_metrics = [5, 6]\<rparr>] \<noteq> [] \<and>
   finalZoom
     [\<lparr>mg_groupKey = ''job'', mg_groupValue = ''api'', mg_metrics = [1, 2 :: nat]\<rparr>,
      \<lparr>mg_groupKey = ''job'', mg_groupValue = ''db'', mg_metrics = [3, 4]\<rparr>,
      \<lparr>mg_groupKey = ''job'', mg_groupValue = ''web'', mg_metrics = [5, 6]\<rparr>] = Fin 0.5 * Fin 1.1 \<and>
   Fin 0.1 \<le> finalZoom
     [\<lparr>mg_groupKey = ''job'', mg_groupValue = ''api'', mg_metrics = [1, 2 :: nat]\<rparr>,
      \<lparr>mg_groupKey = ''job'', mg_groupValue = ''db'', mg_metrics = [3, 4]\<rparr>,
      \<lparr>mg_groupKey = ''job'', mg_groupValue = ''web'', mg_metrics = [5, 6]\<rparr>]"
proof -
  define groups where "groups =
     [\<lparr>mg_groupKey = ''job'', mg_groupValue = ''api'', mg_metrics = [1, 2 :: nat]\<rparr>,
      \<lparr>mg_groupKey = ''job'', mg_groupValue = ''db'', mg_metrics = [3, 4]\<rparr>,
      \<lparr>mg_groupKey = ''job'', mg_groupValue = ''web'', mg_metrics = [5, 6]\<rparr>]"
  have ne: "groups \<noteq> []" by (simp add: groups_def)
  have avg: "avgMetricsPerGroup groups = Fin 2"
    by (simp add: groups_def avgMetricsPerGroup_def Let_def)
  have n: "length groups = 3" by (simp add: groups_def)
  note bands = finalZoom_bands [OF ne]
  from bands have "finalZoom groups
      = baseZoom (length groups) * densityFactor (avgMetricsPerGroup groups)" by blast
  also from bands have "baseZoom (length groups) = Fin 0.5" by (simp add: n)
  also from bands have "densityFactor (avgMetricsPerGroup groups) = Fin 1.1" by (simp add: avg)
  finally have a: "finalZoom groups = Fin 0.5 * Fin 1.1" .
  from bands have b: "Fin 0.1 \<le> finalZoom groups" by blast
  from ne a b show ?thesis unfolding groups_def by blast
qed

text \<open>
  Claim C8 as stated fails in the first band: it gives the base factor 1.0 there. One
  bucket of 20 items has the zoom \<open>0.8 * 0.9 = 0.72\<close>, which no density factor between 0.8
  and 1.1 yields from a base of 1.0.
\<close>

theorem finalZoom_first_band_counterexample:
  "finalZoom [\<lparr>mg_groupKey = ''job'', mg_groupValue = ''api'', mg_metrics = replicate 20 ()\<rparr>]
     = Fin 0.8 * Fin 0.9 \<and>
   \<not> (\<exists>d. 0.8 \<le> d \<and> d \<le> 1.1 \<and>
     finalZoom [\<lparr>mg_groupKey = ''job'', mg_groupValue = ''api'', mg_metrics = replicate 20 ()\<rparr>]
       = Math_max (Fin 0.1) (Math_min (Fin 1.0) (Fin 1.0 * Fin d)))"
  by (simp add: finalZoom_def avgMetricsPerGroup_def baseZoom_def densityFactor_def Let_def
        min_def max_def)

section \<open>The levels of the filter stack\<close>

lemma levelsMatch_initial: "levelsMatch initialGroupByState"
  by (simp add: levelsMatch_def initialGroupByState_def)

lemma levelsMatch_reset: "levelsMatch (handleResetGroupBy s)"
  by (simp add: levelsMatch_def handleResetGroupBy_def)

lemma levelsMatch_labelClick:
  "levelsMatch s \<Longrightarrow> levelsMatch (handleLabelClick key groupByState s)"
  by (simp add: levelsMatch_def handleLabelClick_def)

lemma levelsMatch_removeFilter:
  assumes "levelsMatch s" "index < length (filterStack s)"
  shows "levelsMatch (handleRemoveFilter index s)"
proof -
  have "map level (take index (filterStack s)) = take index (map level (filterStack s))"
    by (simp add: take_map)
  also from assms(1) have "\<dots> = take index (map (\<lambda>i. Fin (real i)) [0..<length (filterStack s)])"
    by (simp add: levelsMatch_def)
  also from assms(2) have "\<dots> = map (\<lambda>i. Fin (real i)) [0..<index]"
    by (simp add: take_map)
  finally show ?thesis using assms(2)
    by (simp add: levelsMatch_def handleRemoveFilter_def min_def)
qed

lemma levelsMatch_groupClick:
  assumes "levelsMatch s"
  shows "levelsMatch (handleGroupClick groupValue s)"
proof (cases "selectedGroupValue s = Some groupValue")
  case True
  have "map level (butlast (filterStack s)) = butlast (map level (filterStack s))"
    by (simp add: map_butlast)
  also from assms have "\<dots> = butlast (map (\<lambda>i. Fin (real i)) [0..<length (filterStack s)])"
    by (simp add: levelsMatch_def)
  also have "\<dots> = map (\<lambda>i. Fin (real i)) [0..<length (filterStack s) - 1]"
    by (simp add: butlast_conv_take take_map)
  finally have stack: "map level (butlast (filterStack s))
      = map (\<lambda>i. Fin (real i)) [0..<length (filterStack s) - 1]" .
  have cur: "Math_max (Fin 0) (Fin (real (length (filterStack s))) - Fin 1)
      = Fin (real (length (filterStack s) - 1))"
    by (cases "length (filterStack s)") (simp_all add: max_def)
  from True assms stack cur show ?thesis
    by (simp add: levelsMatch_def handleGroupClick_def Let_def)
next
  case False
  with assms show ?thesis
    by (simp add: levelsMatch_def handleGroupClick_def Let_def)
qed

lemma reachable_levelsMatch: "reachable s \<Longrightarrow> levelsMatch s"
  by (induction rule: reachable.induct)
     (simp_all add: levelsMatch_initial levelsMatch_reset levelsMatch_labelClick
        levelsMatch_removeFilter levelsMatch_groupClick)

text \<open>
  Claim C9. In every reachable state the entry at index \<open>i\<close> of the filter stack has level
  \<open>i\<close>, and \<open>currentLevel\<close> is the length of the stack. Drilling into a group that is not
  the selected one appends one entry, whose level is the length of the stack before;
  clicking the selected group removes the last entry; removing the filter at index \<open>i\<close>
  leaves \<open>i\<close> entries; resetting empties the stack.
\<close>

theorem filterStack_levels:
  assumes "reachable s"
  shows "(\<forall>i. i < length (filterStack s) \<longrightarrow> level (filterStack s ! i) = Fin (real i)) \<and>
         currentLevel s = Fin (real (length (filterStack s))) \<and>
         (\<forall>groupValue. selectedGroupValue s \<noteq> Some groupValue \<longrightarrow>
            filterStack (handleGroupClick groupValue s)
              = filterStack s @ [\<lparr>labelKey = groupKey s, labelValue = groupValue,
                                   level = Fin (real (length (filterStack s)))\<rparr>]) \<and>
         (\<forall>groupValue. selectedGroupValue s = Some groupValue \<longrightarrow>
            filterStack (handleGroupClick groupValue s) = butlast (filterStack s)) \<and>
         (\<forall>index. index < length (filterStack s) \<longrightarrow>
            length (filterStack (handleRemoveFilter index s)) = index) \<and>
         filterStack (handleResetGroupBy s) = []"
proof -
  from reachable_levelsMatch [OF assms]
  have m: "map level (filterStack s) = map (\<lambda>i. Fin (real i)) [0..<length (filterStack s)]"
    and c: "currentLevel s = Fin (real (length (filterStack s)))"
    by (simp_all add: levelsMatch_def)
  have "level (filterStack s ! i) = Fin (real i)" if "i < length (filterStack s)" for i
  proof -
    from that have "level (filterStack s ! i) = map level (filterStack s) ! i" by simp
    also have "\<dots> = Fin (real i)" unfolding m using that by simp
    finally show ?thesis .
  qed
  with c show ?thesis
    by (simp add: handleGroupClick_def handleRemoveFilter_def handleResetGroupBy_def Let_def)
qed


theorem filterStack_levels_witness:
  "reachable (handleGroupClick ''api'' (handleLabelClick ''job'' initialGroupByState initialGroupByState)) \<and>
   filterStack (handleGroupClick ''api'' (handleLabelClick ''job'' initialGroupByState initialGroupByState))
     = [\<lparr>labelKey = Some ''job'', labelValue = ''api'', level = Fin 0\<rparr>] \<and>
   level (filterStack (handleGroupClick ''api''
       (handleLabelClick ''job'' initialGroupByState initialGroupByState)) ! 0)
     = Fin (real (0::nat)) \<and>
   currentLevel (handleGroupClick ''api'' (handleLabelClick ''job'' initialGroupByState initialGroupByState))
     = Fin 1 \<and>
   filterStack (handleGroupClick ''db''
       (handleGroupClick ''api'' (handleLabelClick ''job'' initialGroupByState initialGroupByState)))
     = [\<lparr>labelKey = Some ''job'', labelValue = ''api'', level = Fin 0\<rparr>,
        \<lparr>labelKey = Some ''job'', labelValue = ''db'', level = Fin 1\<rparr>] \<and>
   filterStack (handleGroupClick ''api''
       (handleGroupClick ''api'' (handleLabelClick ''job'' initialGroupByState initialGroupByState)))
     = [] \<and>
   length (filterStack (handleRemoveFilter 0
       (handleGroupClick ''api'' (handleLabelClick ''job'' initialGroupByState initialGroupByState))))
     = 0"
proof -
  define s where
    "s = handleGroupClick ''api'' (handleLabelClick ''job'' initialGroupByState initialGroupByState)"
  have r: "reachable s"
    unfolding s_def by (intro reachable.groupClick reachable.labelClick reachable.initial)
  have stack: "filterStack s = [\<lparr>labelKey = Some ''job'', labelValue = ''api'', level = Fin 0\<rparr>]"
    and other: "selectedGroupValue s \<noteq> Some ''db''"
    and selected: "selectedGroupValue s = Some ''api''"
    and key: "groupKey s = Some ''job''"
    by (simp_all add: s_def handleGroupClick_def handleLabelClick_def initialGroupByState_def Let_def)
  have shown: "(0::nat) < length (filterStack s)" by (simp add: stack)
  note inv = filterStack_levels [OF r]
  from inv shown have "level (filterStack s ! 0) = Fin (real (0::nat))" by blast
  moreover from inv have "currentLevel s = Fin 1" by (simp add: stack)
  moreover from inv other have "filterStack (handleGroupClick ''db'' s)
      = filterStack s @ [\<lparr>labelKey = groupKey s, labelValue = ''db'',
                           level = Fin (real (length (filterStack s)))\<rparr>]"
    by blast
  then have "filterStack (handleGroupClick ''db'' s)
     = [\<lparr>labelKey = Some ''job'', labelValue = ''api'', level = Fin 0\<rparr>,
        \<lparr>labelKey = Some ''job'', labelValue = ''db'', level = Fin 1\<rparr>]"
    by (simp add: stack key)
  moreover from inv selected have "filterStack (handleGroupClick ''api'' s) = butlast (filterStack s)"
    by blast
  then have "filterStack (handleGroupClick ''api'' s) = []" by (simp add: stack)
  moreover from inv shown have "length (filterStack (handleRemoveFilter 0 s)) = 0" by blast
  ultimately show ?thesis using r stack unfolding s_def by blast
qed

section \<open>Text fitting: termination and the returned size\<close>

lemma shrinkLoop_exit:
  assumes "\<not> (a < w \<and> m < s)"
  shows "shrinkLoop mt text a m s w = Some (s, w)"
proof -
  from assms have "(a < w \<and> m < s) = False" by blast
  then show ?thesis by (subst shrinkLoop.simps) (simp only: if_False)
qed

lemma shrinkLoop_step:
  assumes "a < w \<and> m < s"
  shows "shrinkLoop mt text a m s w
           = shrinkLoop mt text a m (s * Fin 0.90) (mt text (s * Fin 0.90))"
proof -
  from assms have "(a < w \<and> m < s) = True" by blast
  then show ?thesis by (subst shrinkLoop.simps) (simp only: if_True)
qed

lemma shrinkLoop_bounded:
  fixes m s :: real
  assumes "0 < m" "s \<le> m * (10 / 9) ^ n"
  shows "\<exists>s' w'. shrinkLoop mt text a (Fin m) (Fin s) w = Some (Fin s', w') \<and>
           (s' = s \<and> w' = w \<or> 0.9 * m < s' \<and> s' < s \<and> w' = mt text (Fin s')) \<and>
           \<not> (a < w' \<and> m < s')"
  using assms(2)
proof (induction n arbitrary: s w)
  case 0
  then have stop: "\<not> (a < w \<and> Fin m < Fin s)" by simp
  then have "\<not> (a < w \<and> m < s)" by simp
  with shrinkLoop_exit [OF stop] show ?case by blast
next
  case (Suc n)
  show ?case
  proof (cases "a < w \<and> Fin m < Fin s")
    case stop: False
    then have "\<not> (a < w \<and> m < s)" by simp
    with shrinkLoop_exit [OF stop] show ?thesis by blast
  next
    case go: True
    then have ms: "m < s" by simp
    from Suc.prems have "s * 0.9 \<le> m * (10 / 9) ^ n" by simp
    from Suc.IH [OF this, of "mt text (Fin s * Fin 0.90)"]
    obtain s' w' where r: "shrinkLoop mt text a (Fin m) (Fin (s * 0.9)) (mt text (Fin s * Fin 0.90))
          = Some (Fin s', w')"
      "s' = s * 0.9 \<and> w' = mt text (Fin s * Fin 0.90)
         \<or> 0.9 * m < s' \<and> s' < s * 0.9 \<and> w' = mt text (Fin s')"
      "\<not> (a < w' \<and> m < s')"
      by blast
    from shrinkLoop_step [OF go, of mt "text"] r(1)
    have "shrinkLoop mt text a (Fin m) (Fin s) w = Some (Fin s', w')" by simp
    moreover from r(2) have "0.9 * m < s' \<and> s' < s \<and> w' = mt text (Fin s')"
    proof (elim disjE conjE)
      assume e: "s' = s * 0.9" "w' = mt text (Fin s * Fin 0.90)"
      have eq: "Fin s * Fin 0.90 = Fin s'" unfolding e(1) by simp
      have "w' = mt text (Fin s')" unfolding e(2) eq ..
      moreover have "0.9 * m < s'" "s' < s" using e(1) ms assms(1) by simp_all
      ultimately show ?thesis by blast
    next
      assume "0.9 * m < s'" "s' < s * 0.9" "w' = mt text (Fin s')"
      with ms assms(1) show ?thesis by simp
    qed
    ultimately show ?thesis using r(3) by blast
  qed
qed

lemma shrinkLoop_Fin:
  fixes m s :: real
  assumes "0 < m"
  shows "\<exists>s' w'. shrinkLoop mt text a (Fin m) (Fin s) w = Some (Fin s', w') \<and>
           (s' = s \<and> w' = w \<or> 0.9 * m < s' \<and> s' < s \<and> w' = mt text (Fin s')) \<and>
           \<not> (a < w' \<and> m < s')"
proof -
  from real_arch_pow [of "10 / 9" "s / m"] obtain n where "s / m < (10 / 9) ^ n" by auto
  with assms have "s \<le> m * (10 / 9) ^ n" by (simp add: field_simps)
  from shrinkLoop_bounded [OF assms this] show ?thesis .
qed

lemma shrinkLoop_terminates:
  "\<exists>s' w'. shrinkLoop mt text a (Math_max (Fin 4) (maxFontSize * Fin 0.4)) maxFontSize w
       = Some (s', w')"
proof (cases maxFontSize)
  case (Fin f)
  have "0 < max 4 (f * 0.4)" by simp
  from shrinkLoop_Fin [OF this, of mt "text" a f w] Fin show ?thesis by auto
qed (simp_all add: shrinkLoop_exit Math_max_def)

lemma availableLogicalWidth_Fin:
  assumes "vs \<noteq> 0"
  shows "isFinite (availableLogicalWidth (Fin vs) (Fin vy) (Fin yp))"
  using assms by (simp add: availableLogicalWidth_def Let_def)

lemma final_correction_ge_2:
  assumes "Fin a < w" "Fin 0 \<le> w" "0 < s"
  shows "Fin 2 \<le> Math_max (Fin 2) ((Fin a / w) * Fin s)"
  using assms by (cases w) (auto simp: Math_max_def)

lemma prepareText_total:
  "\<exists>info. prepareText mt vs vy text f yp = Some info"
proof -
  from shrinkLoop_terminates [of mt "text" "availableLogicalWidth vs vy yp" f "mt text f"]
  obtain s' w' where "shrinkLoop mt text (availableLogicalWidth vs vy yp)
      (Math_max (Fin 4) (f * Fin 0.4)) f (mt text f) = Some (s', w')"
    by blast
  then show ?thesis by (simp add: prepareText_def Let_def)
qed

lemma prepareText_fits:
  assumes "\<not> availableLogicalWidth vs vy yp < mt text f"
  shows "prepareText mt vs vy text f yp
           = Some \<lparr>ti_lines = [text], ti_shouldWrap = False, ti_optimalFontSize = f\<rparr>"
proof -
  from assms have "\<not> (availableLogicalWidth vs vy yp < mt text f
      \<and> Math_max (Fin 4) (f * Fin 0.4) < f)" by simp
  from shrinkLoop_exit [OF this] assms show ?thesis
    by (simp add: prepareText_def Let_def)
qed

lemma prepareText_ge_2:
  fixes s r :: real
  assumes "0 < s" "0 < r" "\<And>fontSize. Fin 0 \<le> mt text fontSize"
  shows "\<exists>info. prepareText mt (Fin s) (Fin y0) text (Fin r) (Fin y) = Some info \<and>
           (Fin 2 \<le> ti_optimalFontSize info \<or>
            r < 2 \<and> ti_optimalFontSize info = Fin r \<and>
            \<not> availableLogicalWidth (Fin s) (Fin y0) (Fin y) < mt text (Fin r))"
proof -
  from assms(1) availableLogicalWidth_Fin [of s y0 y]
  obtain a where a: "availableLogicalWidth (Fin s) (Fin y0) (Fin y) = Fin a"
    by (cases "availableLogicalWidth (Fin s) (Fin y0) (Fin y)") auto
  have floor: "Math_max (Fin 4) (Fin r * Fin 0.4) = Fin (max 4 (r * 0.4))" by simp
  have pos: "0 < max 4 (r * 0.4)" by simp
  from shrinkLoop_Fin [OF pos, of mt "text" "Fin a" r "mt text (Fin r)"]
  obtain s' w' where loop: "shrinkLoop mt text (Fin a) (Fin (max 4 (r * 0.4))) (Fin r) (mt text (Fin r))
        = Some (Fin s', w')"
    and size: "s' = r \<and> w' = mt text (Fin r)
        \<or> 0.9 * max 4 (r * 0.4) < s' \<and> s' < r \<and> w' = mt text (Fin s')"
    by blast
  from size assms(2) have s0: "0 < s'" by (auto simp: max_def split: if_splits)
  from size assms(3) have w0: "Fin 0 \<le> w'" by auto
  show ?thesis
  proof (cases "Fin a < w'")
    case True
    from final_correction_ge_2 [OF True w0 s0] True loop show ?thesis
      by (simp add: prepareText_def Let_def a floor)
  next
    case False
    from size have "2 \<le> s' \<or> r < 2 \<and> s' = r \<and> w' = mt text (Fin r)"
      by (auto simp: max_def split: if_splits)
    with False loop show ?thesis
      by (auto simp add: prepareText_def Let_def a floor)
  qed
qed

text \<open>
  Claim C10, as amended. \<open>prepareText\<close> returns for every text, every starting font size
  (also \<open>NaN\<close> or infinite) and every measurement function. From a finite starting size
  \<open>r\<close> the loop ends with a finite size that is \<open>r\<close> itself, when it never ran, or lies
  between \<open>0.9 * max 4 (0.4 * r)\<close> and \<open>r\<close>; at its end the width no longer exceeds the
  available width or the size has reached the floor \<open>max 4 (0.4 * r)\<close>. When the text fits
  at the starting size, that size is returned unchanged. For a finite positive cell size, a
  positive finite starting size and a measurement function that returns no negative width
  and no \<open>NaN\<close>, the returned size is at least 2, except when the starting size is below 2
  and the text already fits: then the starting size is returned.
\<close>

theorem prepareText_terminates:
  "(\<exists>info. prepareText measureText validSize validY label maxFontSize yPosition = Some info) \<and>
   (\<exists>size width.
       shrinkLoop measureText label available (Math_max (Fin 4) (Fin r * Fin 0.4)) (Fin r) w
         = Some (Fin size, width) \<and>
       (size = r \<and> width = w
          \<or> 0.9 * max 4 (r * 0.4) < size \<and> size < r \<and> width = measureText label (Fin size)) \<and>
       \<not> (available < width \<and> max 4 (r * 0.4) < size)) \<and>
   (\<not> availableLogicalWidth validSize validY yPosition < measureText label maxFontSize \<longrightarrow>
      prepareText measureText validSize validY label maxFontSize yPosition
        = Some \<lparr>ti_lines = [label], ti_shouldWrap = False, ti_optimalFontSize = maxFontSize\<rparr>) \<and>
   (0 < s \<and> 0 < r \<and> (\<forall>fontSize. Fin 0 \<le> measureText label fontSize) \<longrightarrow>
      (\<exists>info. prepareText measureText (Fin s) (Fin y0) label (Fin r) (Fin y) = Some info \<and>
          (Fin 2 \<le> ti_optimalFontSize info \<or>
           r < 2 \<and> ti_optimalFontSize info = Fin r \<and>
           \<not> availableLogicalWidth (Fin s) (Fin y0) (Fin y) < measureText label (Fin r))))"
proof (intro conjI impI)
  show "\<exists>info. prepareText measureText validSize validY label maxFontSize yPosition = Some info"
    by (rule prepareText_total)
next
  have "0 < max 4 (r * 0.4)" by simp
  from shrinkLoop_Fin [OF this, of measureText label available r w]
  show "\<exists>size width.
       shrinkLoop measureText label available (Math_max (Fin 4) (Fin r * Fin 0.4)) (Fin r) w
         = Some (Fin size, width) \<and>
       (size = r \<and> width = w
          \<or> 0.9 * max 4 (r * 0.4) < size \<and> size < r \<and> width = measureText label (Fin size)) \<and>
       \<not> (available < width \<and> max 4 (r * 0.4) < size)"
    by simp
next
  assume "\<not> availableLogicalWidth validSize validY yPosition < measureText label maxFontSize"
  then show "prepareText measureText validSize validY label maxFontSize yPosition
        = Some \<lparr>ti_lines = [label], ti_shouldWrap = False, ti_optimalFontSize = maxFontSize\<rparr>"
    by (rule prepareText_fits)
next
  assume "0 < s \<and> 0 < r \<and> (\<forall>fontSize. Fin 0 \<le> measureText label fontSize)"
  then show "\<exists>info. prepareText measureText (Fin s) (Fin y0) label (Fin r) (Fin y) = Some info \<and>
          (Fin 2 \<le> ti_optimalFontSize info \<or>
           r < 2 \<and> ti_optimalFontSize info = Fin r \<and>
           \<not> availableLogicalWidth (Fin s) (Fin y0) (Fin y) < measureText label (Fin r))"
    using prepareText_ge_2 [of s r measureText label y0 y] by blast
qed

theorem prepareText_terminates_witness:
  "(0::real) < 15 \<and> (0::real) < 12 \<and> Fin 0 \<le> Fin 100 \<and>
   (\<exists>info. prepareText (\<lambda>label fontSize. Fin 100) (Fin 15) (Fin 0) ''node-1'' (Fin 12) (Fin 0.75)
        = Some info \<and> Fin 2 \<le> ti_optimalFontSize info) \<and>
   \<not> availableLogicalWidth (Fin 15) (Fin 0) (Fin 0.75) < Fin 1 \<and>
   prepareText (\<lambda>label fontSize. Fin 1) (Fin 15) (Fin 0) ''node-1'' (Fin 12) (Fin 0.75)
     = Some \<lparr>ti_lines = [''node-1''], ti_shouldWrap = False, ti_optimalFontSize = Fin 12\<rparr>"
proof -
  have given: "(0::real) < 15 \<and> (0::real) < 12 \<and> (\<forall>fontSize::jsnum. Fin 0 \<le> Fin 100)"
    by simp
  have "1 \<le> sqrt 3" by simp
  then have "\<not> 15 * sqrt 3 * (85 / 100) < 1" by linarith
  then have fits: "\<not> availableLogicalWidth (Fin 15) (Fin 0) (Fin 0.75) < Fin 1"
    by (simp add: availableLogicalWidth_def Let_def)
  from prepareText_terminates [of "\<lambda>label fontSize. Fin 100" _ _ "''node-1''" _ _ _ 12 _ 15 0 "0.75"]
    given
  have "\<exists>info. prepareText (\<lambda>label fontSize. Fin 100) (Fin 15) (Fin 0) ''node-1'' (Fin 12) (Fin 0.75)
        = Some info \<and>
        (Fin 2 \<le> ti_optimalFontSize info \<or>
         (12::real) < 2 \<and> ti_optimalFontSize info = Fin 12 \<and>
         \<not> availableLogicalWidth (Fin 15) (Fin 0) (Fin 0.75) < Fin 100)"
    by blast
  then have wide: "\<exists>info. prepareText (\<lambda>label fontSize. Fin 100) (Fin 15) (Fin 0) ''node-1'' (Fin 12) (Fin 0.75)
        = Some info \<and> Fin 2 \<le> ti_optimalFontSize info"
    by simp
  from prepareText_terminates [of "\<lambda>label fontSize. Fin 1" "Fin 15" "Fin 0" "''node-1''" "Fin 12" "Fin 0.75"]
    fits
  have narrow: "prepareText (\<lambda>label fontSize. Fin 1) (Fin 15) (Fin 0) ''node-1'' (Fin 12) (Fin 0.75)
     = Some \<lparr>ti_lines = [''node-1''], ti_shouldWrap = False, ti_optimalFontSize = Fin 12\<rparr>"
    by blast
  from given wide fits narrow show ?thesis by simp
qed

text \<open>
  Claim C10 as stated fails in its last part. The fourth label line of a cell of radius 15
  at zoom 4 starts at \<open>3 * 0.6 = 1.8\<close> at \<open>y = validY + 0.65 * 15\<close>; a text of width 2 fits
  the available width, so 1.8 is returned, below 2.
\<close>

theorem prepareText_below_2_counterexample:
  "Fin 0 \<le> Fin 2 \<and>
   prepareText (\<lambda>label fontSize. Fin 2) (Fin 15) (Fin 0) ''ab'' (Fin 1.8) (Fin 9.75)
     = Some \<lparr>ti_lines = [''ab''], ti_shouldWrap = False, ti_optimalFontSize = Fin 1.8\<rparr> \<and>
   \<not> Fin 2 \<le> Fin 1.8"
proof -
  have "1 \<le> sqrt 3" by simp
  then have "\<not> 15 * sqrt 3 * (575 / 1000) < 2" by linarith
  then have fits: "\<not> availableLogicalWidth (Fin 15) (Fin 0) (Fin 9.75) < Fin 2"
    by (simp add: availableLogicalWidth_def Let_def)
  then have "\<not> (availableLogicalWidth (Fin 15) (Fin 0) (Fin 9.75) < Fin 2
      \<and> Math_max (Fin 4) (Fin 1.8 * Fin 0.4) < Fin 1.8)"
    by simp
  from shrinkLoop_exit [OF this] fits show ?thesis
    by (simp add: prepareText_def Let_def)
qed

end
